theory Spec2Isabelle
  imports Complex_Main "HOL-Library.AList" "HOL-Library.Word"
begin

section \<open>JavaScript values\<close>

text \<open>
  The handlers of \<^verbatim>\<open>Backend/server.js\<close> work on the provider's payloads, which
  axios hands over as parsed JSON. A value is modelled as the handlers see it. An object
  is the list of its own properties in property order, with distinct keys, so that
  \<^verbatim>\<open>{...movie, Plot: p}\<close> is an update that keeps the position of a key the object
  already has and appends a new key. \<open>JNum w\<close> is the number \<open>sint w\<close>: the numbers of the
  model are the integers from \<open>- (2 ^ 53)\<close> to \<open>2 ^ 53 - 1\<close>, each of which a double holds
  exactly and prints with all its digits. A string is the list of its code units, of which
  the model has the 256 of \<open>char\<close>.
\<close>

datatype jsval =
    JUndefined
  | JNull
  | JBool bool
  | JNum "54 word"
  | JStr string
  | JArr "jsval list"
  | JObj "(string \<times> jsval) list"

text \<open>The result of \<^verbatim>\<open>parseInt\<close> and \<^verbatim>\<open>Math.ceil\<close>: a number or \<^verbatim>\<open>NaN\<close>.\<close>

datatype jsnum = NaN | Finite int

text \<open>What a handler can throw.\<close>

datatype exn =
    FetchFailed  \<comment> \<open>\<^verbatim>\<open>new Error('Failed to fetch data from movie database')\<close>\<close>
  | TypeError    \<comment> \<open>a property read on \<^verbatim>\<open>null\<close> or \<^verbatim>\<open>undefined\<close>, a call of a non-function,
                     a conversion of an object that has no primitive value\<close>

fun nullish :: "jsval \<Rightarrow> bool" where
  "nullish JUndefined = True"
| "nullish JNull = True"
| "nullish _ = False"

text \<open>
  \<open>get_prop v k\<close> is \<^verbatim>\<open>v.k\<close> for a \<open>v\<close> that is neither \<^verbatim>\<open>null\<close> nor
  \<^verbatim>\<open>undefined\<close> and a name \<open>k\<close> that no prototype defines (the handlers read
  \<^verbatim>\<open>Response\<close>, \<^verbatim>\<open>Search\<close>, \<^verbatim>\<open>totalResults\<close>, \<^verbatim>\<open>Error\<close>, \<^verbatim>\<open>imdbID\<close> and the
  seven detail fields): a missing property and a property of a primitive or of an array
  are \<^verbatim>\<open>undefined\<close>.
\<close>

fun get_prop :: "jsval \<Rightarrow> string \<Rightarrow> jsval" where
  "get_prop (JObj kvs) k = (case map_of kvs k of Some v \<Rightarrow> v | None \<Rightarrow> JUndefined)"
| "get_prop _ k = JUndefined"

text \<open>JavaScript's truthiness, as \<^verbatim>\<open>||\<close>, \<^verbatim>\<open>&&\<close> and \<^verbatim>\<open>if\<close> use it.\<close>

fun truthy :: "jsval \<Rightarrow> bool" where
  "truthy JUndefined = False"
| "truthy JNull = False"
| "truthy (JBool b) = b"
| "truthy (JNum n) = (n \<noteq> 0)"
| "truthy (JStr s) = (s \<noteq> [])"
| "truthy (JArr xs) = True"
| "truthy (JObj kvs) = True"

text \<open>\<^verbatim>\<open>a || b\<close>\<close>

definition js_or :: "jsval \<Rightarrow> jsval \<Rightarrow> jsval" where
  "js_or a b = (if truthy a then a else b)"

subsection \<open>Numbers and strings\<close>

definition digit_char :: "nat \<Rightarrow> char" where
  "digit_char d = ''0123456789'' ! (d mod 10)"

fun show_nat :: "nat \<Rightarrow> string" where
  "show_nat n = (if n < 10 then [digit_char n] else show_nat (n div 10) @ [digit_char (n mod 10)])"

declare show_nat.simps [simp del]

definition show_int :: "int \<Rightarrow> string" where
  "show_int i = (if i < 0 then CHR ''-'' # show_nat (nat (- i)) else show_nat (nat i))"

fun join_comma :: "string list \<Rightarrow> string" where
  "join_comma [] = []"
| "join_comma [s] = s"
| "join_comma (s # t # ss) = s @ CHR '','' # join_comma (t # ss)"

text \<open>
  \<open>to_string\<close> is the conversion a template literal and \<^verbatim>\<open>parseInt\<close> apply to their
  argument. An object is converted by its \<^verbatim>\<open>toString\<close> method and, when that is not a
  function, by \<^verbatim>\<open>valueOf\<close>. A parsed object inherits both from \<^verbatim>\<open>Object.prototype\<close>
  and prints as \<^verbatim>\<open>[object Object]\<close>, unless it has an own property \<^verbatim>\<open>toString\<close>: that
  is a parsed value and no function, and \<^verbatim>\<open>valueOf\<close>, own or inherited, gives no
  primitive value, so the conversion throws a \<^verbatim>\<open>TypeError\<close>. An array joins the
  conversions of its elements with commas, \<^verbatim>\<open>null\<close> and \<^verbatim>\<open>undefined\<close> elements as the
  empty string, and throws when the conversion of an element throws.
\<close>

fun to_string :: "jsval \<Rightarrow> exn + string"
  and elements_to_strings :: "jsval list \<Rightarrow> exn + string list" where
  "to_string JUndefined = Inr ''undefined''"
| "to_string JNull = Inr ''null''"
| "to_string (JBool b) = Inr (if b then ''true'' else ''false'')"
| "to_string (JNum n) = Inr (show_int (sint n))"
| "to_string (JStr s) = Inr s"
| "to_string (JArr xs) =
     (case elements_to_strings xs of Inl e \<Rightarrow> Inl e | Inr ss \<Rightarrow> Inr (join_comma ss))"
| "to_string (JObj kvs) =
     (if ''toString'' \<in> set (map fst kvs) then Inl TypeError else Inr ''[object Object]'')"
| "elements_to_strings [] = Inr []"
| "elements_to_strings (x # xs) =
     (case (if nullish x then Inr [] else to_string x) of
        Inl e \<Rightarrow> Inl e
      | Inr s \<Rightarrow> (case elements_to_strings xs of Inl e \<Rightarrow> Inl e | Inr ss \<Rightarrow> Inr (s # ss)))"

fun index_of :: "'a \<Rightarrow> 'a list \<Rightarrow> nat option" where
  "index_of c [] = None"
| "index_of c (x # xs) = (if c = x then Some 0 else map_option Suc (index_of c xs))"

text \<open>The value of a code unit as a digit, letters standing for ten and up.\<close>

definition digit_val :: "char \<Rightarrow> nat option" where
  "digit_val c =
     (case index_of c ''0123456789'' of
        Some d \<Rightarrow> Some d
      | None \<Rightarrow>
          (case index_of c ''abcdefghijklmnopqrstuvwxyz'' of
             Some d \<Rightarrow> Some (10 + d)
           | None \<Rightarrow> map_option (\<lambda>d. 10 + d) (index_of c ''ABCDEFGHIJKLMNOPQRSTUVWXYZ'')))"

definition is_digit :: "nat \<Rightarrow> char \<Rightarrow> bool" where
  "is_digit radix c = (case digit_val c of Some d \<Rightarrow> d < radix | None \<Rightarrow> False)"

definition is_space :: "char \<Rightarrow> bool" where
  "is_space c = (c \<in> set [CHR 0x09, CHR 0x0A, CHR 0x0B, CHR 0x0C, CHR 0x0D, CHR 0x20, CHR 0xA0])"

definition digits_value :: "nat \<Rightarrow> string \<Rightarrow> nat" where
  "digits_value radix ds = foldl (\<lambda>a c. a * radix + (case digit_val c of Some d \<Rightarrow> d | None \<Rightarrow> 0)) 0 ds"

text \<open>
  \<^verbatim>\<open>parseInt(s)\<close> with no radix, for a string \<open>s\<close>: leading white space is dropped, then a
  sign, then a \<^verbatim>\<open>0x\<close> prefix selects base sixteen; the longest prefix of digits is the
  value, and there being none gives \<^verbatim>\<open>NaN\<close>. The value is the mathematical one, which is
  the number JavaScript returns while it is below \<open>2 ^ 53\<close>.
\<close>

definition parseInt_string :: "string \<Rightarrow> jsnum" where
  "parseInt_string s =
     (let s1 = dropWhile is_space s;
          negative = (s1 \<noteq> [] \<and> hd s1 = CHR ''-'');
          s2 = (if s1 \<noteq> [] \<and> (hd s1 = CHR ''+'' \<or> hd s1 = CHR ''-'') then tl s1 else s1);
          hex = (take 2 s2 = ''0x'' \<or> take 2 s2 = ''0X'');
          radix = (if hex then 16 else 10);
          s3 = (if hex then drop 2 s2 else s2);
          ds = takeWhile (is_digit radix) s3
      in if ds = [] then NaN
         else Finite ((if negative then - 1 else 1) * int (digits_value radix ds)))"

text \<open>\<^verbatim>\<open>parseInt(v)\<close>: the argument is converted to a string first, which can throw.\<close>

definition parseInt :: "jsval \<Rightarrow> exn + jsnum" where
  "parseInt v = (case to_string v of Inl e \<Rightarrow> Inl e | Inr s \<Rightarrow> Inr (parseInt_string s))"

text \<open>\<^verbatim>\<open>Math.ceil(x / 10)\<close>\<close>

fun ceil_div_10 :: "jsnum \<Rightarrow> jsnum" where
  "ceil_div_10 NaN = NaN"
| "ceil_div_10 (Finite n) = Finite (- ((- n) div 10))"

subsection \<open>Objects\<close>

text \<open>
  The own enumerable properties a spread \<^verbatim>\<open>{...v}\<close> copies: those of an object, the
  indexed elements of an array, the indexed code units of a string, none of another
  primitive.
\<close>

fun own_props :: "jsval \<Rightarrow> (string \<times> jsval) list" where
  "own_props (JObj kvs) = kvs"
| "own_props (JArr xs) = zip (map show_nat [0..<length xs]) xs"
| "own_props (JStr s) = zip (map show_nat [0..<length s]) (map (\<lambda>c. JStr [c]) s)"
| "own_props _ = []"

definition enrichment_fields :: "string list" where
  "enrichment_fields =
     [''Plot'', ''Director'', ''Actors'', ''Genre'', ''Runtime'', ''imdbRating'', ''Awards'']"

text \<open>
  \<^verbatim>\<open>{...movie, Plot: detailData.Plot, Director: detailData.Director, Actors: detailData.Actors,
     Genre: detailData.Genre, Runtime: detailData.Runtime, imdbRating: detailData.imdbRating,
     Awards: detailData.Awards}\<close>
  for a \<open>detailData\<close> that is neither \<^verbatim>\<open>null\<close> nor \<^verbatim>\<open>undefined\<close>.
\<close>

definition with_details :: "jsval \<Rightarrow> jsval \<Rightarrow> jsval" where
  "with_details movie detailData =
     JObj (fold (\<lambda>k. AList.update k (get_prop detailData k)) enrichment_fields (own_props movie))"

section \<open>Requests, responses and the server's state\<close>

text \<open>
  \<^verbatim>\<open>req.query\<close> as Joi sees it. Express hands a parameter over as a string, or as an array
  or object when it is repeated or bracketed. \<open>page_param\<close> is the parameter after Joi's
  conversion of a string to a number: an integer, a number that is not an integer, or not a
  number (also a number outside the safe range, which Joi refuses). \<open>req_unknown\<close> lists the
  names of the parameters other than \<^verbatim>\<open>query\<close> and \<^verbatim>\<open>page\<close>.
\<close>

datatype query_param = QueryMissing | QueryString string | QueryNotString

datatype page_param = PageMissing | PageInteger int | PageFraction | PageNotNumber

record request =
  req_query :: query_param
  req_page :: page_param
  req_unknown :: "string list"
  req_ip :: string

text \<open>The error of \<^verbatim>\<open>searchSchema.validate\<close>; its message is what the 400 response carries.\<close>

datatype validation_error =
    QueryRequired
  | QueryNotAString
  | QueryEmpty
  | QueryTooShort
  | QueryTooLong
  | PageNotANumber
  | PageNotAnInteger
  | PageTooSmall
  | PageTooLarge
  | NotAllowed string

text \<open>
  What the handlers and the middleware send:
  \<^item> \<open>SearchPage movies totalResults currentPage totalPages\<close> is
    \<^verbatim>\<open>{success: true, data: {movies, totalResults, currentPage, totalPages}}\<close>;
  \<^item> \<open>PopularMovies movies\<close> is \<^verbatim>\<open>{success: true, data: {movies}}\<close>;
  \<^item> \<open>MovieData data\<close> is \<^verbatim>\<open>{success: true, data}\<close>;
  \<^item> \<open>MovieFound data\<close> is \<^verbatim>\<open>{success: true, movie: data}\<close>;
  \<^item> \<open>Failure error\<close> is \<^verbatim>\<open>{success: false, error}\<close>;
  \<^item> \<open>Invalid e\<close> is \<^verbatim>\<open>{success: false, error: error.details[0].message}\<close>;
  \<^item> \<open>Sent text\<close> is a body that a library's middleware wrote.
\<close>

datatype body =
    SearchPage "jsval list" jsnum int jsnum
  | PopularMovies "jsval list"
  | MovieData jsval
  | MovieFound jsval
  | Failure jsval
  | Invalid validation_error
  | Sent string

fun success :: "body \<Rightarrow> bool" where
  "success (SearchPage ms tr cp tp) = True"
| "success (PopularMovies ms) = True"
| "success (MovieData d) = True"
| "success (MovieFound d) = True"
| "success (Failure e) = False"
| "success (Invalid e) = False"
| "success (Sent text) = False"

record history_doc =
  hist_query :: string
  hist_results :: jsnum
  hist_userIP :: string

datatype log_entry =
    OmdbApiError string       \<comment> \<open>\<^verbatim>\<open>console.error('OMDB API Error:', error.message)\<close>\<close>
  | SearchError exn           \<comment> \<open>\<^verbatim>\<open>console.error('Search error:', error)\<close>\<close>
  | DatabaseError string      \<comment> \<open>\<^verbatim>\<open>console.error('Database error:', dbError)\<close>\<close>
  | TrendingError string exn  \<comment> \<open>\<^verbatim>\<open>console.error(`Error fetching trending movies for ${search}:`, error)\<close>\<close>
  | MovieDetailError exn      \<comment> \<open>\<^verbatim>\<open>console.error('Movie detail error:', error)\<close>\<close>
  | ErrorStack string         \<comment> \<open>\<^verbatim>\<open>console.error(err.stack)\<close>\<close>

text \<open>
  The middleware that the server takes from libraries, in the order of the \<^verbatim>\<open>app.use\<close>
  calls, and what a middleware does with a request: it passes the request on
  (\<^verbatim>\<open>next()\<close>), it ends the response itself, or it passes an error on (\<^verbatim>\<open>next(err)\<close>).
\<close>

datatype library = Helmet | Cors | ExpressJson

datatype passage = Next | Ends nat body | Throws string

text \<open>
  What the server does not decide. \<open>axios_get env k url\<close> is the outcome of the \<open>k\<close>-th
  request the server issues, made to \<open>url\<close>: the parsed body, or the message of the error
  axios throws (no connection, the ten-second timeout, a status outside 2xx), and the time
  it takes in milliseconds. \<open>history_create env k doc\<close> is \<^verbatim>\<open>SearchHistory.create(doc)\<close> with
  \<open>k\<close> documents stored: \<open>None\<close> when it stores the document, the error when it rejects.
  \<open>middleware env lib k\<close> is what the middleware of \<open>lib\<close> does with the \<open>k\<close>-th request the
  server receives. \<open>over_limit env k\<close> says whether, with the \<open>k\<close>-th request, the rate
  limiter has counted more than \<^verbatim>\<open>max: 100\<close> requests from the caller's address in the
  window of \<^verbatim>\<open>windowMs: 15 * 60 * 1000\<close> milliseconds; the count is the library's.
  \<open>decodeURIComponent env s\<close> is the decoded text, \<open>None\<close> when the function throws a
  \<^verbatim>\<open>URIError\<close>.
\<close>

record env =
  OMDB_API_KEY :: string
  axios_get :: "nat \<Rightarrow> string \<Rightarrow> (string + jsval) \<times> nat"
  encodeURIComponent :: "string \<Rightarrow> string"
  decodeURIComponent :: "string \<Rightarrow> string option"
  history_create :: "nat \<Rightarrow> history_doc \<Rightarrow> string option"
  middleware :: "library \<Rightarrow> nat \<Rightarrow> passage"
  over_limit :: "nat \<Rightarrow> bool"

text \<open>
  The state of the process: the entries of the cache, each with the time it expires (in
  milliseconds); the URLs requested from the provider so far, oldest first; the stored
  search history; what was written to the console; \<^verbatim>\<open>isMongoConnected\<close>; and the number
  of requests the server has received. The state a handler leaves is the state once
  everything the handler started has settled.
\<close>

record state =
  cache :: "string \<Rightarrow> (body \<times> nat) option"
  requests :: "string list"
  searchHistory :: "history_doc list"
  console :: "log_entry list"
  isMongoConnected :: bool
  received :: nat

subsection \<open>The cache\<close>

text \<open>
  \<^verbatim>\<open>new NodeCache({ stdTTL: 3600 })\<close>: \<^verbatim>\<open>set\<close> stores the value to expire \<open>stdTTL\<close> seconds
  after the time of the call, and \<^verbatim>\<open>get\<close> returns the value of an entry whose expiry time is
  not before the time of the call, \<^verbatim>\<open>undefined\<close> otherwise. An expired entry is a miss at
  every later time, so the model leaves it in place where the library deletes it.
\<close>

definition stdTTL :: nat where
  "stdTTL = 3600"

definition cache_get :: "nat \<Rightarrow> string \<Rightarrow> state \<Rightarrow> body option" where
  "cache_get now k st =
     (case cache st k of
        None \<Rightarrow> None
      | Some (v, expires) \<Rightarrow> if expires < now then None else Some v)"

definition cache_set :: "nat \<Rightarrow> string \<Rightarrow> body \<Rightarrow> state \<Rightarrow> state" where
  "cache_set now k v st = st\<lparr>cache := (cache st)(k \<mapsto> (v, now + stdTTL * 1000))\<rparr>"

subsection \<open>Validation\<close>

text \<open>
  \<^verbatim>\<open>query: Joi.string().min(1).max(100).required()\<close>
\<close>

definition validate_query :: "query_param \<Rightarrow> validation_error + string" where
  "validate_query q =
     (case q of
        QueryMissing \<Rightarrow> Inl QueryRequired
      | QueryNotString \<Rightarrow> Inl QueryNotAString
      | QueryString s \<Rightarrow>
          if s = [] then Inl QueryEmpty
          else if length s < 1 then Inl QueryTooShort
          else if length s > 100 then Inl QueryTooLong
          else Inr s)"

text \<open>
  \<^verbatim>\<open>page: Joi.number().integer().min(1).max(100).default(1)\<close>
\<close>

definition validate_page :: "page_param \<Rightarrow> validation_error + int" where
  "validate_page p =
     (case p of
        PageMissing \<Rightarrow> Inr 1
      | PageNotNumber \<Rightarrow> Inl PageNotANumber
      | PageFraction \<Rightarrow> Inl PageNotAnInteger
      | PageInteger n \<Rightarrow>
          if n < 1 then Inl PageTooSmall
          else if n > 100 then Inl PageTooLarge
          else Inr n)"

text \<open>
  \<^verbatim>\<open>searchSchema.validate(req.query)\<close>: the keys of the schema in their order, the first
  error ending the validation, then the keys the schema does not know, which it refuses.
\<close>

definition searchSchema_validate :: "request \<Rightarrow> validation_error + (string \<times> int)" where
  "searchSchema_validate req =
     (case validate_query (req_query req) of
        Inl e \<Rightarrow> Inl e
      | Inr query \<Rightarrow>
          (case validate_page (req_page req) of
             Inl e \<Rightarrow> Inl e
           | Inr page \<Rightarrow>
               (case req_unknown req of
                  [] \<Rightarrow> Inr (query, page)
                | k # ks \<Rightarrow> Inl (NotAllowed k))))"

section \<open>Promises\<close>

text \<open>
  A promise as far as the handlers depend on it: what it settles with (\<open>Inl\<close> when it
  rejects), the time it takes to settle (\<open>None\<close> for the promise of an \<^verbatim>\<open>async\<close>
  function that threw before its first \<^verbatim>\<open>await\<close>, which is rejected when it is
  created), and what is written to the console when it settles.
\<close>

record 'a promise =
  p_outcome :: "exn + 'a"
  p_took :: "nat option"
  p_logged :: "log_entry list"

text \<open>
  \<^verbatim>\<open>await p\<close> in a handler that does nothing else meanwhile: the promise settles, and the
  handler goes on with the value or the error.
\<close>

definition await :: "'a promise \<times> state \<Rightarrow> (exn + 'a) \<times> state" where
  "await c = (case c of (p, st) \<Rightarrow> (p_outcome p, st\<lparr>console := console st @ p_logged p\<rparr>))"

text \<open>
  The promises of a list settle in the order of the times they take, those rejected at
  their creation first, equal times in the order of the list.
\<close>

definition settle_key :: "'a promise \<Rightarrow> nat" where
  "settle_key p = (case p_took p of None \<Rightarrow> 0 | Some t \<Rightarrow> Suc t)"

definition settle_order :: "nat list \<Rightarrow> nat list" where
  "settle_order took = sort_key (\<lambda>i. took ! i) [0..<length took]"

text \<open>
  \<^verbatim>\<open>Promise.all\<close>. The result array starts with one \<^verbatim>\<open>undefined\<close> per promise; a
  promise that fulfils writes its value at its own index, a promise that rejects rejects
  the whole, and the array is the result once every promise has fulfilled.
\<close>

fun resolve_elements :: "(exn + jsval) list \<Rightarrow> nat list \<Rightarrow> jsval list \<Rightarrow> exn + jsval list" where
  "resolve_elements ps [] vals = Inr vals"
| "resolve_elements ps (i # order) vals =
     (case ps ! i of
        Inl e \<Rightarrow> Inl e
      | Inr v \<Rightarrow> resolve_elements ps order (vals[i := v]))"

definition promise_all :: "jsval promise list \<Rightarrow> exn + jsval list" where
  "promise_all ps =
     resolve_elements (map p_outcome ps) (settle_order (map settle_key ps))
       (replicate (length ps) JUndefined)"

text \<open>
  What the promises of a list write to the console up to the moment \<^verbatim>\<open>Promise.all\<close>
  settles, that is until all have fulfilled or the first has rejected, and what those that
  settle later write afterwards.
\<close>

definition settled_first :: "'a promise list \<Rightarrow> nat" where
  "settled_first ps =
     Suc (length (takeWhile (\<lambda>i. case p_outcome (ps ! i) of Inl e \<Rightarrow> False | Inr v \<Rightarrow> True)
                    (settle_order (map settle_key ps))))"

definition written_before :: "'a promise list \<Rightarrow> log_entry list" where
  "written_before ps =
     concat (map (\<lambda>i. p_logged (ps ! i)) (take (settled_first ps) (settle_order (map settle_key ps))))"

definition written_after :: "'a promise list \<Rightarrow> log_entry list" where
  "written_after ps =
     concat (map (\<lambda>i. p_logged (ps ! i)) (drop (settled_first ps) (settle_order (map settle_key ps))))"

section \<open>The provider client\<close>

text \<open>
  \<^verbatim>\<open>makeOMDBRequest(url)\<close>: the call issues one request, recorded in \<open>requests\<close>, and
  returns a promise. When axios throws, the cause is written to the console and the
  promise rejects with a new error that has a fixed message.
\<close>

definition makeOMDBRequest :: "env \<Rightarrow> string \<Rightarrow> state \<Rightarrow> jsval promise \<times> state" where
  "makeOMDBRequest env url st =
     (case axios_get env (length (requests st)) url of
        (Inl cause, took) \<Rightarrow>
          (\<lparr>p_outcome = Inl FetchFailed, p_took = Some took, p_logged = [OmdbApiError cause]\<rparr>,
           st\<lparr>requests := requests st @ [url]\<rparr>)
      | (Inr response_data, took) \<Rightarrow>
          (\<lparr>p_outcome = Inr response_data, p_took = Some took, p_logged = []\<rparr>,
           st\<lparr>requests := requests st @ [url]\<rparr>))"

definition omdb_base :: "env \<Rightarrow> string" where
  "omdb_base env = ''https://www.omdbapi.com/?apikey='' @ OMDB_API_KEY env"

text \<open>\<^verbatim>\<open>`https://www.omdbapi.com/?apikey=${process.env.OMDB_API_KEY}&s=${encodeURIComponent(query)}&page=${page}`\<close>\<close>

definition search_url :: "env \<Rightarrow> string \<Rightarrow> string \<Rightarrow> string" where
  "search_url env query page = omdb_base env @ ''&s='' @ encodeURIComponent env query @ ''&page='' @ page"

text \<open>\<^verbatim>\<open>`https://www.omdbapi.com/?apikey=${process.env.OMDB_API_KEY}&i=${id}`\<close>\<close>

definition detail_url :: "env \<Rightarrow> string \<Rightarrow> string" where
  "detail_url env i = omdb_base env @ ''&i='' @ i"

section \<open>GET /api/search\<close>

text \<open>
  The callback of \<^verbatim>\<open>data.Search.map\<close>: the call and the promise it returns. The
  template literal with \<^verbatim>\<open>movie.imdbID\<close> stands before the \<^verbatim>\<open>try\<close>, so the promise is
  rejected at once when \<open>movie\<close> is \<^verbatim>\<open>null\<close> or the conversion of the id throws, and no
  request is issued; everything the \<^verbatim>\<open>try\<close> block throws (the request failing, reading a
  field of a \<^verbatim>\<open>null\<close> body) ends in \<^verbatim>\<open>return movie\<close>.
\<close>

definition enrich :: "env \<Rightarrow> jsval \<Rightarrow> state \<Rightarrow> jsval promise \<times> state" where
  "enrich env movie st =
     (if nullish movie then (\<lparr>p_outcome = Inl TypeError, p_took = None, p_logged = []\<rparr>, st)
      else
        case to_string (get_prop movie ''imdbID'') of
          Inl e \<Rightarrow> (\<lparr>p_outcome = Inl e, p_took = None, p_logged = []\<rparr>, st)
        | Inr i \<Rightarrow>
            (case makeOMDBRequest env (detail_url env i) st of
               (p, st1) \<Rightarrow>
                 (case p_outcome p of
                    Inl e \<Rightarrow> (p\<lparr>p_outcome := Inr movie\<rparr>, st1)
                  | Inr detailData \<Rightarrow>
                      if nullish detailData then (p\<lparr>p_outcome := Inr movie\<rparr>, st1)
                      else (p\<lparr>p_outcome := Inr (with_details movie detailData)\<rparr>, st1))))"

text \<open>
  \<^verbatim>\<open>data.Search.map(async (movie) => ...)\<close>: the callbacks start in the order of the
  array, each issuing its request before the next starts, also after one that threw.
\<close>

fun fan_out :: "env \<Rightarrow> jsval list \<Rightarrow> state \<Rightarrow> jsval promise list \<times> state" where
  "fan_out env [] st = ([], st)"
| "fan_out env (movie # movies) st =
     (case enrich env movie st of
        (p, st1) \<Rightarrow> (case fan_out env movies st1 of (ps, st2) \<Rightarrow> (p # ps, st2)))"

text \<open>
  \<^verbatim>\<open>try { if (isMongoConnected) { await SearchHistory.create({query, results, userIP}) } }
     catch (dbError) { console.error('Database error:', dbError) }\<close>
\<close>

definition save_history :: "env \<Rightarrow> string \<Rightarrow> jsnum \<Rightarrow> string \<Rightarrow> state \<Rightarrow> state" where
  "save_history env query results ip st =
     (if isMongoConnected st then
        (let doc = \<lparr>hist_query = query, hist_results = results, hist_userIP = ip\<rparr> in
         case history_create env (length (searchHistory st)) doc of
           None \<Rightarrow> st\<lparr>searchHistory := searchHistory st @ [doc]\<rparr>
         | Some dbError \<Rightarrow> st\<lparr>console := console st @ [DatabaseError dbError]\<rparr>)
      else st)"

text \<open>
  The handler from the provider request to the assembled \<open>response\<close>, that is the part of
  the \<^verbatim>\<open>try\<close> block after the cache lookup and before \<^verbatim>\<open>cache.set\<close>. \<open>Inl\<close> is what
  it throws, with what the detail requests still in flight write to the console later:
  the request failing, \<^verbatim>\<open>data\<close> being \<^verbatim>\<open>null\<close>, \<^verbatim>\<open>data.Search\<close> having no
  \<^verbatim>\<open>map\<close> method, \<^verbatim>\<open>Promise.all\<close> rejecting, or \<^verbatim>\<open>parseInt(data.totalResults)\<close>
  throwing in the conversion of its argument. The three calls of \<^verbatim>\<open>parseInt\<close> have the
  same argument and the same result.
\<close>

definition search_fresh ::
  "env \<Rightarrow> string \<Rightarrow> int \<Rightarrow> string \<Rightarrow> state \<Rightarrow> ((exn \<times> log_entry list) + body) \<times> state" where
  "search_fresh env query page ip st =
     (case await (makeOMDBRequest env (search_url env query (show_int page)) st) of
        (Inl e, st1) \<Rightarrow> (Inl (e, []), st1)
      | (Inr data, st1) \<Rightarrow>
          if nullish data then (Inl (TypeError, []), st1)
          else if get_prop data ''Response'' = JStr ''True'' then
            (case get_prop data ''Search'' of
               JArr hits \<Rightarrow>
                 (case fan_out env hits st1 of
                    (ps, st2) \<Rightarrow>
                      (case promise_all ps of
                         Inl e \<Rightarrow>
                           (Inl (e, written_after ps),
                            st2\<lparr>console := console st2 @ written_before ps\<rparr>)
                       | Inr moviesWithDetails \<Rightarrow>
                           (case parseInt (get_prop data ''totalResults'') of
                              Inl e \<Rightarrow> (Inl (e, []), st2\<lparr>console := console st2 @ written_before ps\<rparr>)
                            | Inr totalResults \<Rightarrow>
                                (Inr (SearchPage moviesWithDetails totalResults page
                                        (ceil_div_10 totalResults)),
                                 save_history env query totalResults ip
                                   (st2\<lparr>console := console st2 @ written_before ps\<rparr>)))))
             | _ \<Rightarrow> (Inl (TypeError, []), st1))
          else (Inr (Failure (js_or (get_prop data ''Error'') (JStr ''No movies found''))), st1))"

text \<open>
  The handler of \<^verbatim>\<open>app.get('/api/search', ...)\<close>. \<open>t_get\<close> and \<open>t_set\<close> are the times at
  which it calls \<^verbatim>\<open>cache.get\<close> and \<^verbatim>\<open>cache.set\<close>. The result is the status and body it
  sends, and the state it leaves. Every value the handlers store in the cache is an object,
  so \<^verbatim>\<open>if (cachedResult)\<close> holds exactly on a hit. Whatever the \<^verbatim>\<open>try\<close> block throws
  after the lookup ends in the handler's \<^verbatim>\<open>catch\<close>: the error is written to the console
  and the answer is status 500 with a fixed message, without \<^verbatim>\<open>cache.set\<close>.
\<close>

definition search_key :: "string \<Rightarrow> int \<Rightarrow> string" where
  "search_key query page = ''search:'' @ query @ '':'' @ show_int page"

definition search_handler :: "env \<Rightarrow> request \<Rightarrow> nat \<Rightarrow> nat \<Rightarrow> state \<Rightarrow> (nat \<times> body) \<times> state" where
  "search_handler env req t_get t_set st =
     (case searchSchema_validate req of
        Inl e \<Rightarrow> ((400, Invalid e), st)
      | Inr (query, page) \<Rightarrow>
          (case cache_get t_get (search_key query page) st of
             Some cachedResult \<Rightarrow> ((200, cachedResult), st)
           | None \<Rightarrow>
               (case search_fresh env query page (req_ip req) st of
                  (Inl (e, later), st1) \<Rightarrow>
                    ((500, Failure (JStr ''Internal server error'')),
                     st1\<lparr>console := console st1 @ [SearchError e] @ later\<rparr>)
                | (Inr response, st1) \<Rightarrow>
                    ((200, response), cache_set t_set (search_key query page) response st1))))"

section \<open>GET /api/popular\<close>

definition trendingSearches :: "string list" where
  "trendingSearches =
     [''Marvel'', ''Batman'', ''Spider-Man'', ''Star Wars'', ''Fast'', ''Mission Impossible'',
      ''John Wick'', ''Transformers'']"

text \<open>
  \<^verbatim>\<open>data.Search.slice(0, 3)\<close> as the \<^verbatim>\<open>for ... of\<close> loop walks it, for a truthy
  \<^verbatim>\<open>data.Search\<close>: the first three elements of an array, the first three code units of a
  string; any other value has no \<^verbatim>\<open>slice\<close> method.
\<close>

definition first_three :: "jsval \<Rightarrow> exn + jsval list" where
  "first_three v =
     (case v of
        JArr xs \<Rightarrow> Inr (take 3 xs)
      | JStr s \<Rightarrow> Inr (map (\<lambda>c. JStr [c]) (take 3 s))
      | _ \<Rightarrow> Inl TypeError)"

text \<open>
  The loop \<^verbatim>\<open>for (const movie of movies)\<close>, one request after the other. The template
  literal with \<^verbatim>\<open>movie.imdbID\<close> stands before the inner \<^verbatim>\<open>try\<close>: on a \<^verbatim>\<open>null\<close>
  element, or when the conversion of the id throws, it throws to the \<^verbatim>\<open>catch\<close> of the
  seed, and the movies pushed so far stay.
\<close>

fun push_details :: "env \<Rightarrow> jsval list \<Rightarrow> jsval list \<times> state \<Rightarrow> exn option \<times> jsval list \<times> state" where
  "push_details env [] (popularMovies, st) = (None, popularMovies, st)"
| "push_details env (movie # movies) (popularMovies, st) =
     (if nullish movie then (Some TypeError, popularMovies, st)
      else
        case to_string (get_prop movie ''imdbID'') of
          Inl e \<Rightarrow> (Some e, popularMovies, st)
        | Inr i \<Rightarrow>
            (case await (makeOMDBRequest env (detail_url env i) st) of
               (Inl e, st1) \<Rightarrow> push_details env movies (popularMovies @ [movie], st1)
             | (Inr detailData, st1) \<Rightarrow>
                 if nullish detailData then push_details env movies (popularMovies @ [movie], st1)
                 else push_details env movies (popularMovies @ [with_details movie detailData], st1)))"

text \<open>The body of \<^verbatim>\<open>for (const search of trendingSearches)\<close>.\<close>

definition fetch_trending :: "env \<Rightarrow> string \<Rightarrow> jsval list \<times> state \<Rightarrow> jsval list \<times> state" where
  "fetch_trending env search acc =
     (case acc of
        (popularMovies, st) \<Rightarrow>
          (case await (makeOMDBRequest env (search_url env search ''1'') st) of
             (Inl e, st1) \<Rightarrow>
               (popularMovies, st1\<lparr>console := console st1 @ [TrendingError search e]\<rparr>)
           | (Inr data, st1) \<Rightarrow>
               if nullish data then
                 (popularMovies, st1\<lparr>console := console st1 @ [TrendingError search TypeError]\<rparr>)
               else if get_prop data ''Response'' = JStr ''True'' \<and> truthy (get_prop data ''Search'') then
                 (case first_three (get_prop data ''Search'') of
                    Inl e \<Rightarrow>
                      (popularMovies, st1\<lparr>console := console st1 @ [TrendingError search e]\<rparr>)
                  | Inr movies \<Rightarrow>
                      (case push_details env movies (popularMovies, st1) of
                         (None, pushed, st2) \<Rightarrow> (pushed, st2)
                       | (Some e, pushed, st2) \<Rightarrow>
                           (pushed, st2\<lparr>console := console st2 @ [TrendingError search e]\<rparr>)))
               else (popularMovies, st1)))"

text \<open>
  \<^verbatim>\<open>a === b\<close> on values of parsed JSON: primitives are compared by value, an array or an
  object is equal to itself only. \<open>same_object\<close> says whether \<open>a\<close> and \<open>b\<close> are one and the
  same value in memory.
\<close>

fun is_object :: "jsval \<Rightarrow> bool" where
  "is_object (JArr xs) = True"
| "is_object (JObj kvs) = True"
| "is_object _ = False"

definition strict_equals :: "bool \<Rightarrow> jsval \<Rightarrow> jsval \<Rightarrow> bool" where
  "strict_equals same_object a b = (if is_object a \<or> is_object b then same_object else a = b)"

text \<open>\<^verbatim>\<open>self.findIndex(callback)\<close>, the callback reading the element and its index.\<close>

fun findIndex :: "(nat \<Rightarrow> 'a \<Rightarrow> bool) \<Rightarrow> nat \<Rightarrow> 'a list \<Rightarrow> int" where
  "findIndex P i [] = - 1"
| "findIndex P i (x # xs) = (if P i x then int i else findIndex P (Suc i) xs)"

text \<open>
  \<^verbatim>\<open>popularMovies.filter((movie, index, self) =>
       index === self.findIndex(m => m.imdbID === movie.imdbID)).slice(0, 25)\<close>.
  Every entry of the list was parsed from a response of its own or built from such an
  entry, so the \<^verbatim>\<open>imdbID\<close> values of two entries are one object only when the entries are
  the same entry.
\<close>

definition uniqueMovies :: "jsval list \<Rightarrow> jsval list" where
  "uniqueMovies popularMovies =
     take 25
       (map snd
          (filter
             (\<lambda>(index, movie).
                int index =
                  findIndex
                    (\<lambda>j m. strict_equals (j = index) (get_prop m ''imdbID'') (get_prop movie ''imdbID''))
                    0 popularMovies)
             (enumerate 0 popularMovies)))"

text \<open>
  The handler of \<^verbatim>\<open>app.get('/api/popular', ...)\<close>. Every request to the provider stands
  inside the \<^verbatim>\<open>try\<close> block of its seed, and every entry of \<open>popularMovies\<close> is a value
  whose \<^verbatim>\<open>imdbID\<close> was read before it was pushed, so nothing outside those blocks throws
  and the handler's own \<^verbatim>\<open>catch\<close> (status 500) is never entered.
\<close>

definition popular_handler :: "env \<Rightarrow> nat \<Rightarrow> nat \<Rightarrow> state \<Rightarrow> (nat \<times> body) \<times> state" where
  "popular_handler env t_get t_set st =
     (case cache_get t_get ''popular:movies'' st of
        Some cachedResult \<Rightarrow> ((200, cachedResult), st)
      | None \<Rightarrow>
          (case fold (fetch_trending env) trendingSearches ([], st) of
             (popularMovies, st1) \<Rightarrow>
               ((200, PopularMovies (uniqueMovies popularMovies)),
                cache_set t_set ''popular:movies'' (PopularMovies (uniqueMovies popularMovies)) st1)))"

section \<open>GET /api/movie/:id\<close>

definition movie_key :: "string \<Rightarrow> string" where
  "movie_key i = ''movie:'' @ i"

text \<open>The handler of \<^verbatim>\<open>app.get('/api/movie/:id', ...)\<close>, registered first.\<close>

definition movie_handler :: "env \<Rightarrow> string \<Rightarrow> nat \<Rightarrow> nat \<Rightarrow> state \<Rightarrow> (nat \<times> body) \<times> state" where
  "movie_handler env i t_get t_set st =
     (case cache_get t_get (movie_key i) st of
        Some cachedResult \<Rightarrow> ((200, cachedResult), st)
      | None \<Rightarrow>
          (case await (makeOMDBRequest env (detail_url env i) st) of
             (Inl e, st1) \<Rightarrow>
               ((500, Failure (JStr ''Failed to fetch movie details'')),
                st1\<lparr>console := console st1 @ [MovieDetailError e]\<rparr>)
           | (Inr data, st1) \<Rightarrow>
               if nullish data then
                 ((500, Failure (JStr ''Failed to fetch movie details'')),
                  st1\<lparr>console := console st1 @ [MovieDetailError TypeError]\<rparr>)
               else if get_prop data ''Response'' = JStr ''True'' then
                 ((200, MovieData data), cache_set t_set (movie_key i) (MovieData data) st1)
               else
                 ((200, Failure (js_or (get_prop data ''Error'') (JStr ''Movie not found''))),
                  cache_set t_set (movie_key i)
                    (Failure (js_or (get_prop data ''Error'') (JStr ''Movie not found''))) st1)))"

text \<open>The handler of \<^verbatim>\<open>app.get('/api/movie/:imdbID', ...)\<close>, registered second.\<close>

definition movie_imdbID_handler :: "env \<Rightarrow> string \<Rightarrow> state \<Rightarrow> (nat \<times> body) \<times> state" where
  "movie_imdbID_handler env imdbID st =
     (if imdbID = [] then ((400, Failure (JStr ''imdbID is required.'')), st)
      else
        case await (makeOMDBRequest env (detail_url env (encodeURIComponent env imdbID)) st) of
          (Inl e, st1) \<Rightarrow> ((500, Failure (JStr ''Failed to fetch movie.'')), st1)
        | (Inr data, st1) \<Rightarrow>
            if nullish data then ((500, Failure (JStr ''Failed to fetch movie.'')), st1)
            else if get_prop data ''Response'' = JStr ''True'' then ((200, MovieFound data), st1)
            else ((404, Failure (js_or (get_prop data ''Error'') (JStr ''Movie not found.''))), st1))"

section \<open>The application\<close>

subsection \<open>Paths\<close>

text \<open>
  Express matches the path of the request, as it stands in the URL before the query
  string, against the pattern of a route: without regard to the case of letters, and with
  or without one slash at the end. \<^verbatim>\<open>:name\<close> matches one segment that is not empty. A
  pattern is modelled as the list of its segments.
\<close>

definition to_lower :: "char \<Rightarrow> char" where
  "to_lower c =
     (case index_of c ''ABCDEFGHIJKLMNOPQRSTUVWXYZ'' of
        Some d \<Rightarrow> ''abcdefghijklmnopqrstuvwxyz'' ! d
      | None \<Rightarrow> c)"

fun split_slash :: "string \<Rightarrow> string list" where
  "split_slash [] = [[]]"
| "split_slash (c # cs) =
     (if c = CHR ''/'' then [] # split_slash cs
      else (case split_slash cs of s # ss \<Rightarrow> (c # s) # ss | [] \<Rightarrow> [[c]]))"

text \<open>The segments of a path, one slash at the end dropped; \<open>None\<close> for no path.\<close>

definition path_segments :: "string \<Rightarrow> string list option" where
  "path_segments path =
     (case path of
        [] \<Rightarrow> None
      | c # cs \<Rightarrow>
          if c \<noteq> CHR ''/'' then None
          else let segs = split_slash cs
               in if 1 < length segs \<and> last segs = [] then Some (butlast segs) else Some segs)"

datatype segment = Lit string | Param string

fun match_segments :: "segment list \<Rightarrow> string list \<Rightarrow> (string \<times> string) list option" where
  "match_segments [] [] = Some []"
| "match_segments (Lit s # segs) (p # ps) =
     (if map to_lower s = map to_lower p then match_segments segs ps else None)"
| "match_segments (Param n # segs) (p # ps) =
     (if p = [] then None else map_option (\<lambda>params. (n, p) # params) (match_segments segs ps))"
| "match_segments _ _ = None"

definition match_path :: "segment list \<Rightarrow> string \<Rightarrow> (string \<times> string) list option" where
  "match_path pattern path =
     (case path_segments path of None \<Rightarrow> None | Some segs \<Rightarrow> match_segments pattern segs)"

text \<open>
  \<^verbatim>\<open>app.use(path, middleware)\<close> applies the middleware to the paths that begin with the
  segments of \<open>path\<close>, and \<^verbatim>\<open>app.use(middleware)\<close> to every path.
\<close>

definition mounted_on :: "string list \<Rightarrow> string \<Rightarrow> bool" where
  "mounted_on prefix path =
     (prefix = [] \<or>
      (case path of
         [] \<Rightarrow> False
       | c # cs \<Rightarrow>
           c = CHR ''/'' \<and>
           map (map to_lower) prefix = map (map to_lower) (take (length prefix) (split_slash cs))))"

subsection \<open>Middleware and routes\<close>

text \<open>
  \<^verbatim>\<open>const limiter = rateLimit({windowMs: 15 * 60 * 1000, max: 100, message: '...'})\<close>:
  over the limit the middleware ends the response with status 429 and the message.
\<close>

definition limiter :: "env \<Rightarrow> nat \<Rightarrow> passage" where
  "limiter env k =
     (if over_limit env k
      then Ends 429 (Sent ''Too many requests from this IP, please try again later.'')
      else Next)"

text \<open>
  \<^verbatim>\<open>app.use(helmet()); app.use(cors()); app.use(express.json()); app.use('/api/', limiter);\<close>
\<close>

datatype used = Library library | Limiter

definition uses :: "(string list \<times> used) list" where
  "uses = [([], Library Helmet), ([], Library Cors), ([], Library ExpressJson), ([''api''], Limiter)]"

text \<open>
  The request passes through the middleware in the order of registration, as long as each
  passes it on.
\<close>

fun run_middleware :: "env \<Rightarrow> nat \<Rightarrow> string \<Rightarrow> (string list \<times> used) list \<Rightarrow> passage" where
  "run_middleware env k path [] = Next"
| "run_middleware env k path ((prefix, u) # rest) =
     (if mounted_on prefix path then
        (case (case u of Library lib \<Rightarrow> middleware env lib k | Limiter \<Rightarrow> limiter env k) of
           Next \<Rightarrow> run_middleware env k path rest
         | Ends status b \<Rightarrow> Ends status b
         | Throws err \<Rightarrow> Throws err)
      else run_middleware env k path rest)"

datatype http_method = GET | POST | DELETE

datatype route =
    Register | Login | GetFavorites | AddFavorite | RemoveFavorite | Profile | BatchMovies
  | Search | Popular | MovieById | MovieByImdbID | SearchHistory | Health

text \<open>The routes in the order of their registration.\<close>

definition routes :: "(http_method \<times> segment list \<times> route) list" where
  "routes =
     [(POST, [Lit ''api'', Lit ''register''], Register),
      (POST, [Lit ''api'', Lit ''login''], Login),
      (GET, [Lit ''api'', Lit ''favorites''], GetFavorites),
      (POST, [Lit ''api'', Lit ''favorites''], AddFavorite),
      (DELETE, [Lit ''api'', Lit ''favorites''], RemoveFavorite),
      (GET, [Lit ''api'', Lit ''profile''], Profile),
      (POST, [Lit ''api'', Lit ''movies''], BatchMovies),
      (GET, [Lit ''api'', Lit ''search''], Search),
      (GET, [Lit ''api'', Lit ''popular''], Popular),
      (GET, [Lit ''api'', Lit ''movie'', Param ''id''], MovieById),
      (GET, [Lit ''api'', Lit ''movie'', Param ''imdbID''], MovieByImdbID),
      (GET, [Lit ''api'', Lit ''search-history''], SearchHistory),
      (GET, [Lit ''api'', Lit ''health''], Health)]"

text \<open>
  Express tries the routes in the order of their registration and runs the handler of the
  first whose method and path match; no handler of this server passes the request on.
\<close>

fun dispatch ::
  "(http_method \<times> segment list \<times> route) list \<Rightarrow> http_method \<Rightarrow> string \<Rightarrow>
   (route \<times> (string \<times> string) list) option" where
  "dispatch [] m path = None"
| "dispatch ((m', pattern, r) # rs) m path =
     (if m' = m then
        (case match_path pattern path of
           Some params \<Rightarrow> Some (r, params)
         | None \<Rightarrow> dispatch rs m path)
      else dispatch rs m path)"

text \<open>
  \<^verbatim>\<open>req.params\<close>: Express decodes the matched segments with \<^verbatim>\<open>decodeURIComponent\<close>,
  and a segment that cannot be decoded is an error passed on instead of a call of the
  route's handler.
\<close>

fun decode_params :: "env \<Rightarrow> (string \<times> string) list \<Rightarrow> string + (string \<times> string) list" where
  "decode_params env [] = Inr []"
| "decode_params env ((n, v) # params) =
     (case decodeURIComponent env v of
        None \<Rightarrow> Inl (''Failed to decode param '' @ [CHR 0x27] @ v @ [CHR 0x27])
      | Some d \<Rightarrow>
          (case decode_params env params of Inl err \<Rightarrow> Inl err | Inr ps \<Rightarrow> Inr ((n, d) # ps)))"

definition req_param :: "(string \<times> string) list \<Rightarrow> string \<Rightarrow> string" where
  "req_param params n = (case map_of params n of Some v \<Rightarrow> v | None \<Rightarrow> [])"

text \<open>
  \<^verbatim>\<open>app.use((err, req, res, next) => { console.error(err.stack); res.status(500).json(...) })\<close>,
  the stack written as the message of the error.
\<close>

definition error_handler :: "string \<Rightarrow> state \<Rightarrow> (nat \<times> body) \<times> state" where
  "error_handler err st =
     ((500, Failure (JStr ''Something went wrong!'')), st\<lparr>console := console st @ [ErrorStack err]\<rparr>)"

text \<open>
  A GET request from its arrival to the answer, as far as the two movie routes are
  concerned: the middleware, then the routes, then the handler for all that no route
  matches, \<^verbatim>\<open>app.use('*', ...)\<close>. The result is \<open>None\<close> when the request goes to the
  handler of another route.
\<close>

definition get_movie :: "env \<Rightarrow> string \<Rightarrow> nat \<Rightarrow> nat \<Rightarrow> state \<Rightarrow> ((nat \<times> body) \<times> state) option" where
  "get_movie env path t_get t_set st =
     (let st1 = st\<lparr>received := Suc (received st)\<rparr> in
      case run_middleware env (received st) path uses of
        Ends status b \<Rightarrow> Some ((status, b), st1)
      | Throws err \<Rightarrow> Some (error_handler err st1)
      | Next \<Rightarrow>
          (case dispatch routes GET path of
             None \<Rightarrow> Some ((404, Failure (JStr ''Endpoint not found'')), st1)
           | Some (r, matched) \<Rightarrow>
               if r = MovieById \<or> r = MovieByImdbID then
                 (case decode_params env matched of
                    Inl err \<Rightarrow> Some (error_handler err st1)
                  | Inr params \<Rightarrow>
                      if r = MovieById then Some (movie_handler env (req_param params ''id'') t_get t_set st1)
                      else Some (movie_imdbID_handler env (req_param params ''imdbID'') st1))
               else None))"

section \<open>Vocabulary of the properties\<close>

text \<open>
  \<open>converts v\<close> holds when the conversion of \<open>v\<close> to a string does not throw, and
  \<open>printed v\<close> is the string then. The callback of \<^verbatim>\<open>map\<close> and the loop of the popular
  list reach the detail request of a hit when the hit is \<open>requestable\<close>: it is not
  \<^verbatim>\<open>null\<close> and its id converts.
\<close>

definition converts :: "jsval \<Rightarrow> bool" where
  "converts v = (case to_string v of Inl e \<Rightarrow> False | Inr s \<Rightarrow> True)"

definition printed :: "jsval \<Rightarrow> string" where
  "printed v = (case to_string v of Inl e \<Rightarrow> [] | Inr s \<Rightarrow> s)"

definition requestable :: "jsval \<Rightarrow> bool" where
  "requestable hit = (\<not> nullish hit \<and> converts (get_prop hit ''imdbID''))"

text \<open>
  A handler that starts in state \<open>st\<close> and misses the cache issues its search request as
  request number \<open>length (requests st)\<close>, and, when every hit is requestable, the detail
  request for the hit at index \<open>i\<close> as request number \<open>length (requests st) + 1 + i\<close>.
  \<open>provider_search\<close> and \<open>provider_detail\<close> are what axios returns or throws for them, and
  \<open>enriched env k movie\<close> is the value the callback of \<^verbatim>\<open>map\<close> resolves with when its
  detail request is request number \<open>k\<close>.
\<close>

definition provider_search :: "env \<Rightarrow> state \<Rightarrow> string \<Rightarrow> int \<Rightarrow> string + jsval" where
  "provider_search env st query page =
     fst (axios_get env (length (requests st)) (search_url env query (show_int page)))"

definition provider_detail :: "env \<Rightarrow> state \<Rightarrow> nat \<Rightarrow> jsval \<Rightarrow> string + jsval" where
  "provider_detail env st i hit =
     fst (axios_get env (Suc (length (requests st)) + i)
            (detail_url env (printed (get_prop hit ''imdbID''))))"

definition enriched :: "env \<Rightarrow> nat \<Rightarrow> jsval \<Rightarrow> jsval" where
  "enriched env k movie =
     (case fst (axios_get env k (detail_url env (printed (get_prop movie ''imdbID'')))) of
        Inl cause \<Rightarrow> movie
      | Inr detailData \<Rightarrow> if nullish detailData then movie else with_details movie detailData)"

text \<open>
  \<open>detail_throws\<close> holds of the outcome of a detail request on which the \<^verbatim>\<open>try\<close> block
  of the enrichment throws: axios throws, or the body is \<^verbatim>\<open>null\<close> and reading its
  \<^verbatim>\<open>Plot\<close> throws. \<open>with_latencies env took\<close> is the environment \<open>env\<close> in which request
  number \<open>k\<close> to \<open>url\<close> has the same outcome and takes the time \<open>took k url\<close>.
\<close>

definition detail_throws :: "string + jsval \<Rightarrow> bool" where
  "detail_throws outcome = (case outcome of Inl cause \<Rightarrow> True | Inr detailData \<Rightarrow> nullish detailData)"

definition with_latencies :: "env \<Rightarrow> (nat \<Rightarrow> string \<Rightarrow> nat) \<Rightarrow> env" where
  "with_latencies env took = env\<lparr>axios_get := \<lambda>k url. (fst (axios_get env k url), took k url)\<rparr>"

text \<open>The movies of a response that lists movies.\<close>

definition movies_of :: "body \<Rightarrow> jsval list" where
  "movies_of b = (case b of SearchPage ms tr cp tp \<Rightarrow> ms | PopularMovies ms \<Rightarrow> ms | _ \<Rightarrow> [])"

text \<open>What axios returns or throws for the detail request of \<^verbatim>\<open>GET /api/movie/:id\<close>.\<close>

definition provider_movie :: "env \<Rightarrow> state \<Rightarrow> string \<Rightarrow> string + jsval" where
  "provider_movie env st i = fst (axios_get env (length (requests st)) (detail_url env i))"

text \<open>
  What axios returns or throws for the search request of a seed of \<^verbatim>\<open>GET /api/popular\<close>
  that starts in state \<open>st\<close>.
\<close>

definition provider_trending :: "env \<Rightarrow> state \<Rightarrow> string \<Rightarrow> string + jsval" where
  "provider_trending env st search = fst (axios_get env (length (requests st)) (search_url env search ''1''))"

text \<open>
  Deduplication in the specification's words: the list is walked from the front, and an
  entry is kept unless an earlier entry has the same id. \<open>same_id\<close> compares the ids of
  two different entries with \<^verbatim>\<open>===\<close>. The source's \<open>uniqueMovies\<close>, written with
  \<^verbatim>\<open>filter\<close> and \<^verbatim>\<open>findIndex\<close>, is compared with it below.
\<close>

definition same_id :: "jsval \<Rightarrow> jsval \<Rightarrow> bool" where
  "same_id a b = strict_equals False (get_prop a ''imdbID'') (get_prop b ''imdbID'')"

fun keep_first :: "jsval list \<Rightarrow> jsval list \<Rightarrow> jsval list" where
  "keep_first seen [] = []"
| "keep_first seen (m # ms) =
     (if list_ex (\<lambda>s. same_id s m) seen then keep_first (seen @ [m]) ms
      else m # keep_first (seen @ [m]) ms)"

definition dedup_keep_first :: "jsval list \<Rightarrow> jsval list" where
  "dedup_keep_first ms = keep_first [] ms"

text \<open>
  A curated answer is a list of movies of which no two have the same id and which has at
  most 25 entries. \<open>popular_entry_curated\<close> holds of a state whose cache holds nothing
  under \<^verbatim>\<open>popular:movies\<close> or a curated answer.
\<close>

definition curated :: "body \<Rightarrow> bool" where
  "curated b =
     (case b of
        PopularMovies ms \<Rightarrow>
          (\<forall>i j. i < j \<and> j < length ms \<longrightarrow> \<not> same_id (ms ! i) (ms ! j)) \<and> length ms \<le> 25
      | _ \<Rightarrow> False)"

definition popular_entry_curated :: "state \<Rightarrow> bool" where
  "popular_entry_curated st =
     (case cache st ''popular:movies'' of None \<Rightarrow> True | Some (b, expires) \<Rightarrow> curated b)"

text \<open>
  The paths that Express matches against \<^verbatim>\<open>/api/movie/:id\<close> with the segment \<open>seg\<close> for
  the parameter: \<^verbatim>\<open>/api/movie/\<close> in any case of its letters, the segment, and a slash at
  the end or none.
\<close>

definition movie_path :: "string \<Rightarrow> string \<Rightarrow> bool" where
  "movie_path path seg =
     (map to_lower (take 11 path) = ''/api/movie/'' \<and> seg \<noteq> [] \<and> CHR ''/'' \<notin> set seg
      \<and> (drop 11 path = seg \<or> drop 11 path = seg @ ''/''))"

section \<open>Example requests, providers and states\<close>

text \<open>A provider that cannot be reached.\<close>

definition provider_down :: env where
  "provider_down =
     \<lparr>OMDB_API_KEY = ''k'',
      axios_get = (\<lambda>k url. (Inl ''connect ECONNREFUSED'', 3)),
      encodeURIComponent = (\<lambda>s. s),
      decodeURIComponent = Some,
      history_create = (\<lambda>k doc. None),
      middleware = (\<lambda>lib k. Next),
      over_limit = (\<lambda>k. False)\<rparr>"

definition empty_state :: state where
  "empty_state =
     \<lparr>cache = Map.empty, requests = [], searchHistory = [], console = [], isMongoConnected = True,
      received = 0\<rparr>"

definition search_request :: "string \<Rightarrow> page_param \<Rightarrow> request" where
  "search_request q p = \<lparr>req_query = QueryString q, req_page = p, req_unknown = [], req_ip = ''::1''\<rparr>"

text \<open>A provider that finds no title, and one whose first request times out.\<close>

definition no_match_provider :: env where
  "no_match_provider =
     \<lparr>OMDB_API_KEY = ''k'',
      axios_get = (\<lambda>k url. (Inr (JObj [(''Response'', JStr ''False''), (''Error'', JStr ''Movie not found!'')]), 40)),
      encodeURIComponent = (\<lambda>s. s),
      decodeURIComponent = Some,
      history_create = (\<lambda>k doc. None),
      middleware = (\<lambda>lib k. Next),
      over_limit = (\<lambda>k. False)\<rparr>"

definition recovering_provider :: env where
  "recovering_provider =
     \<lparr>OMDB_API_KEY = ''k'',
      axios_get = (\<lambda>k url.
         if k = 0 then (Inl ''timeout of 10000ms exceeded'', 10000)
         else (Inr (JObj [(''Response'', JStr ''False''), (''Error'', JStr ''Movie not found!'')]), 40)),
      encodeURIComponent = (\<lambda>s. s),
      decodeURIComponent = Some,
      history_create = (\<lambda>k doc. None),
      middleware = (\<lambda>lib k. Next),
      over_limit = (\<lambda>k. False)\<rparr>"

definition batman_request :: request where
  "batman_request = search_request ''batman'' PageMissing"

text \<open>
  A provider that finds two titles out of 95 for a search, whose detail request for the
  first title runs into the timeout after ten seconds and whose detail request for the
  second title is answered after 80 milliseconds, so that the second settles first.
\<close>

definition batman_begins :: jsval where
  "batman_begins =
     JObj [(''Title'', JStr ''Batman Begins''), (''Year'', JStr ''2005''),
           (''imdbID'', JStr ''tt0372784''), (''Type'', JStr ''movie''), (''Poster'', JStr ''N/A'')]"

definition dark_knight :: jsval where
  "dark_knight =
     JObj [(''Title'', JStr ''The Dark Knight''), (''Year'', JStr ''2008''),
           (''imdbID'', JStr ''tt0468569''), (''Type'', JStr ''movie''), (''Poster'', JStr ''N/A'')]"

definition batman_page :: jsval where
  "batman_page =
     JObj [(''Search'', JArr [batman_begins, dark_knight]), (''totalResults'', JStr ''95''),
           (''Response'', JStr ''True'')]"

definition dark_knight_detail :: jsval where
  "dark_knight_detail =
     JObj [(''Title'', JStr ''The Dark Knight''), (''Year'', JStr ''2008''),
           (''Runtime'', JStr ''152 min''), (''Genre'', JStr ''Action, Crime, Drama''),
           (''Director'', JStr ''Christopher Nolan''), (''Actors'', JStr ''Christian Bale''),
           (''Plot'', JStr ''Batman faces the Joker.''), (''Awards'', JStr ''Won 2 Oscars''),
           (''imdbRating'', JStr ''9.0''), (''imdbID'', JStr ''tt0468569''),
           (''Response'', JStr ''True'')]"

definition batman_provider :: env where
  "batman_provider =
     \<lparr>OMDB_API_KEY = ''k'',
      axios_get = (\<lambda>k url.
         if k = 0 then (Inr batman_page, 120)
         else if k = 1 then (Inl ''timeout of 10000ms exceeded'', 10000)
         else (Inr dark_knight_detail, 80)),
      encodeURIComponent = (\<lambda>s. s),
      decodeURIComponent = Some,
      history_create = (\<lambda>k doc. None),
      middleware = (\<lambda>lib k. Next),
      over_limit = (\<lambda>k. False)\<rparr>"

text \<open>An environment in which storing a search history document fails.\<close>

definition failing_history :: "env \<Rightarrow> env" where
  "failing_history env = env\<lparr>history_create := \<lambda>k doc. Some ''Operation searchhistories.insertOne() buffering timed out''\<rparr>"

text \<open>A provider that knows no id, and one that answers every request with one movie.\<close>

definition unknown_id_provider :: env where
  "unknown_id_provider =
     \<lparr>OMDB_API_KEY = ''k'',
      axios_get = (\<lambda>k url. (Inr (JObj [(''Response'', JStr ''False''), (''Error'', JStr ''Incorrect IMDb ID.'')]), 40)),
      encodeURIComponent = (\<lambda>s. s),
      decodeURIComponent = Some,
      history_create = (\<lambda>k doc. None),
      middleware = (\<lambda>lib k. Next),
      over_limit = (\<lambda>k. False)\<rparr>"

definition dark_knight_provider :: env where
  "dark_knight_provider =
     \<lparr>OMDB_API_KEY = ''k'',
      axios_get = (\<lambda>k url. (Inr dark_knight_detail, 80)),
      encodeURIComponent = (\<lambda>s. s),
      decodeURIComponent = Some,
      history_create = (\<lambda>k doc. None),
      middleware = (\<lambda>lib k. Next),
      over_limit = (\<lambda>k. False)\<rparr>"

text \<open>
  The provider of the end-to-end scenario: it finds four titles for \<^verbatim>\<open>Marvel\<close> and three
  for \<^verbatim>\<open>Batman\<close>, one of them in both lists, and refuses every other request.
\<close>

definition scenario_hit :: "string \<Rightarrow> jsval" where
  "scenario_hit i = JObj [(''Title'', JStr i), (''imdbID'', JStr i)]"

definition scenario_page :: "string list \<Rightarrow> jsval" where
  "scenario_page ids =
     JObj [(''Search'', JArr (map scenario_hit ids)), (''totalResults'', JStr ''4''),
           (''Response'', JStr ''True'')]"

definition scenario_provider :: env where
  "scenario_provider =
     \<lparr>OMDB_API_KEY = ''k'',
      axios_get = (\<lambda>k url.
         if url = ''https://www.omdbapi.com/?apikey=k&s=Marvel&page=1''
           then (Inr (scenario_page [''m1'', ''m2'', ''m3'', ''m4'']), 30)
         else if url = ''https://www.omdbapi.com/?apikey=k&s=Batman&page=1''
           then (Inr (scenario_page [''m2'', ''b2'', ''b3'']), 30)
         else (Inl ''Request failed with status code 401'', 5)),
      encodeURIComponent = (\<lambda>s. s),
      decodeURIComponent = Some,
      history_create = (\<lambda>k doc. None),
      middleware = (\<lambda>lib k. Next),
      over_limit = (\<lambda>k. False)\<rparr>"

text \<open>
  A provider whose two detail requests both fail, the second sooner than the first; and a
  provider whose page holds a hit with an id that does not convert to a string.
\<close>

definition failing_details_provider :: env where
  "failing_details_provider =
     \<lparr>OMDB_API_KEY = ''k'',
      axios_get = (\<lambda>k url.
         if k = 0 then (Inr batman_page, 120)
         else if k = 1 then (Inl ''timeout of 10000ms exceeded'', 10000)
         else (Inl ''Request failed with status code 500'', 80)),
      encodeURIComponent = (\<lambda>s. s),
      decodeURIComponent = Some,
      history_create = (\<lambda>k doc. None),
      middleware = (\<lambda>lib k. Next),
      over_limit = (\<lambda>k. False)\<rparr>"

definition odd_id_page :: jsval where
  "odd_id_page =
     JObj [(''Search'', JArr [batman_begins, JObj [(''imdbID'', JObj [(''toString'', JNum 1)])], dark_knight]),
           (''totalResults'', JStr ''3''), (''Response'', JStr ''True'')]"

definition odd_id_provider :: env where
  "odd_id_provider =
     \<lparr>OMDB_API_KEY = ''k'',
      axios_get = (\<lambda>k url.
         if k = 0 then (Inr odd_id_page, 120)
         else if k = 1 then (Inl ''timeout of 10000ms exceeded'', 10000)
         else (Inl ''Request failed with status code 500'', 80)),
      encodeURIComponent = (\<lambda>s. s),
      decodeURIComponent = Some,
      history_create = (\<lambda>k doc. None),
      middleware = (\<lambda>lib k. Next),
      over_limit = (\<lambda>k. False)\<rparr>"

section \<open>Properties\<close>

subsection \<open>The provider client, the fan-out and \<^verbatim>\<open>Promise.all\<close>\<close>

lemma awaited:
  "await (makeOMDBRequest env url st) =
     (case fst (axios_get env (length (requests st)) url) of
        Inl cause \<Rightarrow>
          (Inl FetchFailed,
           st\<lparr>requests := requests st @ [url], console := console st @ [OmdbApiError cause]\<rparr>)
      | Inr response_data \<Rightarrow> (Inr response_data, st\<lparr>requests := requests st @ [url]\<rparr>))"
  by (simp add: await_def makeOMDBRequest_def split_beta split: sum.splits)

lemma awaited_result:
  "fst (await (makeOMDBRequest env url st)) =
     (case fst (axios_get env (length (requests st)) url) of
        Inl cause \<Rightarrow> Inl FetchFailed
      | Inr d \<Rightarrow> Inr d)"
  by (simp add: awaited split: sum.splits)

lemma awaited_state:
  "requests (snd (await (makeOMDBRequest env url st))) = requests st @ [url]"
  "cache (snd (await (makeOMDBRequest env url st))) = cache st"
  "searchHistory (snd (await (makeOMDBRequest env url st))) = searchHistory st"
  "isMongoConnected (snd (await (makeOMDBRequest env url st))) = isMongoConnected st"
  "received (snd (await (makeOMDBRequest env url st))) = received st"
  by (simp_all add: awaited split: sum.splits)

lemma makeOMDBRequest_state:
  "snd (makeOMDBRequest env url st) = st\<lparr>requests := requests st @ [url]\<rparr>"
  by (simp add: makeOMDBRequest_def split_beta split: sum.splits)

lemma makeOMDBRequest_outcome:
  "p_outcome (fst (makeOMDBRequest env url st)) =
     (case fst (axios_get env (length (requests st)) url) of
        Inl cause \<Rightarrow> Inl FetchFailed
      | Inr d \<Rightarrow> Inr d)"
  by (simp add: makeOMDBRequest_def split_beta split: sum.splits)

lemma to_string_throws:
  "to_string v = Inl e \<Longrightarrow> e = TypeError"
  "elements_to_strings vs = Inl e \<Longrightarrow> e = TypeError"
  by (induction v and vs rule: to_string_elements_to_strings.induct)
     (auto split: sum.splits if_splits)

lemma converts_printed: "converts v \<Longrightarrow> to_string v = Inr (printed v)"
  by (simp add: converts_def printed_def split: sum.splits)

lemma not_converts: "\<not> converts v \<Longrightarrow> to_string v = Inl TypeError"
  using to_string_throws(1) [of v] by (auto simp: converts_def split: sum.splits)

text \<open>
  A hit as the provider's contract has it, an object whose \<^verbatim>\<open>imdbID\<close> is a string, is
  requestable, and so is every hit whose id is a primitive value or missing.
\<close>

lemma requestable_string_id: "get_prop hit ''imdbID'' = JStr i \<Longrightarrow> requestable hit"
  by (cases hit) (simp_all add: requestable_def converts_def)

lemma requestable_primitive_id:
  "\<not> nullish hit \<Longrightarrow> \<not> is_object (get_prop hit ''imdbID'') \<Longrightarrow> requestable hit"
  by (cases "get_prop hit ''imdbID''") (simp_all add: requestable_def converts_def)

lemma enrich_fulfils:
  "requestable movie \<Longrightarrow>
   p_outcome (fst (enrich env movie st)) = Inr (enriched env (length (requests st)) movie)"
  by (simp add: enrich_def enriched_def requestable_def converts_printed makeOMDBRequest_def
      split_beta split: sum.splits)

lemma enrich_rejects:
  "\<not> requestable movie \<Longrightarrow> p_outcome (fst (enrich env movie st)) = Inl TypeError"
  by (auto simp: enrich_def requestable_def not_converts)

lemma enrich_state:
  "snd (enrich env movie st) =
     (if requestable movie
      then st\<lparr>requests := requests st @ [detail_url env (printed (get_prop movie ''imdbID''))]\<rparr>
      else st)"
  by (auto simp: enrich_def requestable_def not_converts converts_printed makeOMDBRequest_def
      split_beta split: sum.splits)

lemma enrich_frame:
  "cache (snd (enrich env movie st)) = cache st"
  "searchHistory (snd (enrich env movie st)) = searchHistory st"
  "isMongoConnected (snd (enrich env movie st)) = isMongoConnected st"
  "console (snd (enrich env movie st)) = console st"
  "received (snd (enrich env movie st)) = received st"
  by (simp_all add: enrich_state)

lemma fan_out_Cons:
  "fan_out env (movie # movies) st =
     (fst (enrich env movie st) # fst (fan_out env movies (snd (enrich env movie st))),
      snd (fan_out env movies (snd (enrich env movie st))))"
  by (simp add: split_beta)

lemma fan_out_length: "length (fst (fan_out env hits st)) = length hits"
  by (induction hits arbitrary: st) (simp_all add: split_beta)

lemma fan_out_frame:
  "cache (snd (fan_out env hits st)) = cache st"
  "searchHistory (snd (fan_out env hits st)) = searchHistory st"
  "isMongoConnected (snd (fan_out env hits st)) = isMongoConnected st"
  "console (snd (fan_out env hits st)) = console st"
  "received (snd (fan_out env hits st)) = received st"
  by (induction hits arbitrary: st) (simp_all add: split_beta enrich_frame)

lemma fan_out_requests:
  "\<forall>h\<in>set hits. requestable h \<Longrightarrow>
   requests (snd (fan_out env hits st)) =
     requests st @ map (\<lambda>h. detail_url env (printed (get_prop h ''imdbID''))) hits"
  by (induction hits arbitrary: st) (simp_all add: split_beta enrich_state)

lemma fan_out_fulfils:
  "\<forall>h\<in>set hits. requestable h \<Longrightarrow>
   map p_outcome (fst (fan_out env hits st)) =
     map (\<lambda>i. Inr (enriched env (length (requests st) + i) (hits ! i))) [0..<length hits]"
proof (induction hits arbitrary: st)
  case Nil
  then show ?case by simp
next
  case (Cons h hs)
  have "map p_outcome (fst (fan_out env hs (snd (enrich env h st)))) =
     map (\<lambda>i. Inr (enriched env (Suc (length (requests st)) + i) (hs ! i))) [0..<length hs]"
    using Cons.IH [of "snd (enrich env h st)"] Cons.prems by (simp add: enrich_state)
  also have "\<dots> = map (\<lambda>i. Inr (enriched env (length (requests st) + i) ((h # hs) ! i))) (map Suc [0..<length hs])"
    by simp
  finally show ?case
    using Cons.prems enrich_fulfils [of h env st]
    by (simp add: split_beta upt_conv_Cons map_Suc_upt del: upt_Suc)
qed

lemma fan_out_rejects:
  "h \<in> set hits \<Longrightarrow> \<not> requestable h \<Longrightarrow> Inl TypeError \<in> set (map p_outcome (fst (fan_out env hits st)))"
proof (induction hits arbitrary: st)
  case Nil
  then show ?case by simp
next
  case (Cons x xs)
  then show ?case
    using enrich_rejects [of x env st] by (auto simp: split_beta)
qed

lemma set_settle_order: "set (settle_order took) = {0..<length took}"
  by (simp add: settle_order_def)

lemma resolve_elements_fulfilled:
  "\<forall>i\<in>set order. i < length vals \<and> ps ! i = Inr (vs ! i) \<Longrightarrow>
   resolve_elements ps order vals =
     Inr (map (\<lambda>j. if j \<in> set order then vs ! j else vals ! j) [0..<length vals])"
proof (induction order arbitrary: vals)
  case Nil
  then show ?case by (simp add: map_nth)
next
  case (Cons i order)
  have "resolve_elements ps order (vals[i := vs ! i]) =
     Inr (map (\<lambda>j. if j \<in> set order then vs ! j else vals[i := vs ! i] ! j) [0..<length vals])"
    using Cons.IH [of "vals[i := vs ! i]"] Cons.prems by simp
  moreover have "map (\<lambda>j. if j \<in> set order then vs ! j else vals[i := vs ! i] ! j) [0..<length vals] =
     map (\<lambda>j. if j \<in> set (i # order) then vs ! j else vals ! j) [0..<length vals]"
    by (rule map_cong) (auto simp: nth_list_update)
  ultimately show ?case using Cons.prems by simp
qed

lemma resolve_elements_rejected:
  "i \<in> set order \<Longrightarrow> ps ! i = Inl e \<Longrightarrow> \<exists>e'. resolve_elements ps order vals = Inl e'"
proof (induction order arbitrary: vals)
  case Nil
  then show ?case by simp
next
  case (Cons j order)
  then show ?case by (cases "ps ! j") auto
qed

lemma promise_all_fulfilled:
  assumes "map p_outcome ps = map Inr vs"
  shows "promise_all ps = Inr vs"
proof -
  have len: "length vs = length ps"
    using assms by (metis length_map)
  have nth: "map p_outcome ps ! i = Inr (vs ! i)" if "i < length ps" for i
    using assms len that by simp
  have "resolve_elements (map p_outcome ps) (settle_order (map settle_key ps)) (replicate (length ps) JUndefined) =
     Inr (map (\<lambda>j. if j \<in> set (settle_order (map settle_key ps)) then vs ! j
                    else replicate (length ps) JUndefined ! j) [0..<length (replicate (length ps) JUndefined)])"
    by (rule resolve_elements_fulfilled) (use nth in \<open>simp add: set_settle_order del: nth_map\<close>)
  also have "\<dots> = Inr (map (\<lambda>j. vs ! j) [0..<length vs])"
    by (simp add: set_settle_order len)
  finally show ?thesis by (simp add: promise_all_def map_nth)
qed

lemma promise_all_rejected:
  assumes "Inl e \<in> set (map p_outcome ps)"
  shows "\<exists>e'. promise_all ps = Inl e'"
proof -
  from assms obtain i where i: "i < length ps" "map p_outcome ps ! i = Inl e"
    by (metis in_set_conv_nth length_map)
  then have "i \<in> set (settle_order (map settle_key ps))"
    by (simp add: set_settle_order)
  then show ?thesis
    unfolding promise_all_def using i(2) by (rule resolve_elements_rejected)
qed

lemma save_history_frame:
  "cache (save_history env query results ip st) = cache st"
  "requests (save_history env query results ip st) = requests st"
  "isMongoConnected (save_history env query results ip st) = isMongoConnected st"
  "received (save_history env query results ip st) = received st"
  by (simp_all add: save_history_def Let_def split: option.splits)

lemma get_prop_nullish: "nullish data \<Longrightarrow> get_prop data k = JUndefined"
  by (cases data) simp_all

lemma search_fresh_failed:
  "provider_search env st query page = Inl cause \<Longrightarrow>
   search_fresh env query page ip st =
     (Inl (FetchFailed, []),
      st\<lparr>requests := requests st @ [search_url env query (show_int page)],
         console := console st @ [OmdbApiError cause]\<rparr>)"
  by (simp add: search_fresh_def provider_search_def awaited)

lemma search_fresh_no_match:
  "provider_search env st query page = Inr data \<Longrightarrow> \<not> nullish data \<Longrightarrow>
   get_prop data ''Response'' \<noteq> JStr ''True'' \<Longrightarrow>
   search_fresh env query page ip st =
     (Inr (Failure (js_or (get_prop data ''Error'') (JStr ''No movies found''))),
      st\<lparr>requests := requests st @ [search_url env query (show_int page)]\<rparr>)"
  by (simp add: search_fresh_def provider_search_def awaited)

subsection \<open>The outcomes of a search that misses the cache\<close>

lemma parseInt_converts: "converts v \<Longrightarrow> parseInt v = Inr (parseInt_string (printed v))"
  by (simp add: parseInt_def converts_printed)

lemma parseInt_throws: "\<not> converts v \<Longrightarrow> parseInt v = Inl TypeError"
  by (simp add: parseInt_def not_converts)

lemma search_fresh_matched:
  assumes "provider_search env st query page = Inr data"
    and "get_prop data ''Response'' = JStr ''True''"
    and "get_prop data ''Search'' = JArr hits"
    and "\<forall>h\<in>set hits. requestable h"
    and "converts (get_prop data ''totalResults'')"
  shows "fst (search_fresh env query page ip st) =
     Inr (SearchPage
            (map (\<lambda>i. enriched env (Suc (length (requests st)) + i) (hits ! i)) [0..<length hits])
            (parseInt_string (printed (get_prop data ''totalResults'')))
            page
            (ceil_div_10 (parseInt_string (printed (get_prop data ''totalResults'')))))"
proof -
  define st1 where "st1 = snd (await (makeOMDBRequest env (search_url env query (show_int page)) st))"
  have req: "await (makeOMDBRequest env (search_url env query (show_int page)) st) = (Inr data, st1)"
    using assms(1) awaited_result [of env "search_url env query (show_int page)" st]
    by (simp add: provider_search_def st1_def prod_eq_iff)
  have len: "length (requests st1) = Suc (length (requests st))"
    by (simp add: st1_def awaited_state)
  have "map p_outcome (fst (fan_out env hits st1)) =
     map Inr (map (\<lambda>i. enriched env (Suc (length (requests st)) + i) (hits ! i)) [0..<length hits])"
    using fan_out_fulfils [OF assms(4), of env st1] len by simp
  then have "promise_all (fst (fan_out env hits st1)) =
     Inr (map (\<lambda>i. enriched env (Suc (length (requests st)) + i) (hits ! i)) [0..<length hits])"
    by (rule promise_all_fulfilled)
  moreover have "\<not> nullish data"
    using assms(2) get_prop_nullish by fastforce
  ultimately show ?thesis
    using req assms(2,3) parseInt_converts [OF assms(5)] by (simp add: search_fresh_def split_beta)
qed

lemma search_fresh_matched_state:
  assumes "provider_search env st query page = Inr data"
    and "get_prop data ''Response'' = JStr ''True''"
    and "get_prop data ''Search'' = JArr hits"
    and "\<forall>h\<in>set hits. requestable h"
    and "converts (get_prop data ''totalResults'')"
  shows "\<exists>st3. snd (search_fresh env query page ip st) =
           save_history env query (parseInt_string (printed (get_prop data ''totalResults''))) ip st3
         \<and> searchHistory st3 = searchHistory st \<and> isMongoConnected st3 = isMongoConnected st
         \<and> cache st3 = cache st"
proof -
  define st1 where "st1 = snd (await (makeOMDBRequest env (search_url env query (show_int page)) st))"
  have req: "await (makeOMDBRequest env (search_url env query (show_int page)) st) = (Inr data, st1)"
    using assms(1) awaited_result [of env "search_url env query (show_int page)" st]
    by (simp add: provider_search_def st1_def prod_eq_iff)
  have len: "length (requests st1) = Suc (length (requests st))"
    by (simp add: st1_def awaited_state)
  define ps where "ps = fst (fan_out env hits st1)"
  define st2 where "st2 = snd (fan_out env hits st1)"
  define st3 where "st3 = st2\<lparr>console := console st2 @ written_before ps\<rparr>"
  have "map p_outcome (fst (fan_out env hits st1)) =
     map Inr (map (\<lambda>i. enriched env (Suc (length (requests st)) + i) (hits ! i)) [0..<length hits])"
    using fan_out_fulfils [OF assms(4), of env st1] len by simp
  then have "promise_all (fst (fan_out env hits st1)) =
     Inr (map (\<lambda>i. enriched env (Suc (length (requests st)) + i) (hits ! i)) [0..<length hits])"
    by (rule promise_all_fulfilled)
  moreover have "\<not> nullish data"
    using assms(2) get_prop_nullish by fastforce
  ultimately have "snd (search_fresh env query page ip st) =
     save_history env query (parseInt_string (printed (get_prop data ''totalResults''))) ip st3"
    using req assms(2,3) parseInt_converts [OF assms(5)]
    by (simp add: search_fresh_def split_beta st3_def st2_def ps_def)
  moreover have "searchHistory st3 = searchHistory st" "isMongoConnected st3 = isMongoConnected st"
    "cache st3 = cache st"
    by (simp_all add: st3_def st2_def fan_out_frame st1_def awaited_state)
  ultimately show ?thesis by blast
qed

lemma search_fresh_unrequestable:
  assumes "provider_search env st query page = Inr data"
    and "get_prop data ''Response'' = JStr ''True''"
    and "get_prop data ''Search'' = JArr hits"
    and "h \<in> set hits" and "\<not> requestable h"
  shows "\<exists>e. fst (search_fresh env query page ip st) = Inl e"
proof -
  define st1 where "st1 = snd (await (makeOMDBRequest env (search_url env query (show_int page)) st))"
  have req: "await (makeOMDBRequest env (search_url env query (show_int page)) st) = (Inr data, st1)"
    using assms(1) awaited_result [of env "search_url env query (show_int page)" st]
    by (simp add: provider_search_def st1_def prod_eq_iff)
  obtain e where "promise_all (fst (fan_out env hits st1)) = Inl e"
    using promise_all_rejected [OF fan_out_rejects [OF assms(4,5)]] by blast
  moreover have "\<not> nullish data"
    using assms(2) get_prop_nullish by fastforce
  ultimately show ?thesis
    using req assms(2,3) by (simp add: search_fresh_def split_beta)
qed

lemma search_fresh_count_throws:
  assumes "provider_search env st query page = Inr data"
    and "get_prop data ''Response'' = JStr ''True''"
    and "get_prop data ''Search'' = JArr hits"
    and "\<not> converts (get_prop data ''totalResults'')"
  shows "\<exists>e. fst (search_fresh env query page ip st) = Inl e"
proof -
  define st1 where "st1 = snd (await (makeOMDBRequest env (search_url env query (show_int page)) st))"
  have req: "await (makeOMDBRequest env (search_url env query (show_int page)) st) = (Inr data, st1)"
    using assms(1) awaited_result [of env "search_url env query (show_int page)" st]
    by (simp add: provider_search_def st1_def prod_eq_iff)
  have "\<not> nullish data"
    using assms(2) get_prop_nullish by fastforce
  then show ?thesis
    using req assms(2,3) parseInt_throws [OF assms(4)]
    by (simp add: search_fresh_def split_beta split: sum.splits)
qed

lemma search_fresh_cache: "cache (snd (search_fresh env query page ip st)) = cache st"
  by (simp add: search_fresh_def split_beta save_history_frame fan_out_frame awaited_state
      split: sum.splits jsval.splits)

lemma search_handler_miss:
  assumes "searchSchema_validate req = Inr (query, page)"
    and "cache_get t_get (search_key query page) st = None"
  shows "search_handler env req t_get t_set st =
     (case search_fresh env query page (req_ip req) st of
        (Inl (e, later), st1) \<Rightarrow>
          ((500, Failure (JStr ''Internal server error'')),
           st1\<lparr>console := console st1 @ [SearchError e] @ later\<rparr>)
      | (Inr response, st1) \<Rightarrow>
          ((200, response), cache_set t_set (search_key query page) response st1))"
  using assms by (simp add: search_handler_def)

lemma search_handler_hit:
  assumes "searchSchema_validate req = Inr (query, page)"
    and "cache_get t_get (search_key query page) st = Some cachedResult"
  shows "search_handler env req t_get t_set st = ((200, cachedResult), st)"
  using assms by (simp add: search_handler_def)

lemma search_handler_rejected:
  "searchSchema_validate req = Inl e \<Longrightarrow> search_handler env req t_get t_set st = ((400, Invalid e), st)"
  by (simp add: search_handler_def)

lemma search_handler_accepted_status:
  "searchSchema_validate req = Inr qp \<Longrightarrow> fst (fst (search_handler env req t_get t_set st)) \<noteq> 400"
  by (cases qp) (simp add: search_handler_def split: option.splits prod.splits sum.splits)

lemma search_handler_failed:
  assumes "searchSchema_validate req = Inr (query, page)"
    and "cache_get t_get (search_key query page) st = None"
    and "provider_search env st query page = Inl cause"
  shows "search_handler env req t_get t_set st =
     ((500, Failure (JStr ''Internal server error'')),
      st\<lparr>requests := requests st @ [search_url env query (show_int page)],
         console := console st @ [OmdbApiError cause, SearchError FetchFailed]\<rparr>)"
  using assms by (simp add: search_handler_miss search_fresh_failed)

lemma search_handler_no_match:
  assumes "searchSchema_validate req = Inr (query, page)"
    and "cache_get t_get (search_key query page) st = None"
    and "provider_search env st query page = Inr data"
    and "\<not> nullish data"
    and "get_prop data ''Response'' \<noteq> JStr ''True''"
  shows "search_handler env req t_get t_set st =
     ((200, Failure (js_or (get_prop data ''Error'') (JStr ''No movies found''))),
      cache_set t_set (search_key query page)
        (Failure (js_or (get_prop data ''Error'') (JStr ''No movies found'')))
        (st\<lparr>requests := requests st @ [search_url env query (show_int page)]\<rparr>))"
  using assms by (simp add: search_handler_miss search_fresh_no_match)

lemma search_handler_matched:
  assumes "searchSchema_validate req = Inr (query, page)"
    and "cache_get t_get (search_key query page) st = None"
    and "provider_search env st query page = Inr data"
    and "get_prop data ''Response'' = JStr ''True''"
    and "get_prop data ''Search'' = JArr hits"
    and "\<forall>h\<in>set hits. requestable h"
    and "converts (get_prop data ''totalResults'')"
  shows "fst (search_handler env req t_get t_set st) =
     (200, SearchPage
             (map (\<lambda>i. enriched env (Suc (length (requests st)) + i) (hits ! i)) [0..<length hits])
             (parseInt_string (printed (get_prop data ''totalResults'')))
             page
             (ceil_div_10 (parseInt_string (printed (get_prop data ''totalResults'')))))"
  using search_fresh_matched [OF assms(3-7), of "req_ip req"]
  by (simp add: search_handler_miss [OF assms(1,2)] split_beta split: sum.splits)

lemma search_handler_throws:
  assumes "searchSchema_validate req = Inr (query, page)"
    and "cache_get t_get (search_key query page) st = None"
    and "provider_search env st query page = Inr data"
    and "get_prop data ''Response'' = JStr ''True''"
    and "get_prop data ''Search'' = JArr hits"
    and "(\<exists>h\<in>set hits. \<not> requestable h) \<or> \<not> converts (get_prop data ''totalResults'')"
  shows "fst (search_handler env req t_get t_set st) = (500, Failure (JStr ''Internal server error''))"
proof -
  have "\<exists>e. fst (search_fresh env query page (req_ip req) st) = Inl e"
    using assms(6) search_fresh_unrequestable [OF assms(3-5)] search_fresh_count_throws [OF assms(3-5)]
    by blast
  then show ?thesis
    by (auto simp: search_handler_miss [OF assms(1,2)] split_beta split: sum.splits)
qed

subsection \<open>Validation of a search request\<close>

text \<open>
  Claim C5. A search request whose query is empty or longer than 100 characters, or whose
  page is an integer below 1 or above 100, is answered with status 400 and the validation
  error, and the state is the one before the request, whatever the cache holds and whatever
  the provider would answer: no cache entry is read and no request is issued. A request
  with a query of 1 to 100 characters, a page from 1 to 100 and no other parameter passes
  the validation with that query and page, a missing page counting as page 1, and is not
  answered with status 400.
\<close>

theorem search_validation:
  "((\<exists>s. req_query req = QueryString s \<and> (s = [] \<or> length s > 100))
      \<or> (\<exists>n. req_page req = PageInteger n \<and> (n < 1 \<or> n > 100))
    \<longrightarrow> (\<exists>e. searchSchema_validate req = Inl e
            \<and> search_handler env req t_get t_set st = ((400, Invalid e), st)))
   \<and> (req_query req = QueryString s \<and> s \<noteq> [] \<and> length s \<le> 100 \<and> req_unknown req = []
        \<and> (req_page req = PageInteger n \<and> 1 \<le> n \<and> n \<le> 100 \<or> req_page req = PageMissing \<and> n = 1)
    \<longrightarrow> searchSchema_validate req = Inr (s, n)
        \<and> fst (fst (search_handler env req t_get t_set st)) \<noteq> 400)"
proof (intro conjI impI)
  assume bad: "(\<exists>s. req_query req = QueryString s \<and> (s = [] \<or> length s > 100))
      \<or> (\<exists>n. req_page req = PageInteger n \<and> (n < 1 \<or> n > 100))"
  then have "\<exists>e. searchSchema_validate req = Inl e"
    by (auto simp: searchSchema_validate_def validate_query_def validate_page_def
        split: query_param.splits page_param.splits sum.splits list.splits)
  then show "\<exists>e. searchSchema_validate req = Inl e
            \<and> search_handler env req t_get t_set st = ((400, Invalid e), st)"
    using search_handler_rejected by blast
next
  assume ok: "req_query req = QueryString s \<and> s \<noteq> [] \<and> length s \<le> 100 \<and> req_unknown req = []
        \<and> (req_page req = PageInteger n \<and> 1 \<le> n \<and> n \<le> 100 \<or> req_page req = PageMissing \<and> n = 1)"
  then show v: "searchSchema_validate req = Inr (s, n)"
    by (auto simp: searchSchema_validate_def validate_query_def validate_page_def)
  then show "fst (fst (search_handler env req t_get t_set st)) \<noteq> 400"
    by (rule search_handler_accepted_status)
qed

theorem search_validation_witness:
  "(\<exists>e. search_handler provider_down (search_request [] (PageInteger 1)) 0 0 empty_state = ((400, Invalid e), empty_state))
   \<and> (\<exists>e. search_handler provider_down (search_request (replicate 101 CHR ''a'') (PageInteger 1)) 0 0 empty_state = ((400, Invalid e), empty_state))
   \<and> (\<exists>e. search_handler provider_down (search_request ''batman'' (PageInteger 0)) 0 0 empty_state = ((400, Invalid e), empty_state))
   \<and> (\<exists>e. search_handler provider_down (search_request ''batman'' (PageInteger 101)) 0 0 empty_state = ((400, Invalid e), empty_state))
   \<and> searchSchema_validate (search_request ''batman'' (PageInteger 1)) = Inr (''batman'', 1)
   \<and> searchSchema_validate (search_request ''batman'' PageMissing) = Inr (''batman'', 1)"
proof -
  note t = search_validation [where env = provider_down and t_get = 0 and t_set = 0 and st = empty_state]
  have a: "\<exists>e. search_handler provider_down (search_request [] (PageInteger 1)) 0 0 empty_state = ((400, Invalid e), empty_state)"
    using t [of "search_request [] (PageInteger 1)" "[]" 0] by (auto simp add: search_request_def)
  have b: "\<exists>e. search_handler provider_down (search_request (replicate 101 CHR ''a'') (PageInteger 1)) 0 0 empty_state = ((400, Invalid e), empty_state)"
    using t [of "search_request (replicate 101 CHR ''a'') (PageInteger 1)" "[]" 0] by (auto simp add: search_request_def)
  have c: "\<exists>e. search_handler provider_down (search_request ''batman'' (PageInteger 0)) 0 0 empty_state = ((400, Invalid e), empty_state)"
    using t [of "search_request ''batman'' (PageInteger 0)" "[]" 0] by (auto simp add: search_request_def)
  have d: "\<exists>e. search_handler provider_down (search_request ''batman'' (PageInteger 101)) 0 0 empty_state = ((400, Invalid e), empty_state)"
    using t [of "search_request ''batman'' (PageInteger 101)" "[]" 0] by (auto simp add: search_request_def)
  have e: "searchSchema_validate (search_request ''batman'' (PageInteger 1)) = Inr (''batman'', 1)"
    using t [of "search_request ''batman'' (PageInteger 1)" "''batman''" 1] by (simp add: search_request_def)
  have f: "searchSchema_validate (search_request ''batman'' PageMissing) = Inr (''batman'', 1)"
    using t [of "search_request ''batman'' PageMissing" "''batman''" 1] by (simp add: search_request_def)
  from a b c d e f show ?thesis by blast
qed

lemma batman_request_valid: "searchSchema_validate batman_request = Inr (''batman'', 1)"
  by (simp add: batman_request_def search_request_def searchSchema_validate_def
      validate_query_def validate_page_def)

lemma batman_search_url:
  "search_url env ''batman'' (show_int 1) = omdb_base env @ ''&s='' @ encodeURIComponent env ''batman'' @ ''&page=1''"
  by (simp add: search_url_def show_int_def show_nat.simps digit_char_def)

subsection \<open>Failure of the provider's search request\<close>

text \<open>
  Claim C8. When a valid search misses the cache and the provider's search request fails
  (axios throws: no connection, timeout, a status outside 2xx), the handler answers with
  status 500 and the fixed message \<^verbatim>\<open>Internal server error\<close>, the cause is written to
  the console and is no part of the answer, and the cache is the one before the request:
  nothing is stored.
\<close>

theorem search_provider_failure:
  assumes "searchSchema_validate req = Inr (query, page)"
    and "cache_get t_get (search_key query page) st = None"
    and "provider_search env st query page = Inl cause"
  shows "fst (search_handler env req t_get t_set st) = (500, Failure (JStr ''Internal server error''))
    \<and> cache (snd (search_handler env req t_get t_set st)) = cache st
    \<and> console (snd (search_handler env req t_get t_set st)) =
        console st @ [OmdbApiError cause, SearchError FetchFailed]
    \<and> searchHistory (snd (search_handler env req t_get t_set st)) = searchHistory st"
  using assms by (simp add: search_handler_miss search_fresh_failed)

theorem search_provider_failure_witness:
  "searchSchema_validate (search_request ''batman'' PageMissing) = Inr (''batman'', 1)
   \<and> cache_get 0 (search_key ''batman'' 1) empty_state = None
   \<and> provider_search provider_down empty_state ''batman'' 1 = Inl ''connect ECONNREFUSED''
   \<and> fst (search_handler provider_down (search_request ''batman'' PageMissing) 0 5 empty_state) =
        (500, Failure (JStr ''Internal server error''))
   \<and> cache (snd (search_handler provider_down (search_request ''batman'' PageMissing) 0 5 empty_state)) =
        cache empty_state
   \<and> console (snd (search_handler provider_down (search_request ''batman'' PageMissing) 0 5 empty_state)) =
        [OmdbApiError ''connect ECONNREFUSED'', SearchError FetchFailed]"
proof -
  have v: "searchSchema_validate (search_request ''batman'' PageMissing) = Inr (''batman'', 1)"
    using batman_request_valid by (simp add: batman_request_def)
  have m: "cache_get 0 (search_key ''batman'' 1) empty_state = None"
    by (simp add: cache_get_def empty_state_def)
  have p: "provider_search provider_down empty_state ''batman'' 1 = Inl ''connect ECONNREFUSED''"
    by (simp add: provider_search_def provider_down_def)
  show ?thesis
    using search_provider_failure [OF v m p, of 5] v m p by (simp add: empty_state_def)
qed

subsection \<open>A search without a match\<close>

lemma show_int_1: "show_int 1 = ''1''"
  by (simp add: show_int_def show_nat.simps digit_char_def)

text \<open>
  Claim C7. When a valid search misses the cache and the provider answers without a
  match, the handler answers with \<^verbatim>\<open>success: false\<close> and the provider's error value, or
  \<^verbatim>\<open>No movies found\<close> when that value is falsy; it stores this answer under the key
  \<^verbatim>\<open>search:\<close>, the query, a colon and the page, to expire \<open>stdTTL\<close> seconds after the
  store, and changes no other entry; every request with the same query and page whose
  lookup is not later than that gets the stored answer, whatever the provider would
  answer then, and leaves the state as it is.
\<close>

theorem search_no_match_cached:
  assumes "searchSchema_validate req = Inr (query, page)"
    and "key = ''search:'' @ query @ '':'' @ show_int page"
    and "cache_get t_get key st = None"
    and "provider_search env st query page = Inr data"
    and "\<not> nullish data"
    and "get_prop data ''Response'' \<noteq> JStr ''True''"
    and "failure = Failure (if truthy (get_prop data ''Error'') then get_prop data ''Error''
                            else JStr ''No movies found'')"
    and "st' = snd (search_handler env req t_get t_set st)"
    and "searchSchema_validate req' = Inr (query, page)"
    and "t_next \<le> t_set + stdTTL * 1000"
  shows "fst (search_handler env req t_get t_set st) = (200, failure)
    \<and> \<not> success failure
    \<and> cache st' key = Some (failure, t_set + stdTTL * 1000)
    \<and> (\<forall>k. k \<noteq> key \<longrightarrow> cache st' k = cache st k)
    \<and> search_handler env' req' t_next t_set' st' = ((200, failure), st')"
proof -
  have k: "search_key query page = key"
    by (simp add: search_key_def assms(2))
  have miss: "cache_get t_get (search_key query page) st = None"
    using assms(3) by (simp add: k)
  have first: "search_handler env req t_get t_set st =
     ((200, failure),
      cache_set t_set key failure
        (st\<lparr>requests := requests st @ [search_url env query (show_int page)]\<rparr>))"
    using search_handler_no_match [OF assms(1) miss assms(4-6), of t_set] assms(7)
    by (simp add: js_or_def k)
  then have entry: "cache st' key = Some (failure, t_set + stdTTL * 1000)"
    using assms(8) by (simp add: cache_set_def)
  have others: "\<forall>k. k \<noteq> key \<longrightarrow> cache st' k = cache st k"
    using first assms(8) by (simp add: cache_set_def)
  have "cache_get t_next (search_key query page) st' = Some failure"
    using entry assms(10) by (simp add: cache_get_def k)
  then have "search_handler env' req' t_next t_set' st' = ((200, failure), st')"
    using assms(9) by (rule search_handler_hit [rotated])
  then show ?thesis
    using first entry others assms(7) by simp
qed

theorem search_no_match_cached_witness:
  "searchSchema_validate batman_request = Inr (''batman'', 1)
   \<and> searchSchema_validate (search_request ''batman'' (PageInteger 1)) = Inr (''batman'', 1)
   \<and> cache_get 0 ''search:batman:1'' empty_state = None
   \<and> fst (search_handler no_match_provider batman_request 0 5 empty_state) =
        (200, Failure (JStr ''Movie not found!''))
   \<and> cache (snd (search_handler no_match_provider batman_request 0 5 empty_state)) ''search:batman:1'' =
        Some (Failure (JStr ''Movie not found!''), 3600005)
   \<and> cache (snd (search_handler no_match_provider batman_request 0 5 empty_state)) ''search:batman:2'' = None
   \<and> search_handler provider_down (search_request ''batman'' (PageInteger 1)) 3600005 3600009
        (snd (search_handler no_match_provider batman_request 0 5 empty_state)) =
        ((200, Failure (JStr ''Movie not found!'')),
         snd (search_handler no_match_provider batman_request 0 5 empty_state))"
proof -
  have v: "searchSchema_validate batman_request = Inr (''batman'', 1)"
    by (rule batman_request_valid)
  have v': "searchSchema_validate (search_request ''batman'' (PageInteger 1)) = Inr (''batman'', 1)"
    by (simp add: search_request_def searchSchema_validate_def validate_query_def validate_page_def)
  have k: "''search:batman:1'' = ''search:'' @ ''batman'' @ '':'' @ show_int 1"
    by (simp add: show_int_1)
  have m: "cache_get 0 ''search:batman:1'' empty_state = None"
    by (simp add: cache_get_def empty_state_def)
  have p: "provider_search no_match_provider empty_state ''batman'' 1 =
      Inr (JObj [(''Response'', JStr ''False''), (''Error'', JStr ''Movie not found!'')])"
    by (simp add: provider_search_def no_match_provider_def)
  have n: "\<not> nullish (JObj [(''Response'', JStr ''False''), (''Error'', JStr ''Movie not found!'')])"
    by simp
  have r: "get_prop (JObj [(''Response'', JStr ''False''), (''Error'', JStr ''Movie not found!'')]) ''Response''
      \<noteq> JStr ''True''"
    by simp
  have t: "(3600005::nat) \<le> 5 + stdTTL * 1000"
    by (simp add: stdTTL_def)
  have other: "''search:batman:2'' \<noteq> ''search:batman:1''" by simp
  have none: "cache empty_state ''search:batman:2'' = None" by (simp add: empty_state_def)
  note w = search_no_match_cached [OF v k m p n r refl refl v' t, of provider_down 3600009]
  have a: "fst (search_handler no_match_provider batman_request 0 5 empty_state) =
        (200, Failure (JStr ''Movie not found!''))"
    using w by simp
  have b: "cache (snd (search_handler no_match_provider batman_request 0 5 empty_state)) ''search:batman:1'' =
        Some (Failure (JStr ''Movie not found!''), 3600005)"
    using w by (simp add: stdTTL_def)
  have c: "cache (snd (search_handler no_match_provider batman_request 0 5 empty_state)) ''search:batman:2'' = None"
    using w other none by simp
  have d: "search_handler provider_down (search_request ''batman'' (PageInteger 1)) 3600005 3600009
        (snd (search_handler no_match_provider batman_request 0 5 empty_state)) =
        ((200, Failure (JStr ''Movie not found!'')),
         snd (search_handler no_match_provider batman_request 0 5 empty_state))"
    using w by simp
  show ?thesis
    using v v' m a b c d by simp
qed

subsection \<open>Enrichment keeps the id; the times requests take\<close>

lemma digit_char_cases:
  "digit_char d \<in> set ''0123456789''"
proof -
  define m where "m = d mod 10"
  have "m < 10" by (simp add: m_def)
  then have "m = 0 \<or> m = 1 \<or> m = 2 \<or> m = 3 \<or> m = 4 \<or> m = 5 \<or> m = 6 \<or> m = 7 \<or> m = 8 \<or> m = 9"
    by arith
  then have "''0123456789'' ! m \<in> set ''0123456789''"
    by (elim disjE) simp_all
  then show ?thesis by (simp add: digit_char_def m_def)
qed

lemma show_nat_last: "show_nat n \<noteq> [] \<and> last (show_nat n) = digit_char (n mod 10)"
  by (subst (1 2) show_nat.simps) (simp add: digit_char_def)

lemma show_nat_not_imdbID: "show_nat n \<noteq> ''imdbID''"
proof
  assume "show_nat n = ''imdbID''"
  then have "last (show_nat n) = CHR ''D''" by simp
  then have "digit_char (n mod 10) = CHR ''D''" by (simp add: show_nat_last)
  then show False using digit_char_cases [of "n mod 10"] by auto
qed

lemma imdbID_not_show_nat: "''imdbID'' \<notin> set (map show_nat ns)"
proof
  assume "''imdbID'' \<in> set (map show_nat ns)"
  then obtain n where "show_nat n = ''imdbID''" by auto
  then show False using show_nat_not_imdbID by blast
qed

lemma own_props_imdbID:
  "(case map_of (own_props movie) ''imdbID'' of Some v \<Rightarrow> v | None \<Rightarrow> JUndefined) =
     get_prop movie ''imdbID''"
proof (cases movie)
  case (JArr xs)
  have "map_of (zip (map show_nat [0..<length xs]) xs) ''imdbID'' = None"
    using imdbID_not_show_nat [of "[0..<length xs]"]
    by (subst map_of_zip_is_None) (simp, blast)
  then show ?thesis unfolding JArr by (simp only: own_props.simps get_prop.simps option.case)
next
  case (JStr s)
  have "map_of (zip (map show_nat [0..<length s]) (map (\<lambda>c. JStr [c]) s)) ''imdbID'' = None"
    using imdbID_not_show_nat [of "[0..<length s]"]
    by (subst map_of_zip_is_None) (simp, blast)
  then show ?thesis unfolding JStr by (simp only: own_props.simps get_prop.simps option.case)
qed simp_all

lemma with_details_imdbID:
  "get_prop (with_details movie detailData) ''imdbID'' = get_prop movie ''imdbID''"
  using own_props_imdbID [of movie]
  by (simp add: with_details_def enrichment_fields_def update_conv')

lemma enriched_imdbID: "get_prop (enriched env k movie) ''imdbID'' = get_prop movie ''imdbID''"
  by (simp add: enriched_def with_details_imdbID split: sum.splits)

lemma enriched_detail_throws:
  "detail_throws (fst (axios_get env k (detail_url env (printed (get_prop movie ''imdbID''))))) \<Longrightarrow>
   enriched env k movie = movie"
  by (simp add: enriched_def detail_throws_def split: sum.splits)

lemma with_latencies_simps:
  "fst (axios_get (with_latencies env took) k url) = fst (axios_get env k url)"
  "OMDB_API_KEY (with_latencies env took) = OMDB_API_KEY env"
  "encodeURIComponent (with_latencies env took) = encodeURIComponent env"
  "history_create (with_latencies env took) = history_create env"
  by (simp_all add: with_latencies_def)

lemma with_latencies_urls:
  "search_url (with_latencies env took) = search_url env"
  "detail_url (with_latencies env took) = detail_url env"
  by (simp_all add: fun_eq_iff search_url_def detail_url_def omdb_base_def with_latencies_simps)

lemma makeOMDBRequest_with_latencies:
  "p_outcome (fst (makeOMDBRequest (with_latencies env took) url st)) =
     p_outcome (fst (makeOMDBRequest env url st))"
  "p_logged (fst (makeOMDBRequest (with_latencies env took) url st)) =
     p_logged (fst (makeOMDBRequest env url st))"
  "snd (makeOMDBRequest (with_latencies env took) url st) = snd (makeOMDBRequest env url st)"
  by (simp_all add: makeOMDBRequest_def with_latencies_def split_beta split: sum.splits)

lemma await_with_latencies:
  "await (makeOMDBRequest (with_latencies env took) url st) = await (makeOMDBRequest env url st)"
  by (simp add: awaited with_latencies_simps)

lemma enrich_with_latencies:
  "p_outcome (fst (enrich (with_latencies env took) movie st)) = p_outcome (fst (enrich env movie st))"
  "snd (enrich (with_latencies env took) movie st) = snd (enrich env movie st)"
  by (simp_all add: enrich_def makeOMDBRequest_with_latencies with_latencies_urls split_beta
      split: sum.splits)

lemma fan_out_with_latencies:
  "map p_outcome (fst (fan_out (with_latencies env took) hits st)) = map p_outcome (fst (fan_out env hits st))
   \<and> snd (fan_out (with_latencies env took) hits st) = snd (fan_out env hits st)"
  by (induction hits arbitrary: st) (simp_all add: split_beta enrich_with_latencies)

lemma all_fulfilled:
  "\<forall>e. Inl e \<notin> set rs \<Longrightarrow> \<exists>vs. rs = map Inr vs"
proof (induction rs)
  case Nil
  then show ?case by simp
next
  case (Cons r rs)
  then obtain vs where "rs = map Inr vs" by auto
  moreover obtain v where "r = Inr v" using Cons.prems by (cases r) auto
  ultimately have "r # rs = map Inr (v # vs)" by simp
  then show ?case by (rule exI)
qed

lemma promise_all_outcomes:
  assumes "map p_outcome ps = map p_outcome ps'"
  shows "(\<exists>e e'. promise_all ps = Inl e \<and> promise_all ps' = Inl e') \<or> promise_all ps = promise_all ps'"
proof (cases "\<exists>e. Inl e \<in> set (map p_outcome ps)")
  case True
  then obtain e where e: "Inl e \<in> set (map p_outcome ps)" by blast
  then have e': "Inl e \<in> set (map p_outcome ps')" using assms by simp
  obtain e1 where "promise_all ps = Inl e1"
    using promise_all_rejected [OF e] by blast
  moreover obtain e2 where "promise_all ps' = Inl e2"
    using promise_all_rejected [OF e'] by blast
  ultimately show ?thesis by blast
next
  case False
  then obtain vs where vs: "map p_outcome ps = map Inr vs"
    using all_fulfilled [of "map p_outcome ps"] by blast
  then have "map p_outcome ps' = map Inr vs" using assms by simp
  then have "promise_all ps' = Inr vs" by (rule promise_all_fulfilled)
  moreover have "promise_all ps = Inr vs" using vs by (rule promise_all_fulfilled)
  ultimately show ?thesis by simp
qed

lemma search_fresh_with_latencies:
  "(\<exists>e e'. fst (search_fresh (with_latencies env took) query page ip st) = Inl e
           \<and> fst (search_fresh env query page ip st) = Inl e')
   \<or> fst (search_fresh (with_latencies env took) query page ip st) = fst (search_fresh env query page ip st)"
proof -
  obtain r st1 where req: "await (makeOMDBRequest env (search_url env query (show_int page)) st) = (r, st1)"
    by (cases "await (makeOMDBRequest env (search_url env query (show_int page)) st)")
  have req': "await (makeOMDBRequest (with_latencies env took)
      (search_url (with_latencies env took) query (show_int page)) st) = (r, st1)"
    using req by (simp add: await_with_latencies with_latencies_urls)
  show ?thesis
  proof (cases r)
    case (Inl e)
    then show ?thesis
      using req req' by (simp add: search_fresh_def)
  next
    case (Inr data)
    show ?thesis
    proof (cases "\<not> nullish data \<and> get_prop data ''Response'' = JStr ''True''")
      case True
      show ?thesis
      proof (cases "get_prop data ''Search''")
        case (JArr hits)
        let ?page = "\<lambda>ms. case parseInt (get_prop data ''totalResults'') of
                             Inl e \<Rightarrow> Inl (e, [])
                           | Inr n \<Rightarrow> Inr (SearchPage ms n page (ceil_div_10 n))"
        have A: "fst (search_fresh env query page ip st) =
            (case promise_all (fst (fan_out env hits st1)) of
               Inl e \<Rightarrow> Inl (e, written_after (fst (fan_out env hits st1)))
             | Inr ms \<Rightarrow> ?page ms)"
          using req Inr True JArr by (simp add: search_fresh_def split_beta split: sum.splits)
        have B: "fst (search_fresh (with_latencies env took) query page ip st) =
            (case promise_all (fst (fan_out (with_latencies env took) hits st1)) of
               Inl e \<Rightarrow> Inl (e, written_after (fst (fan_out (with_latencies env took) hits st1)))
             | Inr ms \<Rightarrow> ?page ms)"
          using req' Inr True JArr by (simp add: search_fresh_def split_beta split: sum.splits)
        have "(\<exists>e e'. promise_all (fst (fan_out (with_latencies env took) hits st1)) = Inl e
                      \<and> promise_all (fst (fan_out env hits st1)) = Inl e')
              \<or> promise_all (fst (fan_out (with_latencies env took) hits st1)) = promise_all (fst (fan_out env hits st1))"
          using fan_out_with_latencies [of env took hits st1] by (intro promise_all_outcomes) simp
        then show ?thesis
        proof (elim disjE exE conjE)
          fix e e'
          assume "promise_all (fst (fan_out (with_latencies env took) hits st1)) = Inl e"
            and "promise_all (fst (fan_out env hits st1)) = Inl e'"
          then show ?thesis by (simp add: A B)
        next
          assume eq: "promise_all (fst (fan_out (with_latencies env took) hits st1)) = promise_all (fst (fan_out env hits st1))"
          show ?thesis
          proof (cases "promise_all (fst (fan_out env hits st1))")
            case (Inl e)
            then show ?thesis using eq by (simp add: A B)
          next
            case (Inr ms)
            then show ?thesis using eq by (simp add: A B)
          qed
        qed
      qed (use req req' Inr True in \<open>simp_all add: search_fresh_def\<close>)
    next
      case False
      then have "fst (search_fresh (with_latencies env took) query page ip st) = fst (search_fresh env query page ip st)"
        using req req' Inr by (cases "nullish data") (simp_all add: search_fresh_def)
      then show ?thesis by simp
    qed
  qed
qed

lemma search_handler_with_latencies:
  "fst (search_handler (with_latencies env took) req t_get t_set st) =
   fst (search_handler env req t_get t_set st)"
proof (cases "searchSchema_validate req")
  case (Inl e)
  then show ?thesis by (simp add: search_handler_def)
next
  case (Inr qp)
  obtain query page where qp: "qp = (query, page)" by (cases qp)
  show ?thesis
  proof (cases "cache_get t_get (search_key query page) st")
    case None
    have status: "fst (search_handler env' req t_get t_set st) =
        (case fst (search_fresh env' query page (req_ip req) st) of
           Inl e \<Rightarrow> (500, Failure (JStr ''Internal server error''))
         | Inr response \<Rightarrow> (200, response))" for env'
      using Inr qp None by (simp add: search_handler_miss split_beta split: sum.splits)
    from search_fresh_with_latencies [of env took query page "req_ip req" st]
    show ?thesis
    proof (elim disjE exE conjE)
      fix e e'
      assume "fst (search_fresh (with_latencies env took) query page (req_ip req) st) = Inl e"
        and "fst (search_fresh env query page (req_ip req) st) = Inl e'"
      then show ?thesis by (simp add: status)
    next
      assume "fst (search_fresh (with_latencies env took) query page (req_ip req) st) =
          fst (search_fresh env query page (req_ip req) st)"
      then show ?thesis by (simp add: status)
    qed
  next
    case (Some c)
    then show ?thesis using Inr qp by (simp add: search_handler_def)
  qed
qed

subsection \<open>\<^verbatim>\<open>parseInt\<close> of a decimal numeral\<close>

lemma digit_val_digit_char: "digit_val (digit_char d) = Some (d mod 10)"
proof -
  define m where "m = d mod 10"
  have "m < 10" by (simp add: m_def)
  then have "m = 0 \<or> m = 1 \<or> m = 2 \<or> m = 3 \<or> m = 4 \<or> m = 5 \<or> m = 6 \<or> m = 7 \<or> m = 8 \<or> m = 9"
    by arith
  then have "digit_val (''0123456789'' ! m) = Some m"
    by (elim disjE) (simp_all add: digit_val_def)
  then show ?thesis by (simp add: digit_char_def m_def)
qed

lemma is_digit_digit_char: "is_digit 10 (digit_char d)"
  by (simp add: is_digit_def digit_val_digit_char)

lemma digit_char_plain:
  "\<not> is_space (digit_char d)" "digit_char d \<noteq> CHR ''+''" "digit_char d \<noteq> CHR ''-''"
  "digit_char d \<noteq> CHR ''x''" "digit_char d \<noteq> CHR ''X''"
  using digit_char_cases [of d] by (auto simp: is_space_def)

lemma show_nat_digits: "c \<in> set (show_nat n) \<Longrightarrow> \<exists>d. c = digit_char d"
proof (induction n rule: show_nat.induct)
  case (1 n)
  then show ?case
    by (subst (asm) (2) show_nat.simps) (auto split: if_splits)
qed

lemma show_nat_Cons: "\<exists>d cs. show_nat n = digit_char d # cs"
proof -
  have "show_nat n \<noteq> []" by (simp add: show_nat_last)
  then obtain c cs where cs: "show_nat n = c # cs" by (cases "show_nat n") auto
  then have "c \<in> set (show_nat n)" by simp
  then obtain d where "c = digit_char d" using show_nat_digits by blast
  then show ?thesis using cs by blast
qed

lemma digits_value_snoc:
  "digits_value radix (ds @ [c]) =
     digits_value radix ds * radix + (case digit_val c of Some d \<Rightarrow> d | None \<Rightarrow> 0)"
  by (simp add: digits_value_def)

lemma digits_value_show_nat: "digits_value 10 (show_nat n) = n"
proof (induction n rule: show_nat.induct)
  case (1 n)
  show ?case
  proof (cases "n < 10")
    case True
    then show ?thesis
      by (subst show_nat.simps) (simp add: digits_value_def digit_val_digit_char)
  next
    case False
    then have "digits_value 10 (show_nat (n div 10)) = n div 10"
      using "1.IH" by simp
    then show ?thesis
      using False by (subst show_nat.simps) (simp add: digits_value_snoc digit_val_digit_char)
  qed
qed

lemma parseInt_string_show_nat: "parseInt_string (show_nat n) = Finite (int n)"
proof -
  obtain d cs where s: "show_nat n = digit_char d # cs"
    using show_nat_Cons by blast
  have all: "\<forall>c\<in>set (show_nat n). is_digit 10 c"
    using show_nat_digits is_digit_digit_char by blast
  have drop: "dropWhile is_space (show_nat n) = show_nat n"
    by (simp add: s digit_char_plain)
  have nohex: "take 2 (show_nat n) \<noteq> ''0x''" "take 2 (show_nat n) \<noteq> ''0X''"
  proof -
    have "c \<noteq> CHR ''x'' \<and> c \<noteq> CHR ''X''" if "c \<in> set (take 2 (show_nat n))" for c
    proof -
      from that have "c \<in> set (show_nat n)" by (rule in_set_takeD)
      then obtain d' where "c = digit_char d'" using show_nat_digits by blast
      then show ?thesis by (simp add: digit_char_plain)
    qed
    then show "take 2 (show_nat n) \<noteq> ''0x''" "take 2 (show_nat n) \<noteq> ''0X''"
      by fastforce+
  qed
  have tw: "takeWhile (is_digit 10) (show_nat n) = show_nat n"
    using all by (simp add: takeWhile_eq_all_conv)
  have ne: "show_nat n \<noteq> []" by (simp add: s)
  have hd: "hd (show_nat n) \<noteq> CHR ''+''" "hd (show_nat n) \<noteq> CHR ''-''"
    by (simp_all add: s digit_char_plain)
  show ?thesis
    unfolding parseInt_string_def Let_def drop
    by (simp add: nohex tw ne hd digits_value_show_nat del: takeWhile_eq_all_conv)
qed

lemma parseInt_count:
  "to_string v = Inr (show_nat n) \<Longrightarrow> parseInt_string (printed v) = Finite (int n)"
  by (simp add: printed_def parseInt_string_show_nat)

lemma ceil_div_10_count: "ceil_div_10 (Finite (int n)) = Finite \<lceil>real n / 10\<rceil>"
proof -
  have "\<lceil>real n / 10\<rceil> = \<lceil>real_of_int (int n) / real_of_int 10\<rceil>" by simp
  also have "\<dots> = - (- int n div 10)" by (rule ceiling_divide_eq_div)
  finally show ?thesis by simp
qed

subsection \<open>A search with a match\<close>

lemma batman_miss: "cache_get 0 (search_key ''batman'' 1) empty_state = None"
  by (simp add: cache_get_def empty_state_def)

lemma batman_provider_search:
  "provider_search batman_provider empty_state ''batman'' 1 = Inr batman_page"
  by (simp add: provider_search_def batman_provider_def empty_state_def)

lemma batman_page_props:
  "get_prop batman_page ''Response'' = JStr ''True''"
  "get_prop batman_page ''Search'' = JArr [batman_begins, dark_knight]"
  "get_prop batman_page ''totalResults'' = JStr ''95''"
  by (simp_all add: batman_page_def)

lemma batman_hits_requestable: "\<forall>h\<in>set [batman_begins, dark_knight]. requestable h"
  by (simp add: batman_begins_def dark_knight_def requestable_def converts_def)

lemma batman_count_converts: "converts (get_prop batman_page ''totalResults'')"
  by (simp add: batman_page_props converts_def)

lemma batman_count: "parseInt_string (printed (get_prop batman_page ''totalResults'')) = Finite 95"
  using parseInt_count [of "get_prop batman_page ''totalResults''" 95]
  by (simp add: batman_page_props show_nat.simps digit_char_def)

text \<open>
  Claim C2. On a matched page (the provider's payload has \<^verbatim>\<open>Response: "True"\<close>, an
  array \<^verbatim>\<open>Search\<close> of hits, none of them \<^verbatim>\<open>null\<close> and each with an id that converts to
  a string, and a \<^verbatim>\<open>totalResults\<close> that converts to a string), when the detail request
  for the hit at index \<open>i\<close> fails, the handler still answers with status 200 and a page of
  as many movies as the provider sent hits, and the movie at index \<open>i\<close> is the hit itself:
  every field of the summary is as the provider sent it and no field is added, so a hit
  without enrichment fields gives a movie without them.
\<close>

theorem enrichment_failure_degrades:
  assumes "searchSchema_validate req = Inr (query, page)"
    and "cache_get t_get (search_key query page) st = None"
    and "provider_search env st query page = Inr data"
    and "get_prop data ''Response'' = JStr ''True''"
    and "get_prop data ''Search'' = JArr hits"
    and "\<forall>h\<in>set hits. requestable h"
    and "converts (get_prop data ''totalResults'')"
    and "i < length hits"
    and "detail_throws (provider_detail env st i (hits ! i))"
  shows "\<exists>movies totalResults totalPages.
      fst (search_handler env req t_get t_set st) = (200, SearchPage movies totalResults page totalPages)
    \<and> length movies = length hits
    \<and> movies ! i = hits ! i
    \<and> ((\<forall>k\<in>set enrichment_fields. get_prop (hits ! i) k = JUndefined)
         \<longrightarrow> (\<forall>k\<in>set enrichment_fields. get_prop (movies ! i) k = JUndefined))"
proof -
  let ?movies = "map (\<lambda>i. enriched env (Suc (length (requests st)) + i) (hits ! i)) [0..<length hits]"
  let ?total = "parseInt_string (printed (get_prop data ''totalResults''))"
  have "enriched env (Suc (length (requests st)) + i) (hits ! i) = hits ! i"
    using assms(9) by (intro enriched_detail_throws) (simp add: provider_detail_def)
  then have "?movies ! i = hits ! i"
    using assms(8) by simp
  moreover have "length ?movies = length hits" by simp
  moreover note search_handler_matched [OF assms(1-7), of t_set]
  ultimately show ?thesis
    by (intro exI [of _ ?movies] exI [of _ ?total] exI [of _ "ceil_div_10 ?total"]) simp
qed

theorem enrichment_failure_degrades_witness:
  "searchSchema_validate batman_request = Inr (''batman'', 1)
   \<and> cache_get 0 (search_key ''batman'' 1) empty_state = None
   \<and> provider_search batman_provider empty_state ''batman'' 1 = Inr batman_page
   \<and> get_prop batman_page ''Search'' = JArr [batman_begins, dark_knight]
   \<and> provider_detail batman_provider empty_state 0 batman_begins = Inl ''timeout of 10000ms exceeded''
   \<and> (\<exists>movies totalResults totalPages.
         fst (search_handler batman_provider batman_request 0 5 empty_state) =
           (200, SearchPage movies totalResults 1 totalPages)
       \<and> length movies = 2
       \<and> movies ! 0 = batman_begins
       \<and> get_prop (movies ! 0) ''Plot'' = JUndefined)"
proof -
  have d: "provider_detail batman_provider empty_state 0 batman_begins = Inl ''timeout of 10000ms exceeded''"
    by (simp add: provider_detail_def batman_provider_def empty_state_def)
  then have t: "detail_throws (provider_detail batman_provider empty_state 0 ([batman_begins, dark_knight] ! 0))"
    by (simp add: detail_throws_def)
  have i: "0 < length [batman_begins, dark_knight]" by simp
  have plain: "\<forall>k\<in>set enrichment_fields. get_prop ([batman_begins, dark_knight] ! 0) k = JUndefined"
    by (simp add: enrichment_fields_def batman_begins_def)
  from enrichment_failure_degrades [OF batman_request_valid batman_miss batman_provider_search
      batman_page_props(1,2) batman_hits_requestable batman_count_converts i t, of 5]
  obtain movies totalResults totalPages where
    "fst (search_handler batman_provider batman_request 0 5 empty_state) =
       (200, SearchPage movies totalResults 1 totalPages)"
    "length movies = 2" "movies ! 0 = batman_begins"
    "\<forall>k\<in>set enrichment_fields. get_prop (movies ! 0) k = JUndefined"
    using plain by auto
  then have "\<exists>movies totalResults totalPages.
         fst (search_handler batman_provider batman_request 0 5 empty_state) =
           (200, SearchPage movies totalResults 1 totalPages)
       \<and> length movies = 2
       \<and> movies ! 0 = batman_begins
       \<and> get_prop (movies ! 0) ''Plot'' = JUndefined"
    by (auto simp: enrichment_fields_def)
  then show ?thesis
    using batman_request_valid batman_miss batman_provider_search batman_page_props(2) d by simp
qed

text \<open>
  Claim C3. When a search that missed the cache is answered with a page of movies, the ids
  of the movies are the ids of the provider's hits in the provider's order; and the answer
  is the same whatever time each request takes, that is in whatever order the enrichment
  requests complete.
\<close>

theorem search_order_preserved:
  assumes "searchSchema_validate req = Inr (query, page)"
    and "cache_get t_get (search_key query page) st = None"
    and "provider_search env st query page = Inr data"
    and "get_prop data ''Response'' = JStr ''True''"
    and "get_prop data ''Search'' = JArr hits"
    and "fst (search_handler env req t_get t_set st) =
           (200, SearchPage movies totalResults currentPage totalPages)"
  shows "map (\<lambda>movie. get_prop movie ''imdbID'') movies = map (\<lambda>hit. get_prop hit ''imdbID'') hits
    \<and> fst (search_handler (with_latencies env took) req t_get t_set st) =
        (200, SearchPage movies totalResults currentPage totalPages)"
proof -
  have ok: "(\<forall>h\<in>set hits. requestable h) \<and> converts (get_prop data ''totalResults'')"
  proof (rule ccontr)
    assume "\<not> ((\<forall>h\<in>set hits. requestable h) \<and> converts (get_prop data ''totalResults''))"
    then have "(\<exists>h\<in>set hits. \<not> requestable h) \<or> \<not> converts (get_prop data ''totalResults'')"
      by blast
    then have "fst (search_handler env req t_get t_set st) = (500, Failure (JStr ''Internal server error''))"
      by (rule search_handler_throws [OF assms(1-5)])
    then show False using assms(6) by simp
  qed
  then have r: "\<forall>h\<in>set hits. requestable h" and c: "converts (get_prop data ''totalResults'')"
    by simp_all
  have "movies = map (\<lambda>i. enriched env (Suc (length (requests st)) + i) (hits ! i)) [0..<length hits]"
    using search_handler_matched [OF assms(1-5) r c, of t_set] assms(6) by simp
  then have "map (\<lambda>movie. get_prop movie ''imdbID'') movies =
      map (\<lambda>i. get_prop (hits ! i) ''imdbID'') [0..<length hits]"
    by (simp add: enriched_imdbID)
  also have "\<dots> = map (\<lambda>hit. get_prop hit ''imdbID'') hits"
    by (rule nth_equalityI) simp_all
  finally show ?thesis
    using assms(6) by (simp add: search_handler_with_latencies)
qed

lemma batman_keys:
  "map settle_key (fst (fan_out batman_provider [batman_begins, dark_knight]
      (empty_state\<lparr>requests := [search_url batman_provider ''batman'' ''1'']\<rparr>))) = [10001, 81]"
  by (simp add: enrich_def makeOMDBRequest_def settle_key_def batman_provider_def
      batman_begins_def dark_knight_def split_beta)

theorem search_order_preserved_witness:
  "map (\<lambda>movie. get_prop movie ''imdbID'')
      (movies_of (snd (fst (search_handler batman_provider batman_request 0 5 empty_state)))) =
     [JStr ''tt0372784'', JStr ''tt0468569'']
   \<and> map settle_key (fst (fan_out batman_provider [batman_begins, dark_knight]
        (empty_state\<lparr>requests := [search_url batman_provider ''batman'' ''1'']\<rparr>))) = [10001, 81]
   \<and> settle_order [10001, 81] = [1, 0]
   \<and> fst (search_handler (with_latencies batman_provider (\<lambda>k url. 7 * k)) batman_request 0 5 empty_state) =
       fst (search_handler batman_provider batman_request 0 5 empty_state)"
proof -
  define movies where "movies =
     map (\<lambda>i. enriched batman_provider (Suc (length (requests empty_state)) + i) ([batman_begins, dark_knight] ! i))
       [0..<length [batman_begins, dark_knight]]"
  have response: "fst (search_handler batman_provider batman_request 0 5 empty_state) =
     (200, SearchPage movies (parseInt_string (printed (get_prop batman_page ''totalResults''))) 1
             (ceil_div_10 (parseInt_string (printed (get_prop batman_page ''totalResults'')))))"
    unfolding movies_def
    by (rule search_handler_matched [OF batman_request_valid batman_miss batman_provider_search
          batman_page_props(1,2) batman_hits_requestable batman_count_converts])
  note t = search_order_preserved [OF batman_request_valid batman_miss batman_provider_search
      batman_page_props(1,2) response, of "\<lambda>k url. 7 * k"]
  have ids: "map (\<lambda>hit. get_prop hit ''imdbID'') [batman_begins, dark_knight] =
      [JStr ''tt0372784'', JStr ''tt0468569'']"
    by (simp add: batman_begins_def dark_knight_def)
  have order: "settle_order [10001, 81] = [1, 0]"
    by (simp add: settle_order_def upt_rec)
  show ?thesis
    using t ids order batman_keys by (simp add: response movies_of_def)
qed

text \<open>
  Claim C6. On a matched page whose \<^verbatim>\<open>totalResults\<close> reads as the decimal numeral of a
  count \<open>n\<close> (below \<open>2 ^ 53\<close>, where a double is exact), and on which no hit is \<^verbatim>\<open>null\<close>
  and the id of every hit converts to a string, the response carries \<open>totalResults = n\<close>
  and \<open>totalPages = \<lceil>n / 10\<rceil>\<close>; 95 and 100 results give 10 pages, 101 results give 11.
\<close>

theorem search_pagination:
  assumes "searchSchema_validate req = Inr (query, page)"
    and "cache_get t_get (search_key query page) st = None"
    and "provider_search env st query page = Inr data"
    and "get_prop data ''Response'' = JStr ''True''"
    and "get_prop data ''Search'' = JArr hits"
    and "\<forall>h\<in>set hits. requestable h"
    and "to_string (get_prop data ''totalResults'') = Inr (show_nat n)"
    and "n < 2 ^ 53"
  shows "(\<exists>movies. fst (search_handler env req t_get t_set st) =
            (200, SearchPage movies (Finite (int n)) page (Finite \<lceil>real n / 10\<rceil>)))
    \<and> ceil_div_10 (Finite 95) = Finite 10
    \<and> ceil_div_10 (Finite 100) = Finite 10
    \<and> ceil_div_10 (Finite 101) = Finite 11"
proof -
  have c: "converts (get_prop data ''totalResults'')"
    using assms(7) by (simp add: converts_def)
  have "parseInt_string (printed (get_prop data ''totalResults'')) = Finite (int n)"
    using assms(7) by (rule parseInt_count)
  then have "fst (search_handler env req t_get t_set st) =
     (200, SearchPage
             (map (\<lambda>i. enriched env (Suc (length (requests st)) + i) (hits ! i)) [0..<length hits])
             (Finite (int n)) page (Finite \<lceil>real n / 10\<rceil>))"
    using search_handler_matched [OF assms(1-6) c, of t_set]
    by (simp only: ceil_div_10_count)
  then show ?thesis by simp
qed

theorem search_pagination_witness:
  "searchSchema_validate batman_request = Inr (''batman'', 1)
   \<and> cache_get 0 (search_key ''batman'' 1) empty_state = None
   \<and> provider_search batman_provider empty_state ''batman'' 1 = Inr batman_page
   \<and> get_prop batman_page ''totalResults'' = JStr ''95''
   \<and> (\<exists>movies. fst (search_handler batman_provider batman_request 0 5 empty_state) =
         (200, SearchPage movies (Finite 95) 1 (Finite 10)))"
proof -
  have count: "to_string (get_prop batman_page ''totalResults'') = Inr (show_nat 95)"
    by (simp add: batman_page_props show_nat.simps digit_char_def)
  have small: "(95::nat) < 2 ^ 53" by simp
  from search_pagination [OF batman_request_valid batman_miss batman_provider_search
      batman_page_props(1,2) batman_hits_requestable count small, of 5]
  have "\<exists>movies. fst (search_handler batman_provider batman_request 0 5 empty_state) =
         (200, SearchPage movies (Finite 95) 1 (Finite 10))"
    by simp
  then show ?thesis
    using batman_request_valid batman_miss batman_provider_search batman_page_props(3) by simp
qed

subsection \<open>The search history\<close>

lemma makeOMDBRequest_history:
  "makeOMDBRequest (env\<lparr>history_create := f\<rparr>) url (st\<lparr>isMongoConnected := b\<rparr>) =
     (fst (makeOMDBRequest env url st), (snd (makeOMDBRequest env url st))\<lparr>isMongoConnected := b\<rparr>)"
  by (simp add: makeOMDBRequest_def split_beta split: sum.splits)

lemma await_history:
  "await (makeOMDBRequest (env\<lparr>history_create := f\<rparr>) url (st\<lparr>isMongoConnected := b\<rparr>)) =
     (fst (await (makeOMDBRequest env url st)),
      (snd (await (makeOMDBRequest env url st)))\<lparr>isMongoConnected := b\<rparr>)"
  by (simp add: awaited split: sum.splits)

lemma urls_history:
  "search_url (env\<lparr>history_create := f\<rparr>) = search_url env"
  "detail_url (env\<lparr>history_create := f\<rparr>) = detail_url env"
  by (simp_all add: fun_eq_iff search_url_def detail_url_def omdb_base_def)

lemma enrich_history:
  "enrich (env\<lparr>history_create := f\<rparr>) movie (st\<lparr>isMongoConnected := b\<rparr>) =
     (fst (enrich env movie st), (snd (enrich env movie st))\<lparr>isMongoConnected := b\<rparr>)"
  by (simp add: enrich_def makeOMDBRequest_history urls_history split_beta split: sum.splits)

lemma fan_out_history:
  "fan_out (env\<lparr>history_create := f\<rparr>) hits (st\<lparr>isMongoConnected := b\<rparr>) =
     (fst (fan_out env hits st), (snd (fan_out env hits st))\<lparr>isMongoConnected := b\<rparr>)"
  by (induction hits arbitrary: st) (simp_all add: split_beta enrich_history)

lemma search_fresh_history:
  "fst (search_fresh (env\<lparr>history_create := f\<rparr>) query page ip (st\<lparr>isMongoConnected := b\<rparr>)) =
   fst (search_fresh env query page ip st)"
  by (simp add: search_fresh_def await_history urls_history fan_out_history split_beta
      split: sum.splits jsval.splits)

lemma search_handler_history:
  "fst (search_handler (env\<lparr>history_create := f\<rparr>) req t_get t_set (st\<lparr>isMongoConnected := b\<rparr>)) =
   fst (search_handler env req t_get t_set st)"
proof -
  have "fst (search_fresh (env\<lparr>history_create := f\<rparr>) query page (req_ip req) (st\<lparr>isMongoConnected := b\<rparr>)) =
      fst (search_fresh env query page (req_ip req) st)" for query page
    by (rule search_fresh_history)
  then show ?thesis
    by (simp add: search_handler_def cache_get_def split_beta split: sum.splits option.splits)
qed

lemma search_fresh_searchHistory:
  "searchHistory (snd (search_fresh env query page ip st)) = searchHistory st
   \<or> (\<exists>movies totalResults totalPages.
        fst (search_fresh env query page ip st) = Inr (SearchPage movies totalResults page totalPages)
        \<and> searchHistory (snd (search_fresh env query page ip st)) =
            searchHistory st @ [\<lparr>hist_query = query, hist_results = totalResults, hist_userIP = ip\<rparr>])"
  by (simp add: search_fresh_def split_beta awaited_state fan_out_frame
      save_history_def Let_def split: sum.splits jsval.splits option.splits)

lemma search_handler_searchHistory:
  "searchHistory (snd (search_handler env req t_get t_set st)) = searchHistory st
   \<or> (\<exists>query page movies totalResults totalPages.
        searchSchema_validate req = Inr (query, page)
        \<and> fst (search_handler env req t_get t_set st) = (200, SearchPage movies totalResults page totalPages)
        \<and> searchHistory (snd (search_handler env req t_get t_set st)) =
            searchHistory st @ [\<lparr>hist_query = query, hist_results = totalResults, hist_userIP = req_ip req\<rparr>])"
proof (cases "searchSchema_validate req")
  case (Inl e)
  then show ?thesis by (simp add: search_handler_def)
next
  case (Inr qp)
  obtain query page where qp: "qp = (query, page)" by (cases qp)
  show ?thesis
  proof (cases "cache_get t_get (search_key query page) st")
    case (Some c)
    then show ?thesis using Inr qp by (simp add: search_handler_def)
  next
    case None
    note miss = search_handler_miss [OF Inr [unfolded qp] None, of env t_set]
    from search_fresh_searchHistory [of env query page "req_ip req" st]
    show ?thesis
    proof (elim disjE exE conjE)
      assume "searchHistory (snd (search_fresh env query page (req_ip req) st)) = searchHistory st"
      then have "searchHistory (snd (search_handler env req t_get t_set st)) = searchHistory st"
        by (simp add: miss split_beta cache_set_def split: sum.splits)
      then show ?thesis by simp
    next
      fix movies totalResults totalPages
      assume r: "fst (search_fresh env query page (req_ip req) st) =
            Inr (SearchPage movies totalResults page totalPages)"
        and h: "searchHistory (snd (search_fresh env query page (req_ip req) st)) =
            searchHistory st @ [\<lparr>hist_query = query, hist_results = totalResults, hist_userIP = req_ip req\<rparr>]"
      have "fst (search_handler env req t_get t_set st) = (200, SearchPage movies totalResults page totalPages)"
        using r by (simp add: miss split_beta)
      moreover have "searchHistory (snd (search_handler env req t_get t_set st)) =
            searchHistory st @ [\<lparr>hist_query = query, hist_results = totalResults, hist_userIP = req_ip req\<rparr>]"
        using r h by (simp add: miss split_beta cache_set_def)
      ultimately show ?thesis using Inr qp by blast
    qed
  qed
qed

lemma search_handler_history_fails:
  assumes "searchSchema_validate req = Inr (query, page)"
    and "cache_get t_get (search_key query page) st = None"
    and "provider_search env st query page = Inr data"
    and "get_prop data ''Response'' = JStr ''True''"
    and "get_prop data ''Search'' = JArr hits"
    and "\<forall>h\<in>set hits. requestable h"
    and "converts (get_prop data ''totalResults'')"
    and "isMongoConnected st"
    and "history_create env (length (searchHistory st))
           \<lparr>hist_query = query, hist_results = parseInt_string (printed (get_prop data ''totalResults'')),
            hist_userIP = req_ip req\<rparr> = Some dbError"
  shows "searchHistory (snd (search_handler env req t_get t_set st)) = searchHistory st"
    and "\<exists>logged. console (snd (search_handler env req t_get t_set st)) = logged @ [DatabaseError dbError]"
proof -
  obtain st3 where st3: "snd (search_fresh env query page (req_ip req) st) =
           save_history env query (parseInt_string (printed (get_prop data ''totalResults''))) (req_ip req) st3"
    and frame: "searchHistory st3 = searchHistory st" "isMongoConnected st3 = isMongoConnected st"
    using search_fresh_matched_state [OF assms(3-7), of "req_ip req"] by blast
  have saved: "save_history env query (parseInt_string (printed (get_prop data ''totalResults''))) (req_ip req) st3 =
      st3\<lparr>console := console st3 @ [DatabaseError dbError]\<rparr>"
    using assms(8,9) frame by (simp add: save_history_def)
  obtain r where r: "fst (search_fresh env query page (req_ip req) st) = Inr r"
    using search_fresh_matched [OF assms(3-7)] by blast
  have "snd (search_handler env req t_get t_set st) =
      cache_set t_set (search_key query page) r (st3\<lparr>console := console st3 @ [DatabaseError dbError]\<rparr>)"
    using r st3 saved
    by (simp add: search_handler_miss [OF assms(1,2)] split_beta)
  then show "searchHistory (snd (search_handler env req t_get t_set st)) = searchHistory st"
    and "\<exists>logged. console (snd (search_handler env req t_get t_set st)) = logged @ [DatabaseError dbError]"
    using frame by (simp_all add: cache_set_def)
qed

lemma search_handler_history_saved:
  assumes "searchSchema_validate req = Inr (query, page)"
    and "cache_get t_get (search_key query page) st = None"
    and "provider_search env st query page = Inr data"
    and "get_prop data ''Response'' = JStr ''True''"
    and "get_prop data ''Search'' = JArr hits"
    and "\<forall>h\<in>set hits. requestable h"
    and "converts (get_prop data ''totalResults'')"
    and "isMongoConnected st"
    and "history_create env (length (searchHistory st))
           \<lparr>hist_query = query, hist_results = parseInt_string (printed (get_prop data ''totalResults'')),
            hist_userIP = req_ip req\<rparr> = None"
  shows "searchHistory (snd (search_handler env req t_get t_set st)) =
     searchHistory st @
       [\<lparr>hist_query = query, hist_results = parseInt_string (printed (get_prop data ''totalResults'')),
         hist_userIP = req_ip req\<rparr>]"
proof -
  obtain st3 where st3: "snd (search_fresh env query page (req_ip req) st) =
           save_history env query (parseInt_string (printed (get_prop data ''totalResults''))) (req_ip req) st3"
    and frame: "searchHistory st3 = searchHistory st" "isMongoConnected st3 = isMongoConnected st"
    using search_fresh_matched_state [OF assms(3-7), of "req_ip req"] by blast
  have saved: "save_history env query (parseInt_string (printed (get_prop data ''totalResults''))) (req_ip req) st3 =
      st3\<lparr>searchHistory := searchHistory st3 @
        [\<lparr>hist_query = query, hist_results = parseInt_string (printed (get_prop data ''totalResults'')),
          hist_userIP = req_ip req\<rparr>]\<rparr>"
    using assms(8,9) frame by (simp add: save_history_def)
  obtain r where r: "fst (search_fresh env query page (req_ip req) st) = Inr r"
    using search_fresh_matched [OF assms(3-7)] by blast
  have "snd (search_handler env req t_get t_set st) =
      cache_set t_set (search_key query page) r
        (st3\<lparr>searchHistory := searchHistory st3 @
          [\<lparr>hist_query = query, hist_results = parseInt_string (printed (get_prop data ''totalResults'')),
            hist_userIP = req_ip req\<rparr>]\<rparr>)"
    using r st3 saved
    by (simp add: search_handler_miss [OF assms(1,2)] split_beta)
  then show ?thesis
    using frame by (simp add: cache_set_def)
qed

text \<open>
  Claim C9. A search request changes the stored search history only when it is valid and
  answered with a page of movies, and then it appends one document with the query, the
  page's \<^verbatim>\<open>totalResults\<close> and the caller's address. The status and body of the answer
  do not depend on whether the database is connected nor on what
  \<^verbatim>\<open>SearchHistory.create\<close> does. When, on a matched page (no hit is \<^verbatim>\<open>null\<close>, and
  the id of every hit and \<^verbatim>\<open>totalResults\<close> convert to strings) with the database
  connected, \<^verbatim>\<open>SearchHistory.create\<close> fails, the handler still answers with status 200
  and success, the history is unchanged and the error is written to the console.
\<close>

theorem search_history_side_effect:
  "(searchHistory (snd (search_handler env req t_get t_set st)) \<noteq> searchHistory st \<longrightarrow>
      (\<exists>query page movies totalResults totalPages.
          searchSchema_validate req = Inr (query, page)
        \<and> fst (search_handler env req t_get t_set st) =
             (200, SearchPage movies totalResults page totalPages)
        \<and> searchHistory (snd (search_handler env req t_get t_set st)) =
             searchHistory st @
               [\<lparr>hist_query = query, hist_results = totalResults, hist_userIP = req_ip req\<rparr>]))
   \<and> fst (search_handler (env\<lparr>history_create := create\<rparr>) req t_get t_set (st\<lparr>isMongoConnected := mongo_up\<rparr>)) =
       fst (search_handler env req t_get t_set st)
   \<and> (searchSchema_validate req = Inr (query, page)
        \<and> cache_get t_get (search_key query page) st = None
        \<and> provider_search env st query page = Inr data
        \<and> get_prop data ''Response'' = JStr ''True''
        \<and> get_prop data ''Search'' = JArr hits
        \<and> (\<forall>h\<in>set hits. requestable h)
        \<and> converts (get_prop data ''totalResults'')
        \<and> isMongoConnected st
        \<and> history_create env (length (searchHistory st))
             \<lparr>hist_query = query,
              hist_results = parseInt_string (printed (get_prop data ''totalResults'')),
              hist_userIP = req_ip req\<rparr> = Some dbError
      \<longrightarrow> fst (fst (search_handler env req t_get t_set st)) = 200
        \<and> success (snd (fst (search_handler env req t_get t_set st)))
        \<and> searchHistory (snd (search_handler env req t_get t_set st)) = searchHistory st
        \<and> (\<exists>logged. console (snd (search_handler env req t_get t_set st)) =
              logged @ [DatabaseError dbError]))"
proof (intro conjI impI)
  assume "searchHistory (snd (search_handler env req t_get t_set st)) \<noteq> searchHistory st"
  then show "\<exists>query page movies totalResults totalPages.
          searchSchema_validate req = Inr (query, page)
        \<and> fst (search_handler env req t_get t_set st) =
             (200, SearchPage movies totalResults page totalPages)
        \<and> searchHistory (snd (search_handler env req t_get t_set st)) =
             searchHistory st @
               [\<lparr>hist_query = query, hist_results = totalResults, hist_userIP = req_ip req\<rparr>]"
    using search_handler_searchHistory [of env req t_get t_set st] by blast
next
  show "fst (search_handler (env\<lparr>history_create := create\<rparr>) req t_get t_set (st\<lparr>isMongoConnected := mongo_up\<rparr>)) =
       fst (search_handler env req t_get t_set st)"
    by (rule search_handler_history)
next
  assume a: "searchSchema_validate req = Inr (query, page)
        \<and> cache_get t_get (search_key query page) st = None
        \<and> provider_search env st query page = Inr data
        \<and> get_prop data ''Response'' = JStr ''True''
        \<and> get_prop data ''Search'' = JArr hits
        \<and> (\<forall>h\<in>set hits. requestable h)
        \<and> converts (get_prop data ''totalResults'')
        \<and> isMongoConnected st
        \<and> history_create env (length (searchHistory st))
             \<lparr>hist_query = query,
              hist_results = parseInt_string (printed (get_prop data ''totalResults'')),
              hist_userIP = req_ip req\<rparr> = Some dbError"
  then have v: "searchSchema_validate req = Inr (query, page)"
    and c: "cache_get t_get (search_key query page) st = None"
    and p: "provider_search env st query page = Inr data"
    and r: "get_prop data ''Response'' = JStr ''True''"
    and h: "get_prop data ''Search'' = JArr hits"
    and n: "\<forall>h\<in>set hits. requestable h"
    and k: "converts (get_prop data ''totalResults'')"
    and u: "isMongoConnected st"
    and e: "history_create env (length (searchHistory st))
             \<lparr>hist_query = query,
              hist_results = parseInt_string (printed (get_prop data ''totalResults'')),
              hist_userIP = req_ip req\<rparr> = Some dbError"
    by simp_all
  have m: "fst (search_handler env req t_get t_set st) =
     (200, SearchPage
             (map (\<lambda>i. enriched env (Suc (length (requests st)) + i) (hits ! i)) [0..<length hits])
             (parseInt_string (printed (get_prop data ''totalResults'')))
             page
             (ceil_div_10 (parseInt_string (printed (get_prop data ''totalResults'')))))"
    by (rule search_handler_matched [OF v c p r h n k])
  show "fst (fst (search_handler env req t_get t_set st)) = 200" by (simp add: m)
  show "success (snd (fst (search_handler env req t_get t_set st)))" by (simp add: m)
  show "searchHistory (snd (search_handler env req t_get t_set st)) = searchHistory st"
    by (rule search_handler_history_fails(1) [OF v c p r h n k u e])
  show "\<exists>logged. console (snd (search_handler env req t_get t_set st)) = logged @ [DatabaseError dbError]"
    by (rule search_handler_history_fails(2) [OF v c p r h n k u e])
qed

lemma failing_history_provider_search:
  "provider_search (failing_history batman_provider) empty_state ''batman'' 1 = Inr batman_page"
  by (simp add: provider_search_def failing_history_def batman_provider_def empty_state_def)

theorem search_history_side_effect_witness:
  "searchHistory (snd (search_handler batman_provider batman_request 0 5 empty_state)) \<noteq>
      searchHistory empty_state
   \<and> (\<exists>movies totalPages.
         fst (search_handler batman_provider batman_request 0 5 empty_state) =
           (200, SearchPage movies (Finite 95) 1 totalPages)
       \<and> searchHistory (snd (search_handler batman_provider batman_request 0 5 empty_state)) =
           [\<lparr>hist_query = ''batman'', hist_results = Finite 95, hist_userIP = ''::1''\<rparr>])
   \<and> fst (search_handler (failing_history batman_provider) batman_request 0 5 empty_state) =
       fst (search_handler batman_provider batman_request 0 5 empty_state)
   \<and> isMongoConnected empty_state
   \<and> success (snd (fst (search_handler (failing_history batman_provider) batman_request 0 5 empty_state)))
   \<and> searchHistory (snd (search_handler (failing_history batman_provider) batman_request 0 5 empty_state)) = []
   \<and> (\<exists>logged. console (snd (search_handler (failing_history batman_provider) batman_request 0 5 empty_state)) =
         logged @ [DatabaseError ''Operation searchhistories.insertOne() buffering timed out''])"
proof -
  have up: "isMongoConnected empty_state" by (simp add: empty_state_def)
  have ip: "req_ip batman_request = ''::1''"
    by (simp add: batman_request_def search_request_def)
  have created: "history_create batman_provider (length (searchHistory empty_state))
      \<lparr>hist_query = ''batman'', hist_results = parseInt_string (printed (get_prop batman_page ''totalResults'')),
        hist_userIP = req_ip batman_request\<rparr> = None"
    by (simp add: batman_provider_def)
  have stored: "searchHistory (snd (search_handler batman_provider batman_request 0 5 empty_state)) =
      [\<lparr>hist_query = ''batman'', hist_results = Finite 95, hist_userIP = ''::1''\<rparr>]"
    using search_handler_history_saved [OF batman_request_valid batman_miss batman_provider_search
        batman_page_props(1,2) batman_hits_requestable batman_count_converts up created, of 5]
    by (simp add: batman_count ip empty_state_def)
  then have changed: "searchHistory (snd (search_handler batman_provider batman_request 0 5 empty_state)) \<noteq>
      searchHistory empty_state"
    by (simp add: empty_state_def)
  note t1 = search_history_side_effect [of batman_provider batman_request 0 5 empty_state
      "\<lambda>k doc. Some ''Operation searchhistories.insertOne() buffering timed out''" True]
  have one: "\<exists>movies totalPages.
         fst (search_handler batman_provider batman_request 0 5 empty_state) =
           (200, SearchPage movies (Finite 95) 1 totalPages)
       \<and> searchHistory (snd (search_handler batman_provider batman_request 0 5 empty_state)) =
           [\<lparr>hist_query = ''batman'', hist_results = Finite 95, hist_userIP = ''::1''\<rparr>]"
    using t1 changed stored batman_request_valid by (auto simp: empty_state_def)
  have same_state: "empty_state\<lparr>isMongoConnected := True\<rparr> = empty_state"
    by (simp add: empty_state_def)
  have two: "fst (search_handler (failing_history batman_provider) batman_request 0 5 empty_state) =
       fst (search_handler batman_provider batman_request 0 5 empty_state)"
    using t1 by (simp add: failing_history_def same_state)
  have fails: "history_create (failing_history batman_provider) (length (searchHistory empty_state))
      \<lparr>hist_query = ''batman'', hist_results = parseInt_string (printed (get_prop batman_page ''totalResults'')),
        hist_userIP = req_ip batman_request\<rparr> = Some ''Operation searchhistories.insertOne() buffering timed out''"
    by (simp add: failing_history_def)
  note t3 = search_history_side_effect [of "failing_history batman_provider" batman_request 0 5 empty_state
      _ _ "''batman''" 1 batman_page "[batman_begins, dark_knight]"
      "''Operation searchhistories.insertOne() buffering timed out''"]
  have three: "success (snd (fst (search_handler (failing_history batman_provider) batman_request 0 5 empty_state)))
     \<and> searchHistory (snd (search_handler (failing_history batman_provider) batman_request 0 5 empty_state)) = []
     \<and> (\<exists>logged. console (snd (search_handler (failing_history batman_provider) batman_request 0 5 empty_state)) =
         logged @ [DatabaseError ''Operation searchhistories.insertOne() buffering timed out''])"
    using t3 batman_request_valid batman_miss failing_history_provider_search batman_page_props(1,2)
      batman_hits_requestable batman_count_converts up fails
    by (simp add: empty_state_def)
  show ?thesis
    using changed one two up three by simp
qed

subsection \<open>Repeating a search\<close>

lemma fan_out_requests_prefix: "\<exists>rest. requests (snd (fan_out env hits st)) = requests st @ rest"
proof (induction hits arbitrary: st)
  case Nil
  then show ?case by simp
next
  case (Cons h hs)
  obtain rest where "requests (snd (fan_out env hs (snd (enrich env h st)))) =
      requests (snd (enrich env h st)) @ rest"
    using Cons.IH by blast
  then show ?case by (simp add: split_beta enrich_state)
qed

lemma search_fresh_requests:
  "\<exists>rest. requests (snd (search_fresh env query page ip st)) =
          requests st @ search_url env query (show_int page) # rest"
proof -
  define st1 where "st1 = snd (await (makeOMDBRequest env (search_url env query (show_int page)) st))"
  have r1: "requests st1 = requests st @ [search_url env query (show_int page)]"
    by (simp add: st1_def awaited_state)
  have "requests (snd (search_fresh env query page ip st)) = requests st1
    \<or> (\<exists>hits. requests (snd (search_fresh env query page ip st)) = requests (snd (fan_out env hits st1)))"
    by (auto simp: search_fresh_def split_beta st1_def save_history_frame
        split: sum.splits jsval.splits)
  then show ?thesis
  proof (elim disjE exE)
    assume "requests (snd (search_fresh env query page ip st)) = requests st1"
    then show ?thesis by (simp add: r1)
  next
    fix hits
    assume a: "requests (snd (search_fresh env query page ip st)) = requests (snd (fan_out env hits st1))"
    obtain rest where "requests (snd (fan_out env hits st1)) = requests st1 @ rest"
      using fan_out_requests_prefix by blast
    then show ?thesis by (simp add: a r1)
  qed
qed

lemma search_handler_asks_provider:
  assumes "searchSchema_validate req = Inr (query, page)"
    and "cache_get t_get (search_key query page) st = None"
  shows "\<exists>rest. requests (snd (search_handler env req t_get t_set st)) =
          requests st @ search_url env query (show_int page) # rest"
proof -
  have "requests (snd (search_handler env req t_get t_set st)) =
      requests (snd (search_fresh env query page (req_ip req) st))"
    by (simp add: search_handler_miss [OF assms] split_beta cache_set_def split: sum.splits)
  then show ?thesis
    using search_fresh_requests [of env query page "req_ip req" st] by simp
qed

lemma cache_get_later:
  "cache_get t k st = None \<Longrightarrow> t \<le> t' \<Longrightarrow> cache_get t' k st = None"
  by (auto simp: cache_get_def split: option.splits if_splits)

text \<open>
  Claim C1 does not hold for every valid query and page. A search whose provider request
  fails stores nothing, so the next search for the same
  query and page asks the provider again and may be answered differently: here the first
  request times out and the second finds no title.
\<close>

theorem search_not_idempotent_after_failure:
  "searchSchema_validate batman_request = Inr (''batman'', 1)
   \<and> fst (search_handler recovering_provider batman_request 0 5 empty_state) =
      (500, Failure (JStr ''Internal server error''))
   \<and> cache (snd (search_handler recovering_provider batman_request 0 5 empty_state)) ''search:batman:1'' = None
   \<and> fst (search_handler recovering_provider batman_request 10 15
            (snd (search_handler recovering_provider batman_request 0 5 empty_state))) =
      (200, Failure (JStr ''Movie not found!''))
   \<and> requests (snd (search_handler recovering_provider batman_request 10 15
            (snd (search_handler recovering_provider batman_request 0 5 empty_state)))) =
      requests (snd (search_handler recovering_provider batman_request 0 5 empty_state))
        @ [''https://www.omdbapi.com/?apikey=k&s=batman&page=1'']"
proof -
  define st1 where "st1 =
    empty_state\<lparr>requests := requests empty_state @ [search_url recovering_provider ''batman'' (show_int 1)],
                console := console empty_state @ [OmdbApiError ''timeout of 10000ms exceeded'', SearchError FetchFailed]\<rparr>"
  have m: "cache_get 0 (search_key ''batman'' 1) empty_state = None"
    by (simp add: cache_get_def empty_state_def)
  have p: "provider_search recovering_provider empty_state ''batman'' 1 = Inl ''timeout of 10000ms exceeded''"
    by (simp add: provider_search_def recovering_provider_def empty_state_def)
  have first: "search_handler recovering_provider batman_request 0 5 empty_state =
     ((500, Failure (JStr ''Internal server error'')), st1)"
    unfolding st1_def by (rule search_handler_failed [OF batman_request_valid m p])
  have m1: "cache_get 10 (search_key ''batman'' 1) st1 = None"
    by (simp add: cache_get_def st1_def empty_state_def)
  have p1: "provider_search recovering_provider st1 ''batman'' 1 =
      Inr (JObj [(''Response'', JStr ''False''), (''Error'', JStr ''Movie not found!'')])"
    by (simp add: provider_search_def recovering_provider_def st1_def empty_state_def)
  have second: "search_handler recovering_provider batman_request 10 15 st1 =
     ((200, Failure (JStr ''Movie not found!'')),
      cache_set 15 (search_key ''batman'' 1) (Failure (JStr ''Movie not found!''))
        (st1\<lparr>requests := requests st1 @ [search_url recovering_provider ''batman'' (show_int 1)]\<rparr>))"
    using search_handler_no_match [OF batman_request_valid m1 p1, of 15] by (simp add: js_or_def)
  have url: "search_url recovering_provider ''batman'' (show_int 1) =
      ''https://www.omdbapi.com/?apikey=k&s=batman&page=1''"
    by (simp add: batman_search_url omdb_base_def recovering_provider_def)
  have c1: "cache st1 ''search:batman:1'' = None"
    by (simp add: st1_def empty_state_def)
  show ?thesis
    by (simp add: batman_request_valid first second c1 url cache_set_def)
qed

text \<open>
  Claim C1, amended. Take two valid search requests with the same query and page. When the
  first is answered with status 200, the cache then holds that answer under the key
  \<^verbatim>\<open>search:\<close>, the query, a colon and the page; when the first missed the cache, the
  entry is the one it stored, expiring \<open>stdTTL\<close> seconds after the store. The second
  request, when its lookup is not later than the expiry, is answered with the same status
  and body and leaves the state as it is, so it issues no provider request, whatever the
  provider would answer. When the first misses the cache and its provider search request
  fails, it is answered with status 500 and leaves the cache as it was, and the second
  request misses the cache again and issues the provider's search request.
\<close>

theorem search_idempotent:
  assumes "searchSchema_validate req = Inr (query, page)"
    and "searchSchema_validate req2 = Inr (query, page)"
    and "key = ''search:'' @ query @ '':'' @ show_int page"
    and "st1 = snd (search_handler env req t_get t_set st)"
  shows "(fst (search_handler env req t_get t_set st) = (200, response) \<longrightarrow>
           (\<exists>expires.
               cache st1 key = Some (response, expires)
             \<and> (cache_get t_get key st = None \<longrightarrow> expires = t_set + stdTTL * 1000)
             \<and> (\<forall>env2 t_get2 t_set2. t_get2 \<le> expires \<longrightarrow>
                   search_handler env2 req2 t_get2 t_set2 st1 = ((200, response), st1))))
       \<and> (cache_get t_get key st = None \<and> provider_search env st query page = Inl cause
            \<and> t_get \<le> t_next \<longrightarrow>
           fst (fst (search_handler env req t_get t_set st)) = 500
         \<and> cache st1 = cache st
         \<and> cache_get t_next key st1 = None
         \<and> (\<exists>rest. requests (snd (search_handler env' req2 t_next t_set' st1)) =
                requests st1 @ search_url env' query (show_int page) # rest))"
proof (intro conjI impI)
  have k: "search_key query page = key"
    by (simp add: search_key_def assms(3))
  assume answered: "fst (search_handler env req t_get t_set st) = (200, response)"
  show "\<exists>expires.
               cache st1 key = Some (response, expires)
             \<and> (cache_get t_get key st = None \<longrightarrow> expires = t_set + stdTTL * 1000)
             \<and> (\<forall>env2 t_get2 t_set2. t_get2 \<le> expires \<longrightarrow>
                   search_handler env2 req2 t_get2 t_set2 st1 = ((200, response), st1))"
  proof (cases "cache_get t_get key st")
    case None
    then have miss: "cache_get t_get (search_key query page) st = None" by (simp add: k)
    obtain r st2 where fresh: "search_fresh env query page (req_ip req) st = (r, st2)"
      by (cases "search_fresh env query page (req_ip req) st")
    have r: "r = Inr response" and st1: "st1 = cache_set t_set key response st2"
      using answered assms(4) fresh
      by (auto simp: search_handler_miss [OF assms(1) miss] k split: sum.splits)
    have entry: "cache st1 key = Some (response, t_set + stdTTL * 1000)"
      by (simp add: st1 cache_set_def)
    have "search_handler env2 req2 t_get2 t_set2 st1 = ((200, response), st1)"
      if "t_get2 \<le> t_set + stdTTL * 1000" for env2 t_get2 t_set2
    proof -
      have "cache_get t_get2 (search_key query page) st1 = Some response"
        using entry that by (simp add: cache_get_def k)
      then show ?thesis using assms(2) by (rule search_handler_hit [rotated])
    qed
    then show ?thesis using entry by blast
  next
    case (Some cachedResult)
    then have hit: "cache_get t_get (search_key query page) st = Some cachedResult" by (simp add: k)
    have same: "response = cachedResult" "st1 = st"
      using answered assms(4) by (simp_all add: search_handler_hit [OF assms(1) hit])
    from Some obtain expires where entry: "cache st key = Some (cachedResult, expires)"
      by (auto simp: cache_get_def split: option.splits if_splits)
    have "search_handler env2 req2 t_get2 t_set2 st = ((200, cachedResult), st)"
      if "t_get2 \<le> expires" for env2 t_get2 t_set2
    proof -
      have "cache_get t_get2 (search_key query page) st = Some cachedResult"
        using entry that by (simp add: cache_get_def k)
      then show ?thesis using assms(2) by (rule search_handler_hit [rotated])
    qed
    then show ?thesis using entry same Some by auto
  qed
next
  have k: "search_key query page = key"
    by (simp add: search_key_def assms(3))
  assume a: "cache_get t_get key st = None \<and> provider_search env st query page = Inl cause
            \<and> t_get \<le> t_next"
  then have miss: "cache_get t_get (search_key query page) st = None"
    and p: "provider_search env st query page = Inl cause"
    and t: "t_get \<le> t_next"
    by (simp_all add: k)
  note failed = search_handler_failed [OF assms(1) miss p, of t_set]
  show "fst (fst (search_handler env req t_get t_set st)) = 500"
    by (simp add: failed)
  show c: "cache st1 = cache st"
    by (simp add: assms(4) failed)
  have "cache_get t_get key st1 = None"
    using a c by (simp add: cache_get_def)
  then show again: "cache_get t_next key st1 = None"
    using t by (rule cache_get_later)
  then have "cache_get t_next (search_key query page) st1 = None" by (simp add: k)
  then show "\<exists>rest. requests (snd (search_handler env' req2 t_next t_set' st1)) =
                requests st1 @ search_url env' query (show_int page) # rest"
    by (rule search_handler_asks_provider [OF assms(2)])
qed

lemma batman_enriched:
  "enriched batman_provider (Suc 0) batman_begins = batman_begins"
  "enriched batman_provider (Suc (Suc 0)) dark_knight = with_details dark_knight dark_knight_detail"
  by (simp_all add: enriched_def batman_provider_def dark_knight_detail_def)

lemma batman_answer:
  "fst (search_handler batman_provider batman_request 0 5 empty_state) =
     (200, SearchPage [batman_begins, with_details dark_knight dark_knight_detail] (Finite 95) 1 (Finite 10))"
proof -
  have "map (\<lambda>i. enriched batman_provider (Suc (length (requests empty_state)) + i) ([batman_begins, dark_knight] ! i))
       [0..<length [batman_begins, dark_knight]] =
     [batman_begins, with_details dark_knight dark_knight_detail]"
    by (simp add: upt_rec empty_state_def batman_enriched)
  then show ?thesis
    using search_handler_matched [OF batman_request_valid batman_miss batman_provider_search
        batman_page_props(1,2) batman_hits_requestable batman_count_converts, of 5]
    by (simp add: batman_count)
qed

theorem search_idempotent_witness:
  "searchSchema_validate batman_request = Inr (''batman'', 1)
   \<and> searchSchema_validate (search_request ''batman'' (PageInteger 1)) = Inr (''batman'', 1)
   \<and> batman_request \<noteq> search_request ''batman'' (PageInteger 1)
   \<and> cache_get 0 ''search:batman:1'' empty_state = None
   \<and> fst (search_handler batman_provider batman_request 0 5 empty_state) =
        (200, SearchPage [batman_begins, with_details dark_knight dark_knight_detail] (Finite 95) 1 (Finite 10))
   \<and> cache (snd (search_handler batman_provider batman_request 0 5 empty_state)) ''search:batman:1'' =
        Some (SearchPage [batman_begins, with_details dark_knight dark_knight_detail] (Finite 95) 1 (Finite 10),
              3600005)
   \<and> search_handler provider_down (search_request ''batman'' (PageInteger 1)) 3600005 3600009
        (snd (search_handler batman_provider batman_request 0 5 empty_state)) =
        ((200, SearchPage [batman_begins, with_details dark_knight dark_knight_detail] (Finite 95) 1 (Finite 10)),
         snd (search_handler batman_provider batman_request 0 5 empty_state))
   \<and> provider_search provider_down empty_state ''batman'' 1 = Inl ''connect ECONNREFUSED''
   \<and> fst (fst (search_handler provider_down batman_request 0 5 empty_state)) = 500
   \<and> cache (snd (search_handler provider_down batman_request 0 5 empty_state)) = cache empty_state
   \<and> (\<exists>rest. requests (snd (search_handler batman_provider (search_request ''batman'' (PageInteger 1)) 7 9
                  (snd (search_handler provider_down batman_request 0 5 empty_state)))) =
          requests (snd (search_handler provider_down batman_request 0 5 empty_state))
            @ ''https://www.omdbapi.com/?apikey=k&s=batman&page=1'' # rest)"
proof -
  let ?page = "SearchPage [batman_begins, with_details dark_knight dark_knight_detail] (Finite 95) 1 (Finite 10)"
  have v: "searchSchema_validate batman_request = Inr (''batman'', 1)"
    by (rule batman_request_valid)
  have v2: "searchSchema_validate (search_request ''batman'' (PageInteger 1)) = Inr (''batman'', 1)"
    by (simp add: search_request_def searchSchema_validate_def validate_query_def validate_page_def)
  have differ: "batman_request \<noteq> search_request ''batman'' (PageInteger 1)"
    by (simp add: batman_request_def search_request_def)
  have k: "''search:batman:1'' = ''search:'' @ ''batman'' @ '':'' @ show_int 1"
    by (simp add: show_int_1)
  have m: "cache_get 0 ''search:batman:1'' empty_state = None"
    by (simp add: cache_get_def empty_state_def)
  have p: "provider_search provider_down empty_state ''batman'' 1 = Inl ''connect ECONNREFUSED''"
    by (simp add: provider_search_def provider_down_def)
  have url: "search_url batman_provider ''batman'' (show_int 1) =
      ''https://www.omdbapi.com/?apikey=k&s=batman&page=1''"
    by (simp add: batman_search_url omdb_base_def batman_provider_def)
  note a = search_idempotent [OF v v2 k refl, of batman_provider 0 5 empty_state ?page]
  note b = search_idempotent [OF v v2 k refl, of provider_down 0 5 empty_state _
      "''connect ECONNREFUSED''" 7 batman_provider 9]
  have stored: "cache (snd (search_handler batman_provider batman_request 0 5 empty_state)) ''search:batman:1'' =
        Some (?page, 3600005)
    \<and> search_handler provider_down (search_request ''batman'' (PageInteger 1)) 3600005 3600009
        (snd (search_handler batman_provider batman_request 0 5 empty_state)) =
        ((200, ?page), snd (search_handler batman_provider batman_request 0 5 empty_state))"
    using a batman_answer m by (auto simp: stdTTL_def)
  have failed: "fst (fst (search_handler provider_down batman_request 0 5 empty_state)) = 500
    \<and> cache (snd (search_handler provider_down batman_request 0 5 empty_state)) = cache empty_state
    \<and> (\<exists>rest. requests (snd (search_handler batman_provider (search_request ''batman'' (PageInteger 1)) 7 9
                  (snd (search_handler provider_down batman_request 0 5 empty_state)))) =
          requests (snd (search_handler provider_down batman_request 0 5 empty_state))
            @ ''https://www.omdbapi.com/?apikey=k&s=batman&page=1'' # rest)"
    using b m p by (simp add: url)
  show ?thesis
    using v v2 differ m batman_answer stored p failed by simp
qed

subsection \<open>The two routes for one movie\<close>

lemma to_lower_slash: "(to_lower c = CHR ''/'') = (c = CHR ''/'')"
  by (auto simp: to_lower_def split: option.splits if_splits)

lemma split_slash_plain: "CHR ''/'' \<notin> set s \<Longrightarrow> split_slash s = [s]"
  by (induction s) auto

lemma split_slash_append:
  "CHR ''/'' \<notin> set s \<Longrightarrow> split_slash (s @ CHR ''/'' # t) = s # split_slash t"
  by (induction s) (auto split: list.splits)

lemma movie_path_segments:
  assumes "movie_path path seg"
  shows "\<exists>a b. path_segments path = Some [a, b, seg]
           \<and> map to_lower a = ''api'' \<and> map to_lower b = ''movie''"
proof -
  from assms have low: "map to_lower (take 11 path) = ''/api/movie/''"
    and seg: "seg \<noteq> []" "CHR ''/'' \<notin> set seg"
    and rest: "drop 11 path = seg \<or> drop 11 path = seg @ ''/''"
    by (simp_all add: movie_path_def)
  from low obtain c0 a1 a2 a3 c4 b1 b2 b3 b4 b5 c10 where
    t: "take 11 path = [c0, a1, a2, a3, c4, b1, b2, b3, b4, b5, c10]"
    and l: "to_lower c0 = CHR ''/''" "map to_lower [a1, a2, a3] = ''api''" "to_lower c4 = CHR ''/''"
      "map to_lower [b1, b2, b3, b4, b5] = ''movie''" "to_lower c10 = CHR ''/''"
    by (auto simp: map_eq_Cons_conv)
  have slashes: "c0 = CHR ''/''" "c4 = CHR ''/''" "c10 = CHR ''/''"
    using l by (simp_all add: to_lower_slash)
  have na: "CHR ''/'' \<notin> set [a1, a2, a3]"
  proof
    assume "CHR ''/'' \<in> set [a1, a2, a3]"
    then have "to_lower CHR ''/'' \<in> set (map to_lower [a1, a2, a3])" by (simp only: set_map) blast
    then show False using l(2) by (simp add: to_lower_def)
  qed
  have nb: "CHR ''/'' \<notin> set [b1, b2, b3, b4, b5]"
  proof
    assume "CHR ''/'' \<in> set [b1, b2, b3, b4, b5]"
    then have "to_lower CHR ''/'' \<in> set (map to_lower [b1, b2, b3, b4, b5])" by (simp only: set_map) blast
    then show False using l(4) by (simp add: to_lower_def)
  qed
  define rest where "rest = drop 11 path"
  define xs where "xs = [a1, a2, a3] @ CHR ''/'' # ([b1, b2, b3, b4, b5] @ CHR ''/'' # rest)"
  have "path = take 11 path @ rest"
    by (simp add: rest_def)
  then have path: "path = CHR ''/'' # xs"
    using t slashes by (simp add: xs_def)
  have r: "split_slash rest = [seg] \<or> split_slash rest = [seg, []]"
    using rest seg(2) by (auto simp: rest_def split_slash_plain split_slash_append)
  have "split_slash xs = [a1, a2, a3] # [b1, b2, b3, b4, b5] # split_slash rest"
    unfolding xs_def by (simp only: split_slash_append [OF na] split_slash_append [OF nb])
  then have "split_slash xs = [[a1, a2, a3], [b1, b2, b3, b4, b5], seg]
    \<or> split_slash xs = [[a1, a2, a3], [b1, b2, b3, b4, b5], seg, []]"
    using r by auto
  then have "path_segments path = Some [[a1, a2, a3], [b1, b2, b3, b4, b5], seg]"
    using seg(1) by (auto simp: path path_segments_def)
  then show ?thesis
    using l(2,4) by (intro exI [of _ "[a1, a2, a3]"] exI [of _ "[b1, b2, b3, b4, b5]"] conjI)
qed

lemma match_segments_three:
  "match_segments [Lit a, Lit b, Param n] segs =
     (case segs of
        [x, y, p] \<Rightarrow> if map to_lower a = map to_lower x \<and> map to_lower b = map to_lower y \<and> p \<noteq> []
                      then Some [(n, p)] else None
      | _ \<Rightarrow> None)"
  by (auto split: list.splits)

lemma match_segments_two:
  "match_segments [Lit a, Lit b] segs =
     (case segs of [x, y] \<Rightarrow> if map to_lower a = map to_lower x \<and> map to_lower b = map to_lower y
                              then Some [] else None
      | _ \<Rightarrow> None)"
  by (auto split: list.splits)

lemma movie_path_matches:
  assumes "movie_path path seg"
  shows "match_path [Lit ''api'', Lit ''movie'', Param ''id''] path = Some [(''id'', seg)]"
proof -
  obtain a b where s: "path_segments path = Some [a, b, seg]"
    and l: "map to_lower a = ''api''" "map to_lower b = ''movie''"
    using movie_path_segments [OF assms] by auto
  have ne: "seg \<noteq> []" using assms by (simp add: movie_path_def)
  have low: "map to_lower ''api'' = map to_lower a" "map to_lower ''movie'' = map to_lower b"
    by (simp_all add: l to_lower_def)
  have "match_segments [Lit ''api'', Lit ''movie'', Param ''id''] [a, b, seg] = Some [(''id'', seg)]"
    using low ne by (simp only: match_segments.simps if_True if_False option.map refl simp_thms)
  then show ?thesis
    by (simp add: match_path_def s)
qed

lemma dispatch_movie:
  assumes "match_path [Lit ''api'', Lit ''movie'', Param ''id''] path = Some matched"
  shows "dispatch routes GET path = Some (MovieById, matched)"
proof -
  from assms obtain segs where s: "path_segments path = Some segs"
    and m: "match_segments [Lit ''api'', Lit ''movie'', Param ''id''] segs = Some matched"
    by (auto simp: match_path_def split: option.splits)
  from m obtain a b seg where segs: "segs = [a, b, seg]"
    by (auto simp: match_segments_three split: list.splits)
  have other: "match_segments [Lit x, Lit y] segs = None" for x y
    by (simp add: segs)
  show ?thesis
    by (simp only: routes_def dispatch.simps match_path_def s option.case other m
        http_method.simps if_True if_False simp_thms)
qed

lemma match_path_any_name:
  "(match_path [Lit a, Lit b, Param n] path = None) = (match_path [Lit a, Lit b, Param n'] path = None)"
  by (auto simp: match_path_def match_segments_three split: option.splits list.splits)

lemma dispatch_never_imdbID: "dispatch routes m path \<noteq> Some (MovieByImdbID, params)"
  using match_path_any_name [of "''api''" "''movie''" "''id''" path "''imdbID''"]
  by (cases m) (auto simp: routes_def split: option.splits)

lemma run_middleware_passes:
  "\<forall>lib. middleware env lib k = Next \<Longrightarrow> \<not> over_limit env k \<Longrightarrow>
   run_middleware env k path us = Next"
  by (induction us) (auto simp: limiter_def split: used.splits)

lemma matched_is_mounted:
  assumes "match_path [Lit ''api'', Lit ''movie'', Param n] path = Some matched"
  shows "mounted_on [''api''] path"
proof -
  from assms obtain segs where s: "path_segments path = Some segs"
    and m: "match_segments [Lit ''api'', Lit ''movie'', Param n] segs = Some matched"
    by (auto simp: match_path_def split: option.splits)
  from m obtain a b seg where segs: "segs = [a, b, seg]"
    and low: "map to_lower ''api'' = map to_lower a"
    by (auto simp: match_segments_three split: list.splits if_splits)
  from s obtain cs where path: "path = CHR ''/'' # cs"
    and cs: "split_slash cs = segs \<or> butlast (split_slash cs) = segs"
    by (cases path) (auto simp: path_segments_def Let_def split: if_splits)
  have "take 1 (split_slash cs) = [a]"
    using cs by (cases "split_slash cs" rule: rev_cases) (auto simp: segs)
  then show ?thesis
    using low by (simp add: mounted_on_def path)
qed

lemma limited_request:
  assumes "match_path [Lit ''api'', Lit ''movie'', Param ''id''] path = Some matched"
    and "\<forall>lib. middleware env lib (received st) = Next"
    and "over_limit env (received st)"
  shows "get_movie env path t_get t_set st =
     Some ((429, Sent ''Too many requests from this IP, please try again later.''),
           st\<lparr>received := Suc (received st)\<rparr>)"
proof -
  have "run_middleware env (received st) path uses =
      Ends 429 (Sent ''Too many requests from this IP, please try again later.'')"
    using assms(2,3) matched_is_mounted [OF assms(1)]
    by (simp add: uses_def limiter_def mounted_on_def)
  then show ?thesis
    by (simp add: get_movie_def)
qed

lemma movie_handler_hit:
  "cache_get t_get (movie_key i) st = Some cachedResult \<Longrightarrow>
   movie_handler env i t_get t_set st = ((200, cachedResult), st)"
  by (simp add: movie_handler_def)

lemma movie_handler_found:
  assumes "cache_get t_get (movie_key i) st = None"
    and "provider_movie env st i = Inr data"
    and "get_prop data ''Response'' = JStr ''True''"
  shows "movie_handler env i t_get t_set st =
     ((200, MovieData data),
      cache_set t_set (movie_key i) (MovieData data) (st\<lparr>requests := requests st @ [detail_url env i]\<rparr>))"
proof -
  have "\<not> nullish data" using assms(3) get_prop_nullish by fastforce
  then show ?thesis
    using assms by (simp add: movie_handler_def provider_movie_def awaited)
qed

lemma movie_handler_not_found:
  assumes "cache_get t_get (movie_key i) st = None"
    and "provider_movie env st i = Inr data"
    and "\<not> nullish data"
    and "get_prop data ''Response'' \<noteq> JStr ''True''"
  shows "movie_handler env i t_get t_set st =
     ((200, Failure (js_or (get_prop data ''Error'') (JStr ''Movie not found''))),
      cache_set t_set (movie_key i) (Failure (js_or (get_prop data ''Error'') (JStr ''Movie not found'')))
        (st\<lparr>requests := requests st @ [detail_url env i]\<rparr>))"
  using assms by (simp add: movie_handler_def provider_movie_def awaited)

lemma movie_handler_status: "fst (fst (movie_handler env i t_get t_set st)) \<in> {200, 500}"
  by (simp add: movie_handler_def split_beta split: option.splits sum.splits)

lemma movie_imdbID_handler_not_found:
  assumes "imdbID \<noteq> []"
    and "fst (axios_get env (length (requests st)) (detail_url env (encodeURIComponent env imdbID))) = Inr data"
    and "\<not> nullish data"
    and "get_prop data ''Response'' \<noteq> JStr ''True''"
  shows "fst (fst (movie_imdbID_handler env imdbID st)) = 404"
  using assms by (simp add: movie_imdbID_handler_def awaited)

text \<open>
  Claim C10. Express matches a GET request against \<^verbatim>\<open>/api/movie/:id\<close> when its path is
  \<^verbatim>\<open>/api/movie/\<close>, in any case of the letters, followed by one segment that is not
  empty, with or without a slash at the end. Every GET request whose path matches that
  pattern is routed to the handler registered first, and no request of any method and path
  is routed to the handler registered for \<^verbatim>\<open>/api/movie/:imdbID\<close>: the request is
  answered by the middleware before the routes when that ends the response or fails (the
  rate limiter, the body parser), by the error handler when the segment cannot be decoded,
  and by the first handler in every other case. The first handler never answers with
  status 404: when it misses the cache and the provider answers, it answers with status
  200, with the movie when the provider found it and with \<^verbatim>\<open>success: false\<close> and the
  provider's error (or \<^verbatim>\<open>Movie not found\<close>) when not; in both cases it stores the
  answer under the key \<^verbatim>\<open>movie:\<close> followed by the id, to expire \<open>stdTTL\<close> seconds after
  the store, and changes no other entry, and a request for the same id whose lookup is not
  later gets the stored answer.
\<close>

theorem movie_route_first_handler:
  "(movie_path path seg \<longrightarrow>
      match_path [Lit ''api'', Lit ''movie'', Param ''id''] path = Some [(''id'', seg)])
   \<and> (match_path [Lit ''api'', Lit ''movie'', Param ''id''] path = Some [(''id'', seg)] \<longrightarrow>
        dispatch routes GET path = Some (MovieById, [(''id'', seg)])
      \<and> get_movie env path t_get t_set st =
          (case run_middleware env (received st) path uses of
             Ends status b \<Rightarrow> Some ((status, b), st\<lparr>received := Suc (received st)\<rparr>)
           | Throws err \<Rightarrow> Some (error_handler err (st\<lparr>received := Suc (received st)\<rparr>))
           | Next \<Rightarrow>
               (case decodeURIComponent env seg of
                  None \<Rightarrow>
                    Some (error_handler (''Failed to decode param '' @ [CHR 0x27] @ seg @ [CHR 0x27])
                            (st\<lparr>received := Suc (received st)\<rparr>))
                | Some i \<Rightarrow>
                    Some (movie_handler env i t_get t_set (st\<lparr>received := Suc (received st)\<rparr>))))
      \<and> ((\<forall>lib. middleware env lib (received st) = Next) \<and> \<not> over_limit env (received st)
            \<and> decodeURIComponent env seg = Some i \<longrightarrow>
           get_movie env path t_get t_set st =
             Some (movie_handler env i t_get t_set (st\<lparr>received := Suc (received st)\<rparr>))))
   \<and> dispatch routes m path' \<noteq> Some (MovieByImdbID, params)
   \<and> fst (fst (movie_handler env i t_get t_set st)) \<noteq> 404
   \<and> (cache_get t_get (''movie:'' @ i) st = None
        \<and> provider_movie env st i = Inr data \<and> \<not> nullish data
        \<and> response = (if get_prop data ''Response'' = JStr ''True'' then MovieData data
                       else Failure (if truthy (get_prop data ''Error'') then get_prop data ''Error''
                                     else JStr ''Movie not found''))
        \<and> st' = snd (movie_handler env i t_get t_set st)
        \<and> t_next \<le> t_set + stdTTL * 1000
      \<longrightarrow> fst (movie_handler env i t_get t_set st) = (200, response)
        \<and> success response = (get_prop data ''Response'' = JStr ''True'')
        \<and> cache st' (''movie:'' @ i) = Some (response, t_set + stdTTL * 1000)
        \<and> (\<forall>k. k \<noteq> ''movie:'' @ i \<longrightarrow> cache st' k = cache st k)
        \<and> movie_handler env' i t_next t_set' st' = ((200, response), st'))"
proof (intro conjI impI)
  assume "movie_path path seg"
  then show "match_path [Lit ''api'', Lit ''movie'', Param ''id''] path = Some [(''id'', seg)]"
    by (rule movie_path_matches)
next
  assume "match_path [Lit ''api'', Lit ''movie'', Param ''id''] path = Some [(''id'', seg)]"
  then show d: "dispatch routes GET path = Some (MovieById, [(''id'', seg)])"
    by (rule dispatch_movie)
  show whole: "get_movie env path t_get t_set st =
          (case run_middleware env (received st) path uses of
             Ends status b \<Rightarrow> Some ((status, b), st\<lparr>received := Suc (received st)\<rparr>)
           | Throws err \<Rightarrow> Some (error_handler err (st\<lparr>received := Suc (received st)\<rparr>))
           | Next \<Rightarrow>
               (case decodeURIComponent env seg of
                  None \<Rightarrow>
                    Some (error_handler (''Failed to decode param '' @ [CHR 0x27] @ seg @ [CHR 0x27])
                            (st\<lparr>received := Suc (received st)\<rparr>))
                | Some i \<Rightarrow>
                    Some (movie_handler env i t_get t_set (st\<lparr>received := Suc (received st)\<rparr>))))"
    by (simp add: get_movie_def d req_param_def split: passage.splits option.splits)
  assume "(\<forall>lib. middleware env lib (received st) = Next) \<and> \<not> over_limit env (received st)
            \<and> decodeURIComponent env seg = Some i"
  then have pass: "run_middleware env (received st) path uses = Next"
    and dec: "decodeURIComponent env seg = Some i"
    by (simp_all add: run_middleware_passes)
  show "get_movie env path t_get t_set st =
      Some (movie_handler env i t_get t_set (st\<lparr>received := Suc (received st)\<rparr>))"
    by (simp add: whole pass dec)
next
  show "dispatch routes m path' \<noteq> Some (MovieByImdbID, params)"
    by (rule dispatch_never_imdbID)
next
  show "fst (fst (movie_handler env i t_get t_set st)) \<noteq> 404"
    using movie_handler_status [of env i t_get t_set st] by auto
next
  assume a: "cache_get t_get (''movie:'' @ i) st = None
        \<and> provider_movie env st i = Inr data \<and> \<not> nullish data
        \<and> response = (if get_prop data ''Response'' = JStr ''True'' then MovieData data
                       else Failure (if truthy (get_prop data ''Error'') then get_prop data ''Error''
                                     else JStr ''Movie not found''))
        \<and> st' = snd (movie_handler env i t_get t_set st)
        \<and> t_next \<le> t_set + stdTTL * 1000"
  have k: "movie_key i = ''movie:'' @ i"
    by (simp add: movie_key_def)
  from a have miss: "cache_get t_get (movie_key i) st = None"
    by (simp add: k)
  from a have p: "provider_movie env st i = Inr data"
    and n: "\<not> nullish data"
    and r: "response = (if get_prop data ''Response'' = JStr ''True'' then MovieData data
                       else Failure (if truthy (get_prop data ''Error'') then get_prop data ''Error''
                                     else JStr ''Movie not found''))"
    and s: "st' = snd (movie_handler env i t_get t_set st)"
    and t: "t_next \<le> t_set + stdTTL * 1000"
    by (simp_all add: movie_key_def)
  have whole: "movie_handler env i t_get t_set st =
     ((200, response),
      cache_set t_set (''movie:'' @ i) response (st\<lparr>requests := requests st @ [detail_url env i]\<rparr>))"
  proof (cases "get_prop data ''Response'' = JStr ''True''")
    case True
    then show ?thesis using movie_handler_found [OF miss p True, of t_set] r by (simp add: k)
  next
    case False
    then show ?thesis using movie_handler_not_found [OF miss p n False, of t_set] r by (simp add: js_or_def k)
  qed
  then show "fst (movie_handler env i t_get t_set st) = (200, response)" by simp
  show "success response = (get_prop data ''Response'' = JStr ''True'')" by (simp add: r)
  show entry: "cache st' (''movie:'' @ i) = Some (response, t_set + stdTTL * 1000)"
    by (simp add: s whole cache_set_def)
  show "\<forall>k. k \<noteq> ''movie:'' @ i \<longrightarrow> cache st' k = cache st k"
    by (simp add: s whole cache_set_def)
  have "cache_get t_next (movie_key i) st' = Some response"
    using entry t by (simp add: cache_get_def k)
  then show "movie_handler env' i t_next t_set' st' = ((200, response), st')"
    by (rule movie_handler_hit)
qed

theorem movie_route_first_handler_witness:
  "movie_path ''/API/Movie/tt0000000/'' ''tt0000000''
   \<and> dispatch routes GET ''/API/Movie/tt0000000/'' = Some (MovieById, [(''id'', ''tt0000000'')])
   \<and> get_movie unknown_id_provider ''/API/Movie/tt0000000/'' 0 5 empty_state =
       Some (movie_handler unknown_id_provider ''tt0000000'' 0 5 (empty_state\<lparr>received := 1\<rparr>))
   \<and> movie_path ''/api/movie/tt0468569'' ''tt0468569''
   \<and> dispatch routes GET ''/api/movie/tt0468569'' = Some (MovieById, [(''id'', ''tt0468569'')])
   \<and> cache_get 0 ''movie:tt0000000'' empty_state = None
   \<and> provider_movie unknown_id_provider empty_state ''tt0000000'' =
       Inr (JObj [(''Response'', JStr ''False''), (''Error'', JStr ''Incorrect IMDb ID.'')])
   \<and> fst (movie_handler unknown_id_provider ''tt0000000'' 0 5 empty_state) =
       (200, Failure (JStr ''Incorrect IMDb ID.''))
   \<and> fst (fst (movie_imdbID_handler unknown_id_provider ''tt0000000'' empty_state)) = 404
   \<and> cache (snd (movie_handler unknown_id_provider ''tt0000000'' 0 5 empty_state)) ''movie:tt0000000'' =
       Some (Failure (JStr ''Incorrect IMDb ID.''), 3600005)
   \<and> cache (snd (movie_handler unknown_id_provider ''tt0000000'' 0 5 empty_state)) ''movie:tt0468569'' = None
   \<and> movie_handler provider_down ''tt0000000'' 3600005 3600009
        (snd (movie_handler unknown_id_provider ''tt0000000'' 0 5 empty_state)) =
       ((200, Failure (JStr ''Incorrect IMDb ID.'')),
        snd (movie_handler unknown_id_provider ''tt0000000'' 0 5 empty_state))
   \<and> provider_movie dark_knight_provider empty_state ''tt0468569'' = Inr dark_knight_detail
   \<and> fst (movie_handler dark_knight_provider ''tt0468569'' 0 5 empty_state) = (200, MovieData dark_knight_detail)
   \<and> cache (snd (movie_handler dark_knight_provider ''tt0468569'' 0 5 empty_state)) ''movie:tt0468569'' =
       Some (MovieData dark_knight_detail, 3600005)"
proof -
  have mp: "movie_path ''/API/Movie/tt0000000/'' ''tt0000000''"
    by (simp add: movie_path_def to_lower_def)
  have mp': "movie_path ''/api/movie/tt0468569'' ''tt0468569''"
    by (simp add: movie_path_def to_lower_def)
  have pass: "\<forall>lib. middleware unknown_id_provider lib (received empty_state) = Next"
    "\<not> over_limit unknown_id_provider (received empty_state)"
    by (simp_all add: unknown_id_provider_def)
  have dec: "decodeURIComponent unknown_id_provider ''tt0000000'' = Some ''tt0000000''"
    by (simp add: unknown_id_provider_def)
  have miss: "cache_get 0 (''movie:'' @ i) empty_state = None" for i
    by (simp add: cache_get_def empty_state_def)
  have p: "provider_movie unknown_id_provider empty_state ''tt0000000'' =
       Inr (JObj [(''Response'', JStr ''False''), (''Error'', JStr ''Incorrect IMDb ID.'')])"
    by (simp add: provider_movie_def unknown_id_provider_def)
  have p': "provider_movie dark_knight_provider empty_state ''tt0468569'' = Inr dark_knight_detail"
    by (simp add: provider_movie_def dark_knight_provider_def)
  have t: "(3600005::nat) \<le> 5 + stdTTL * 1000" by (simp add: stdTTL_def)
  have found: "get_prop dark_knight_detail ''Response'' = JStr ''True''" "\<not> nullish dark_knight_detail"
    by (simp_all add: dark_knight_detail_def)
  have second: "fst (fst (movie_imdbID_handler unknown_id_provider ''tt0000000'' empty_state)) = 404"
    by (rule movie_imdbID_handler_not_found [where
          data = "JObj [(''Response'', JStr ''False''), (''Error'', JStr ''Incorrect IMDb ID.'')]"])
       (simp_all add: unknown_id_provider_def)
  have other: "''movie:tt0468569'' \<noteq> ''movie:'' @ ''tt0000000''" by simp
  have none: "cache empty_state ''movie:tt0468569'' = None" by (simp add: empty_state_def)
  note a = movie_route_first_handler [where path = "''/API/Movie/tt0000000/''" and seg = "''tt0000000''"
      and env = unknown_id_provider and st = empty_state and i = "''tt0000000''" and t_get = 0 and t_set = 5
      and m = GET and path' = "[]" and params = "[]"
      and data = "JObj [(''Response'', JStr ''False''), (''Error'', JStr ''Incorrect IMDb ID.'')]"
      and response = "Failure (JStr ''Incorrect IMDb ID.'')"
      and st' = "snd (movie_handler unknown_id_provider ''tt0000000'' 0 5 empty_state)"
      and t_next = 3600005 and env' = provider_down and t_set' = 3600009]
  note b = movie_route_first_handler [where path = "''/api/movie/tt0468569''" and seg = "''tt0468569''"
      and env = dark_knight_provider and st = empty_state and i = "''tt0468569''" and t_get = 0 and t_set = 5
      and m = GET and path' = "[]" and params = "[]"
      and data = dark_knight_detail and response = "MovieData dark_knight_detail"
      and st' = "snd (movie_handler dark_knight_provider ''tt0468569'' 0 5 empty_state)"
      and t_next = 3600005 and env' = provider_down and t_set' = 3600009]
  have M: "match_path [Lit ''api'', Lit ''movie'', Param ''id''] ''/API/Movie/tt0000000/'' =
      Some [(''id'', ''tt0000000'')]"
    using a mp by blast
  have A: "dispatch routes GET ''/API/Movie/tt0000000/'' = Some (MovieById, [(''id'', ''tt0000000'')])
   \<and> get_movie unknown_id_provider ''/API/Movie/tt0000000/'' 0 5 empty_state =
       Some (movie_handler unknown_id_provider ''tt0000000'' 0 5 (empty_state\<lparr>received := 1\<rparr>))"
  proof -
    have "dispatch routes GET ''/API/Movie/tt0000000/'' = Some (MovieById, [(''id'', ''tt0000000'')])"
      using a M by blast
    moreover have "get_movie unknown_id_provider ''/API/Movie/tt0000000/'' 0 5 empty_state =
       Some (movie_handler unknown_id_provider ''tt0000000'' 0 5
               (empty_state\<lparr>received := Suc (received empty_state)\<rparr>))"
      using a M pass dec by blast
    moreover have "empty_state\<lparr>received := Suc (received empty_state)\<rparr> = empty_state\<lparr>received := 1\<rparr>"
      by (simp add: empty_state_def)
    ultimately show ?thesis by simp
  qed
  have M': "match_path [Lit ''api'', Lit ''movie'', Param ''id''] ''/api/movie/tt0468569'' =
      Some [(''id'', ''tt0468569'')]"
    using b mp' by blast
  have A': "dispatch routes GET ''/api/movie/tt0468569'' = Some (MovieById, [(''id'', ''tt0468569'')])"
    using b M' by blast
  have B: "fst (movie_handler unknown_id_provider ''tt0000000'' 0 5 empty_state) =
       (200, Failure (JStr ''Incorrect IMDb ID.''))
   \<and> cache (snd (movie_handler unknown_id_provider ''tt0000000'' 0 5 empty_state)) (''movie:'' @ ''tt0000000'') =
       Some (Failure (JStr ''Incorrect IMDb ID.''), 3600005)
   \<and> (\<forall>k. k \<noteq> ''movie:'' @ ''tt0000000'' \<longrightarrow>
         cache (snd (movie_handler unknown_id_provider ''tt0000000'' 0 5 empty_state)) k = cache empty_state k)
   \<and> movie_handler provider_down ''tt0000000'' 3600005 3600009
        (snd (movie_handler unknown_id_provider ''tt0000000'' 0 5 empty_state)) =
       ((200, Failure (JStr ''Incorrect IMDb ID.'')),
        snd (movie_handler unknown_id_provider ''tt0000000'' 0 5 empty_state))"
    using a miss [of "''tt0000000''"] p t by (simp add: stdTTL_def)
  then have B': "cache (snd (movie_handler unknown_id_provider ''tt0000000'' 0 5 empty_state)) ''movie:tt0468569'' = None"
    using other none by metis
  have C: "fst (movie_handler dark_knight_provider ''tt0468569'' 0 5 empty_state) = (200, MovieData dark_knight_detail)
   \<and> cache (snd (movie_handler dark_knight_provider ''tt0468569'' 0 5 empty_state)) (''movie:'' @ ''tt0468569'') =
       Some (MovieData dark_knight_detail, 3600005)"
    using b miss [of "''tt0468569''"] p' t found by (simp add: stdTTL_def)
  show ?thesis
    using mp mp' A A' B B' C miss [of "''tt0000000''"] p p' second by simp
qed

subsection \<open>The popular list\<close>

lemma push_details_step:
  assumes "requestable m"
  shows "push_details env (m # ms) (acc, st) =
     push_details env ms
       (acc @ [enriched env (length (requests st)) m],
        snd (await (makeOMDBRequest env (detail_url env (printed (get_prop m ''imdbID''))) st)))"
  using assms
  by (simp add: requestable_def converts_printed enriched_def awaited split: sum.splits)

lemma push_details_stops:
  "\<not> requestable m \<Longrightarrow> push_details env (m # ms) (acc, st) = (Some TypeError, acc, st)"
  by (auto simp: requestable_def not_converts)

lemma push_details_appends:
  "\<exists>new. fst (snd (push_details env movies (acc, st))) = acc @ new \<and> length new \<le> length movies"
proof (induction movies arbitrary: acc st)
  case Nil
  then show ?case by simp
next
  case (Cons m ms)
  show ?case
  proof (cases "requestable m")
    case False
    then have "push_details env (m # ms) (acc, st) = (Some TypeError, acc, st)"
      by (rule push_details_stops)
    then show ?thesis by simp
  next
    case True
    define st1 where "st1 = snd (await (makeOMDBRequest env (detail_url env (printed (get_prop m ''imdbID''))) st))"
    define x where "x = enriched env (length (requests st)) m"
    have step: "push_details env (m # ms) (acc, st) = push_details env ms (acc @ [x], st1)"
      unfolding x_def st1_def by (rule push_details_step [OF True])
    obtain new where "fst (snd (push_details env ms (acc @ [x], st1))) = (acc @ [x]) @ new" "length new \<le> length ms"
      using Cons.IH by blast
    then have "fst (snd (push_details env (m # ms) (acc, st))) = acc @ (x # new) \<and> length (x # new) \<le> length (m # ms)"
      using step by simp
    then show ?thesis by blast
  qed
qed

lemma push_details_enriched:
  "\<forall>m\<in>set movies. requestable m \<Longrightarrow>
   fst (push_details env movies (acc, st)) = None
   \<and> fst (snd (push_details env movies (acc, st))) =
       acc @ map (\<lambda>i. enriched env (length (requests st) + i) (movies ! i)) [0..<length movies]"
proof (induction movies arbitrary: acc st)
  case Nil
  then show ?case by simp
next
  case (Cons m ms)
  define st1 where "st1 = snd (await (makeOMDBRequest env (detail_url env (printed (get_prop m ''imdbID''))) st))"
  have len: "length (requests st1) = Suc (length (requests st))"
    by (simp add: st1_def awaited_state)
  have step: "push_details env (m # ms) (acc, st) =
      push_details env ms (acc @ [enriched env (length (requests st)) m], st1)"
    unfolding st1_def using Cons.prems by (intro push_details_step) simp
  have ih: "fst (push_details env ms (acc @ [enriched env (length (requests st)) m], st1)) = None
   \<and> fst (snd (push_details env ms (acc @ [enriched env (length (requests st)) m], st1))) =
       (acc @ [enriched env (length (requests st)) m]) @
         map (\<lambda>i. enriched env (length (requests st1) + i) (ms ! i)) [0..<length ms]"
    using Cons.IH [of "acc @ [enriched env (length (requests st)) m]" st1] Cons.prems by simp
  have "map (\<lambda>i. enriched env (length (requests st) + i) ((m # ms) ! i)) [0..<length (m # ms)] =
      enriched env (length (requests st)) m #
        map (\<lambda>i. enriched env (length (requests st1) + i) (ms ! i)) [0..<length ms]"
    by (simp add: upt_conv_Cons map_Suc_upt [symmetric] len del: upt_Suc)
  then show ?case
    using ih by (simp only: step) simp
qed

lemma first_three_length: "first_three v = Inr movies \<Longrightarrow> length movies \<le> 3"
  by (auto simp: first_three_def split: jsval.splits)

lemma fetch_trending_appends:
  "\<exists>new. fst (fetch_trending env search (acc, st)) = acc @ new \<and> length new \<le> 3"
proof -
  obtain r st1 where req: "await (makeOMDBRequest env (search_url env search ''1'') st) = (r, st1)"
    by (cases "await (makeOMDBRequest env (search_url env search ''1'') st)")
  have pushed: "\<exists>new. fst (snd (push_details env movies (acc, st1))) = acc @ new \<and> length new \<le> 3"
    if "first_three v = Inr movies" for v movies
    using push_details_appends [of env movies acc st1] first_three_length [OF that] by fastforce
  have "fst (fetch_trending env search (acc, st)) = acc
    \<or> (\<exists>v movies. first_three v = Inr movies
          \<and> fst (fetch_trending env search (acc, st)) = fst (snd (push_details env movies (acc, st1))))"
    using req
    by (auto simp: fetch_trending_def split_beta split: sum.splits option.splits)
  then show ?thesis using pushed by fastforce
qed

lemma fetch_trending_failed:
  "provider_trending env st search = Inl cause \<Longrightarrow>
   fst (fetch_trending env search (acc, st)) = acc"
  by (simp add: fetch_trending_def provider_trending_def awaited)

lemma fetch_trending_matched:
  assumes "provider_trending env st search = Inr data"
    and "get_prop data ''Response'' = JStr ''True''"
    and "get_prop data ''Search'' = JArr hits"
    and "\<forall>h\<in>set (take 3 hits). requestable h"
  shows "fst (fetch_trending env search (acc, st)) =
     acc @ map (\<lambda>i. enriched env (Suc (length (requests st)) + i) (hits ! i)) [0..<min 3 (length hits)]"
proof -
  define st1 where "st1 = st\<lparr>requests := requests st @ [search_url env search ''1'']\<rparr>"
  have req: "await (makeOMDBRequest env (search_url env search ''1'') st) = (Inr data, st1)"
    using assms(1) by (simp add: provider_trending_def awaited st1_def)
  have nn: "\<not> nullish data"
    using assms(2) get_prop_nullish by fastforce
  have three: "first_three (get_prop data ''Search'') = Inr (take 3 hits)"
    by (simp add: first_three_def assms(3))
  have p: "fst (push_details env (take 3 hits) (acc, st1)) = None
    \<and> fst (snd (push_details env (take 3 hits) (acc, st1))) =
        acc @ map (\<lambda>i. enriched env (length (requests st1) + i) (take 3 hits ! i)) [0..<length (take 3 hits)]"
    by (rule push_details_enriched [OF assms(4)])
  have "fst (fetch_trending env search (acc, st)) = fst (snd (push_details env (take 3 hits) (acc, st1)))"
    using req nn assms(2,3) three p
    by (simp add: fetch_trending_def split_beta split: option.splits)
  also have "\<dots> = acc @ map (\<lambda>i. enriched env (Suc (length (requests st)) + i) (hits ! i)) [0..<min 3 (length hits)]"
    using p by (simp add: st1_def min.commute)
  finally show ?thesis .
qed

lemma findIndex_range: "findIndex P k xs = - 1 \<or> int k \<le> findIndex P k xs"
proof (induction xs arbitrary: k)
  case Nil
  then show ?case by simp
next
  case (Cons x xs)
  then show ?case using Cons.IH [of "Suc k"] by auto
qed

lemma findIndex_iff:
  "i < length xs \<Longrightarrow>
   (int (k + i) = findIndex P k xs) = (P (k + i) (xs ! i) \<and> (\<forall>j<i. \<not> P (k + j) (xs ! j)))"
proof (induction xs arbitrary: k i)
  case Nil
  then show ?case by simp
next
  case (Cons x xs)
  show ?case
  proof (cases i)
    case 0
    then show ?thesis using findIndex_range [of P "Suc k" xs] by auto
  next
    case (Suc i')
    then have i': "i' < length xs" using Cons.prems by simp
    show ?thesis
    proof (cases "P k x")
      case True
      then have "\<not> (\<forall>j<i. \<not> P (k + j) ((x # xs) ! j))"
        using Suc by (auto intro: exI [of _ 0])
      then show ?thesis using True Suc by simp
    next
      case False
      have "(\<forall>j<Suc i'. \<not> P (k + j) ((x # xs) ! j)) = (\<forall>j<i'. \<not> P (Suc k + j) (xs ! j))"
        using False by (auto simp: less_Suc_eq_0_disj)
      then show ?thesis
        using False Suc Cons.IH [OF i', of "Suc k"] by simp
    qed
  qed
qed

lemma strict_equals_same: "strict_equals True a a"
  by (simp add: strict_equals_def)

lemma filter_first_index:
  assumes "whole = pre @ ms" and "n = length pre"
  shows "map snd
       (filter
          (\<lambda>(index, movie).
             int index =
               findIndex
                 (\<lambda>j m. strict_equals (j = index) (get_prop m ''imdbID'') (get_prop movie ''imdbID''))
                 0 whole)
          (enumerate n ms)) =
     keep_first pre ms"
  using assms
proof (induction ms arbitrary: pre n)
  case Nil
  then show ?case by simp
next
  case (Cons m ms)
  let ?P = "\<lambda>j m'. strict_equals (j = n) (get_prop m' ''imdbID'') (get_prop m ''imdbID'')"
  have n: "n < length whole" "whole ! n = m"
    using Cons.prems by simp_all
  have "(int n = findIndex ?P 0 whole) = (?P n (whole ! n) \<and> (\<forall>j<n. \<not> ?P j (whole ! j)))"
    using findIndex_iff [OF n(1), of 0 ?P] by simp
  also have "\<dots> = (\<forall>j<n. \<not> same_id (pre ! j) m)"
    using n Cons.prems by (auto simp: strict_equals_same same_id_def nth_append)
  also have "\<dots> = (\<not> list_ex (\<lambda>s. same_id s m) pre)"
    using Cons.prems(2) by (simp add: list_ex_iff) (metis in_set_conv_nth)
  finally have head: "(int n = findIndex ?P 0 whole) = (\<not> list_ex (\<lambda>s. same_id s m) pre)" .
  have tail: "map snd
       (filter
          (\<lambda>(index, movie).
             int index =
               findIndex
                 (\<lambda>j m. strict_equals (j = index) (get_prop m ''imdbID'') (get_prop movie ''imdbID''))
                 0 whole)
          (enumerate (Suc n) ms)) =
     keep_first (pre @ [m]) ms"
    using Cons.prems by (intro Cons.IH) simp_all
  show ?case
    using head tail by simp
qed

lemma uniqueMovies_dedup: "uniqueMovies popularMovies = take 25 (dedup_keep_first popularMovies)"
  unfolding uniqueMovies_def dedup_keep_first_def
  by (subst filter_first_index [of popularMovies "[]" popularMovies 0]) simp_all

lemma keep_first_member:
  "x \<in> set (keep_first seen ms) \<Longrightarrow> x \<in> set ms \<and> \<not> list_ex (\<lambda>s. same_id s x) seen"
proof (induction ms arbitrary: seen)
  case Nil
  then show ?case by simp
next
  case (Cons m ms)
  show ?case
  proof (cases "x \<in> set (keep_first (seen @ [m]) ms)")
    case True
    then show ?thesis using Cons.IH [of "seen @ [m]"] by (auto simp: list_ex_iff)
  next
    case False
    then have "x = m" "\<not> list_ex (\<lambda>s. same_id s m) seen"
      using Cons.prems by (auto split: if_splits)
    then show ?thesis by simp
  qed
qed

lemma keep_first_pairwise:
  "i < j \<Longrightarrow> j < length (keep_first seen ms) \<Longrightarrow>
   \<not> same_id (keep_first seen ms ! i) (keep_first seen ms ! j)"
proof (induction ms arbitrary: seen i j)
  case Nil
  then show ?case by simp
next
  case (Cons m ms)
  show ?case
  proof (cases "list_ex (\<lambda>s. same_id s m) seen")
    case True
    then show ?thesis using Cons.IH [of i j "seen @ [m]"] Cons.prems by simp
  next
    case False
    then have eq: "keep_first seen (m # ms) = m # keep_first (seen @ [m]) ms" by simp
    obtain j' where j': "j = Suc j'" using Cons.prems(1) by (cases j) auto
    have j'len: "j' < length (keep_first (seen @ [m]) ms)"
      using Cons.prems(2) eq j' by simp
    show ?thesis
    proof (cases i)
      case 0
      have "keep_first (seen @ [m]) ms ! j' \<in> set (keep_first (seen @ [m]) ms)"
        using j'len by simp
      then have "\<not> list_ex (\<lambda>s. same_id s (keep_first (seen @ [m]) ms ! j')) (seen @ [m])"
        using keep_first_member by blast
      then have "\<not> same_id m (keep_first (seen @ [m]) ms ! j')"
        by (simp add: list_ex_iff)
      then show ?thesis using 0 j' eq by simp
    next
      case (Suc i')
      then show ?thesis
        using Cons.IH [of i' j' "seen @ [m]"] Cons.prems(1) j' j'len eq by simp
    qed
  qed
qed

lemma pairwise_distinct_ids:
  assumes "\<forall>i j. i < j \<and> j < length ms \<longrightarrow> \<not> same_id (ms ! i) (ms ! j)"
    and "\<forall>m\<in>set ms. \<not> is_object (get_prop m ''imdbID'')"
  shows "distinct (map (\<lambda>m. get_prop m ''imdbID'') ms)"
proof -
  have ne: "get_prop (ms ! i) ''imdbID'' \<noteq> get_prop (ms ! j) ''imdbID''"
    if "i < j" "j < length ms" for i j
  proof -
    have "\<not> same_id (ms ! i) (ms ! j)" using assms(1) that by blast
    moreover have "\<not> is_object (get_prop (ms ! i) ''imdbID'')" "\<not> is_object (get_prop (ms ! j) ''imdbID'')"
      using assms(2) that by simp_all
    ultimately show ?thesis by (simp add: same_id_def strict_equals_def)
  qed
  have "map (\<lambda>m. get_prop m ''imdbID'') ms ! i \<noteq> map (\<lambda>m. get_prop m ''imdbID'') ms ! j"
    if "i < length ms" "j < length ms" "i \<noteq> j" for i j
  proof (cases "i < j")
    case True
    then show ?thesis using ne [of i j] that by simp
  next
    case False
    then have "j < i" using that by simp
    then show ?thesis using ne [of j i] that by (simp add: not_sym)
  qed
  then show ?thesis
    by (simp add: distinct_conv_nth)
qed

lemma dedup_pairwise:
  "i < j \<Longrightarrow> j < length (take n (dedup_keep_first ms)) \<Longrightarrow>
   \<not> same_id (take n (dedup_keep_first ms) ! i) (take n (dedup_keep_first ms) ! j)"
  using keep_first_pairwise [of i j "[]" ms] by (simp add: dedup_keep_first_def)

lemma popular_handler_miss:
  "cache_get t_get ''popular:movies'' st = None \<Longrightarrow>
   fst (popular_handler env t_get t_set st) =
     (200, PopularMovies (uniqueMovies (fst (fold (fetch_trending env) trendingSearches ([], st)))))"
  by (simp add: popular_handler_def split_beta)

lemma curated_dedup: "curated (PopularMovies (take 25 (dedup_keep_first ms)))"
  using dedup_pairwise [of _ _ 25 ms] by (simp add: curated_def)

lemma popular_handler_curated:
  assumes "popular_entry_curated st"
  shows "fst (fst (popular_handler env t_get t_set st)) = 200"
    and "curated (snd (fst (popular_handler env t_get t_set st)))"
    and "popular_entry_curated (snd (popular_handler env t_get t_set st))"
proof -
  show "fst (fst (popular_handler env t_get t_set st)) = 200"
    by (simp add: popular_handler_def split_beta split: option.splits)
  show "curated (snd (fst (popular_handler env t_get t_set st)))"
  proof (cases "cache_get t_get ''popular:movies'' st")
    case None
    then show ?thesis by (simp add: popular_handler_miss uniqueMovies_dedup curated_dedup)
  next
    case (Some c)
    then obtain expires where "cache st ''popular:movies'' = Some (c, expires)"
      by (auto simp: cache_get_def split: option.splits if_splits)
    then have "curated c" using assms by (simp add: popular_entry_curated_def)
    then show ?thesis using Some by (simp add: popular_handler_def)
  qed
  show "popular_entry_curated (snd (popular_handler env t_get t_set st))"
  proof (cases "cache_get t_get ''popular:movies'' st")
    case None
    then show ?thesis
      by (simp add: popular_handler_def split_beta cache_set_def popular_entry_curated_def
          uniqueMovies_dedup curated_dedup)
  next
    case (Some c)
    then show ?thesis using assms by (simp add: popular_handler_def)
  qed
qed

lemma search_handler_popular_entry:
  "cache (snd (search_handler env req t_get t_set st)) ''popular:movies'' = cache st ''popular:movies''"
proof -
  have key: "search_key query page \<noteq> ''popular:movies''" for query page
    by (simp add: search_key_def)
  have "cache (snd (search_fresh env query page ip st)) = cache st" for query page ip
    by (rule search_fresh_cache)
  then show ?thesis
    using key key [symmetric]
    by (simp add: search_handler_def split_beta cache_set_def split: sum.splits option.splits)
qed

lemma movie_handler_popular_entry:
  "cache (snd (movie_handler env i t_get t_set st)) ''popular:movies'' = cache st ''popular:movies''"
proof -
  have key: "movie_key i \<noteq> ''popular:movies''"
    by (simp add: movie_key_def)
  have "cache (snd (await (makeOMDBRequest env url st))) = cache st" for url
    by (rule awaited_state)
  then show ?thesis
    using key key [symmetric]
    by (simp add: movie_handler_def split_beta cache_set_def split: sum.splits option.splits)
qed

lemma handlers_keep_popular_entry_curated:
  "popular_entry_curated st \<Longrightarrow> popular_entry_curated (snd (search_handler env req t_get t_set st))"
  "popular_entry_curated st \<Longrightarrow> popular_entry_curated (snd (movie_handler env i t_get t_set st))"
  "popular_entry_curated st \<Longrightarrow> popular_entry_curated (snd (movie_imdbID_handler env i st))"
  "popular_entry_curated empty_state"
proof -
  show "popular_entry_curated st \<Longrightarrow> popular_entry_curated (snd (search_handler env req t_get t_set st))"
    by (simp add: popular_entry_curated_def search_handler_popular_entry)
  show "popular_entry_curated st \<Longrightarrow> popular_entry_curated (snd (movie_handler env i t_get t_set st))"
    by (simp add: popular_entry_curated_def movie_handler_popular_entry)
  show "popular_entry_curated st \<Longrightarrow> popular_entry_curated (snd (movie_imdbID_handler env i st))"
    by (simp add: popular_entry_curated_def movie_imdbID_handler_def awaited_state split_beta
        split: sum.splits)
  show "popular_entry_curated empty_state"
    by (simp add: popular_entry_curated_def empty_state_def)
qed

lemma scenario_detail_fails:
  "enriched scenario_provider k (scenario_hit i) = scenario_hit i"
  by (simp add: enriched_def scenario_provider_def scenario_hit_def detail_url_def omdb_base_def printed_def)

lemma scenario_failed_seed:
  assumes "search \<noteq> ''Marvel''" and "search \<noteq> ''Batman''"
  shows "fst (fetch_trending scenario_provider search x) = fst x"
proof -
  have "provider_trending scenario_provider (snd x) search = Inl ''Request failed with status code 401''"
    using assms by (simp add: provider_trending_def scenario_provider_def search_url_def omdb_base_def)
  then have "fst (fetch_trending scenario_provider search (fst x, snd x)) = fst x"
    by (rule fetch_trending_failed)
  then show ?thesis by simp
qed

lemma scenario_matched_seed:
  assumes "provider_trending scenario_provider (snd x) search = Inr (scenario_page ids)"
  shows "fst (fetch_trending scenario_provider search x) = fst x @ map scenario_hit (take 3 ids)"
proof -
  have r: "get_prop (scenario_page ids) ''Response'' = JStr ''True''"
    and h: "get_prop (scenario_page ids) ''Search'' = JArr (map scenario_hit ids)"
    by (simp_all add: scenario_page_def)
  have n: "\<forall>h\<in>set (take 3 (map scenario_hit ids)). requestable h"
  proof
    fix h
    assume "h \<in> set (take 3 (map scenario_hit ids))"
    then have "h \<in> set (map scenario_hit ids)" by (rule in_set_takeD)
    then obtain i where "h = scenario_hit i" by auto
    then show "requestable h" by (simp add: scenario_hit_def requestable_def converts_def)
  qed
  have "fst (fetch_trending scenario_provider search (fst x, snd x)) =
      fst x @ map (\<lambda>i. enriched scenario_provider (Suc (length (requests (snd x))) + i) (map scenario_hit ids ! i))
                [0..<min 3 (length (map scenario_hit ids))]"
    by (rule fetch_trending_matched [OF assms r h n])
  also have "map (\<lambda>i. enriched scenario_provider (Suc (length (requests (snd x))) + i) (map scenario_hit ids ! i))
                [0..<min 3 (length (map scenario_hit ids))] =
      map (\<lambda>i. map scenario_hit ids ! i) [0..<min 3 (length (map scenario_hit ids))]"
    by (rule map_cong) (simp_all add: scenario_detail_fails)
  also have "\<dots> = take 3 (map scenario_hit ids)"
    by (rule nth_equalityI) simp_all
  finally show ?thesis by (simp add: take_map)
qed

lemma scenario_accumulated:
  "fst (fold (fetch_trending scenario_provider) trendingSearches ([], empty_state)) =
     map scenario_hit [''m1'', ''m2'', ''m3'', ''m2'', ''b2'', ''b3'']"
proof -
  have marvel: "provider_trending scenario_provider st ''Marvel'' =
      Inr (scenario_page [''m1'', ''m2'', ''m3'', ''m4''])" for st
    by (simp add: provider_trending_def scenario_provider_def search_url_def omdb_base_def)
  have batman: "provider_trending scenario_provider st ''Batman'' =
      Inr (scenario_page [''m2'', ''b2'', ''b3''])" for st
    by (simp add: provider_trending_def scenario_provider_def search_url_def omdb_base_def)
  show ?thesis
    by (simp add: trendingSearches_def scenario_failed_seed
        scenario_matched_seed [OF marvel] scenario_matched_seed [OF batman])
qed

lemma scenario_deduplicated:
  "take 25 (dedup_keep_first (map scenario_hit [''m1'', ''m2'', ''m3'', ''m2'', ''b2'', ''b3''])) =
     map scenario_hit [''m1'', ''m2'', ''m3'', ''b2'', ''b3'']"
  by (simp add: dedup_keep_first_def same_id_def strict_equals_def scenario_hit_def)

text \<open>
  Claim C4. When \<^verbatim>\<open>GET /api/popular\<close> misses the cache, it answers with status 200 and
  the list accumulated over the seeds in their order, deduplicated by id keeping the first
  occurrence and cut to its first 25 entries. No two entries of the answer have the same
  id, so that the ids are distinct when they are primitive values (strings, as the
  provider sends them), and the answer has at most 25 entries. Each seed appends at most
  three entries to the list accumulated so far; a seed for which the provider sends a page
  of hits, the first three of which are not \<^verbatim>\<open>null\<close> and have ids that convert to
  strings, appends its first three hits in the provider's order, each enriched or, when
  its detail request fails, as it is. An answer served from the cache is an answer stored
  earlier: from a state whose cache holds nothing or a curated answer under
  \<^verbatim>\<open>popular:movies\<close>, every execution answers with status 200 and a curated answer and
  leaves such a state.
\<close>

theorem popular_curation:
  assumes "cache_get t_get ''popular:movies'' st = None"
    and "popularMovies = fst (fold (fetch_trending env) trendingSearches ([], st))"
    and "result = take 25 (dedup_keep_first popularMovies)"
  shows "fst (popular_handler env t_get t_set st) = (200, PopularMovies result)
    \<and> (\<forall>i j. i < j \<and> j < length result \<longrightarrow> \<not> same_id (result ! i) (result ! j))
    \<and> ((\<forall>m\<in>set result. \<not> is_object (get_prop m ''imdbID''))
          \<longrightarrow> distinct (map (\<lambda>m. get_prop m ''imdbID'') result))
    \<and> length result \<le> 25
    \<and> (\<exists>new. fst (fetch_trending env search (acc, st1)) = acc @ new \<and> length new \<le> 3)
    \<and> (provider_trending env st1 search = Inr data
          \<and> get_prop data ''Response'' = JStr ''True''
          \<and> get_prop data ''Search'' = JArr hits
          \<and> (\<forall>h\<in>set (take 3 hits). requestable h)
        \<longrightarrow> fst (fetch_trending env search (acc, st1)) =
              acc @ map (\<lambda>i. enriched env (Suc (length (requests st1)) + i) (hits ! i))
                      [0..<min 3 (length hits)])
    \<and> (popular_entry_curated st2
        \<longrightarrow> fst (fst (popular_handler env2 t_get2 t_set2 st2)) = 200
          \<and> curated (snd (fst (popular_handler env2 t_get2 t_set2 st2)))
          \<and> popular_entry_curated (snd (popular_handler env2 t_get2 t_set2 st2)))"
proof (intro conjI impI)
  show "fst (popular_handler env t_get t_set st) = (200, PopularMovies result)"
    using assms by (simp add: popular_handler_miss uniqueMovies_dedup)
  show pairwise: "\<forall>i j. i < j \<and> j < length result \<longrightarrow> \<not> same_id (result ! i) (result ! j)"
    unfolding assms(3) using dedup_pairwise by blast
  show "distinct (map (\<lambda>m. get_prop m ''imdbID'') result)"
    if "\<forall>m\<in>set result. \<not> is_object (get_prop m ''imdbID'')"
    using pairwise that by (rule pairwise_distinct_ids)
  show "length result \<le> 25"
    by (simp add: assms(3))
  show "\<exists>new. fst (fetch_trending env search (acc, st1)) = acc @ new \<and> length new \<le> 3"
    by (rule fetch_trending_appends)
next
  assume a: "provider_trending env st1 search = Inr data
          \<and> get_prop data ''Response'' = JStr ''True''
          \<and> get_prop data ''Search'' = JArr hits
          \<and> (\<forall>h\<in>set (take 3 hits). requestable h)"
  then have p: "provider_trending env st1 search = Inr data"
    and r: "get_prop data ''Response'' = JStr ''True''"
    and h: "get_prop data ''Search'' = JArr hits"
    and n: "\<forall>h\<in>set (take 3 hits). requestable h"
    by simp_all
  show "fst (fetch_trending env search (acc, st1)) =
      acc @ map (\<lambda>i. enriched env (Suc (length (requests st1)) + i) (hits ! i)) [0..<min 3 (length hits)]"
    by (rule fetch_trending_matched [OF p r h n])
next
  assume c: "popular_entry_curated st2"
  show "fst (fst (popular_handler env2 t_get2 t_set2 st2)) = 200"
    using c by (rule popular_handler_curated)
  show "curated (snd (fst (popular_handler env2 t_get2 t_set2 st2)))"
    using c by (rule popular_handler_curated)
  show "popular_entry_curated (snd (popular_handler env2 t_get2 t_set2 st2))"
    using c by (rule popular_handler_curated)
qed

theorem popular_curation_witness:
  "cache_get 0 ''popular:movies'' empty_state = None
   \<and> fst (fold (fetch_trending scenario_provider) trendingSearches ([], empty_state)) =
       map scenario_hit [''m1'', ''m2'', ''m3'', ''m2'', ''b2'', ''b3'']
   \<and> fst (popular_handler scenario_provider 0 5 empty_state) =
       (200, PopularMovies (map scenario_hit [''m1'', ''m2'', ''m3'', ''b2'', ''b3'']))
   \<and> distinct (map (\<lambda>m. get_prop m ''imdbID'') (map scenario_hit [''m1'', ''m2'', ''m3'', ''b2'', ''b3'']))
   \<and> length (map scenario_hit [''m1'', ''m2'', ''m3'', ''b2'', ''b3'']) \<le> 25
   \<and> fst (fetch_trending scenario_provider ''Marvel'' ([], empty_state)) =
       map scenario_hit [''m1'', ''m2'', ''m3'']
   \<and> popular_entry_curated empty_state
   \<and> popular_entry_curated (snd (popular_handler scenario_provider 0 5 empty_state))"
proof -
  have miss: "cache_get 0 ''popular:movies'' empty_state = None"
    by (simp add: cache_get_def empty_state_def)
  have marvel: "provider_trending scenario_provider empty_state ''Marvel'' =
      Inr (scenario_page [''m1'', ''m2'', ''m3'', ''m4''])"
    by (simp add: provider_trending_def scenario_provider_def search_url_def omdb_base_def)
  have r: "get_prop (scenario_page [''m1'', ''m2'', ''m3'', ''m4'']) ''Response'' = JStr ''True''"
    and h: "get_prop (scenario_page [''m1'', ''m2'', ''m3'', ''m4'']) ''Search'' =
        JArr (map scenario_hit [''m1'', ''m2'', ''m3'', ''m4''])"
    by (simp_all add: scenario_page_def)
  have n: "\<forall>h\<in>set (take 3 (map scenario_hit [''m1'', ''m2'', ''m3'', ''m4''])). requestable h"
    by (simp add: scenario_hit_def requestable_def converts_def)
  have plain: "\<forall>m\<in>set (map scenario_hit [''m1'', ''m2'', ''m3'', ''b2'', ''b3'']).
      \<not> is_object (get_prop m ''imdbID'')"
    by (simp add: scenario_hit_def)
  note t = popular_curation [OF miss scenario_accumulated [symmetric] scenario_deduplicated [symmetric],
      where t_set = 5 and search = "''Marvel''" and acc = "[]" and ?st1.0 = empty_state
        and data = "scenario_page [''m1'', ''m2'', ''m3'', ''m4'']"
        and hits = "map scenario_hit [''m1'', ''m2'', ''m3'', ''m4'']"
        and ?st2.0 = empty_state and ?env2.0 = scenario_provider and ?t_get2.0 = 0 and ?t_set2.0 = 5]
  have start: "popular_entry_curated empty_state"
    by (simp add: popular_entry_curated_def empty_state_def)
  have fifth: "popular_entry_curated (snd (popular_handler scenario_provider 0 5 empty_state))"
    using t start by blast
  have first: "fst (popular_handler scenario_provider 0 5 empty_state) =
       (200, PopularMovies (map scenario_hit [''m1'', ''m2'', ''m3'', ''b2'', ''b3'']))"
    using t by blast
  have second: "distinct (map (\<lambda>m. get_prop m ''imdbID'') (map scenario_hit [''m1'', ''m2'', ''m3'', ''b2'', ''b3'']))"
    using t plain by blast
  have third: "length (map scenario_hit [''m1'', ''m2'', ''m3'', ''b2'', ''b3'']) \<le> 25"
    using t by blast
  have "fst (fetch_trending scenario_provider ''Marvel'' ([], empty_state)) =
      [] @ map (\<lambda>i. enriched scenario_provider (Suc (length (requests empty_state)) + i)
                      (map scenario_hit [''m1'', ''m2'', ''m3'', ''m4''] ! i))
             [0..<min 3 (length (map scenario_hit [''m1'', ''m2'', ''m3'', ''m4'']))]"
    using t marvel r h n by blast
  then have fourth: "fst (fetch_trending scenario_provider ''Marvel'' ([], empty_state)) =
       map scenario_hit [''m1'', ''m2'', ''m3'']"
    by (simp add: scenario_detail_fails upt_rec)
  show ?thesis
    using miss scenario_accumulated first second third fourth start fifth by blast
qed

subsection \<open>Ids that do not convert, and the order of the console\<close>

lemma search_fresh_matched_console:
  assumes "provider_search env st query page = Inr data"
    and "get_prop data ''Response'' = JStr ''True''"
    and "get_prop data ''Search'' = JArr hits"
    and "\<forall>h\<in>set hits. requestable h"
    and "converts (get_prop data ''totalResults'')"
    and "ps = fst (fan_out env hits (st\<lparr>requests := requests st @ [search_url env query (show_int page)]\<rparr>))"
  shows "\<exists>st3. snd (search_fresh env query page ip st) =
           save_history env query (parseInt_string (printed (get_prop data ''totalResults''))) ip st3
         \<and> console st3 = console st @ written_before ps"
proof -
  define st1 where "st1 = st\<lparr>requests := requests st @ [search_url env query (show_int page)]\<rparr>"
  have req: "await (makeOMDBRequest env (search_url env query (show_int page)) st) = (Inr data, st1)"
    using assms(1) by (simp add: provider_search_def awaited st1_def)
  have len: "length (requests st1) = Suc (length (requests st))"
    by (simp add: st1_def)
  define st2 where "st2 = snd (fan_out env hits st1)"
  define st3 where "st3 = st2\<lparr>console := console st2 @ written_before ps\<rparr>"
  have "map p_outcome (fst (fan_out env hits st1)) =
     map Inr (map (\<lambda>i. enriched env (Suc (length (requests st)) + i) (hits ! i)) [0..<length hits])"
    using fan_out_fulfils [OF assms(4), of env st1] len by simp
  then have "promise_all (fst (fan_out env hits st1)) =
     Inr (map (\<lambda>i. enriched env (Suc (length (requests st)) + i) (hits ! i)) [0..<length hits])"
    by (rule promise_all_fulfilled)
  moreover have "\<not> nullish data"
    using assms(2) get_prop_nullish by fastforce
  ultimately have "snd (search_fresh env query page ip st) =
     save_history env query (parseInt_string (printed (get_prop data ''totalResults''))) ip st3"
    using req assms(2,3) parseInt_converts [OF assms(5)]
    by (simp add: search_fresh_def split_beta st3_def st2_def assms(6) st1_def)
  moreover have "console st3 = console st @ written_before ps"
    by (simp add: st3_def st2_def fan_out_frame st1_def)
  ultimately show ?thesis by blast
qed

lemma detail_errors_in_settle_order:
  "console (snd (search_handler failing_details_provider batman_request 0 5 empty_state)) =
     [OmdbApiError ''Request failed with status code 500'', OmdbApiError ''timeout of 10000ms exceeded'']"
proof -
  have p: "provider_search failing_details_provider empty_state ''batman'' 1 = Inr batman_page"
    by (simp add: provider_search_def failing_details_provider_def empty_state_def)
  define ps where "ps = fst (fan_out failing_details_provider [batman_begins, dark_knight]
      (empty_state\<lparr>requests := requests empty_state @ [search_url failing_details_provider ''batman'' (show_int 1)]\<rparr>))"
  have ps: "ps =
     [\<lparr>p_outcome = Inr batman_begins, p_took = Some 10000,
        p_logged = [OmdbApiError ''timeout of 10000ms exceeded'']\<rparr>,
      \<lparr>p_outcome = Inr dark_knight, p_took = Some 80,
        p_logged = [OmdbApiError ''Request failed with status code 500'']\<rparr>]"
    by (simp add: ps_def enrich_def makeOMDBRequest_def failing_details_provider_def
        batman_begins_def dark_knight_def empty_state_def split_beta)
  have order: "settle_order (map settle_key ps) = [1, 0]"
    by (simp add: ps settle_key_def settle_order_def upt_rec)
  have before: "written_before ps =
     [OmdbApiError ''Request failed with status code 500'', OmdbApiError ''timeout of 10000ms exceeded'']"
    unfolding written_before_def settled_first_def order by (simp add: ps)
  obtain st3 where s: "snd (search_fresh failing_details_provider ''batman'' 1 (req_ip batman_request) empty_state) =
           save_history failing_details_provider ''batman''
             (parseInt_string (printed (get_prop batman_page ''totalResults''))) (req_ip batman_request) st3"
    and c: "console st3 = console empty_state @ written_before ps"
    using search_fresh_matched_console [OF p batman_page_props(1,2) batman_hits_requestable
        batman_count_converts ps_def] by blast
  have "console (snd (search_fresh failing_details_provider ''batman'' 1 (req_ip batman_request) empty_state)) =
      written_before ps"
  proof -
    have hc: "history_create failing_details_provider k doc = None" for k doc
      by (simp add: failing_details_provider_def)
    have "console (save_history failing_details_provider q n ip st3) = console st3" for q n ip
      by (simp add: save_history_def hc)
    moreover have "console empty_state = []" by (simp add: empty_state_def)
    ultimately show ?thesis by (simp only: s c append_Nil)
  qed
  moreover obtain r where "fst (search_fresh failing_details_provider ''batman'' 1 (req_ip batman_request) empty_state) = Inr r"
    using search_fresh_matched [OF p batman_page_props(1,2) batman_hits_requestable batman_count_converts]
    by blast
  ultimately show ?thesis
    by (simp add: search_handler_miss [OF batman_request_valid batman_miss] split_beta cache_set_def before)
qed

lemma search_fresh_rejected:
  assumes "provider_search env st query page = Inr data"
    and "get_prop data ''Response'' = JStr ''True''"
    and "get_prop data ''Search'' = JArr hits"
    and "st1 = st\<lparr>requests := requests st @ [search_url env query (show_int page)]\<rparr>"
    and "ps = fst (fan_out env hits st1)"
    and "promise_all ps = Inl e"
  shows "search_fresh env query page ip st =
     (Inl (e, written_after ps),
      (snd (fan_out env hits st1))\<lparr>console := console st @ written_before ps\<rparr>)"
proof -
  have req: "await (makeOMDBRequest env (search_url env query (show_int page)) st) = (Inr data, st1)"
    using assms(1) by (simp add: provider_search_def awaited assms(4))
  have "\<not> nullish data"
    using assms(2) get_prop_nullish by fastforce
  moreover have "console (snd (fan_out env hits st1)) = console st"
    by (simp add: fan_out_frame assms(4))
  ultimately show ?thesis
    using req assms(2,3,6) by (simp add: search_fresh_def split_beta assms(5) [symmetric])
qed

lemma odd_id_not_requestable:
  "\<not> requestable (JObj [(''imdbID'', JObj [(''toString'', JNum 1)])])"
  by (simp add: requestable_def converts_def)

lemma unconvertible_id_fails:
  "fst (search_handler odd_id_provider batman_request 0 5 empty_state) =
      (500, Failure (JStr ''Internal server error''))
   \<and> requests (snd (search_handler odd_id_provider batman_request 0 5 empty_state)) =
      [''https://www.omdbapi.com/?apikey=k&s=batman&page=1'',
       ''https://www.omdbapi.com/?apikey=k&i=tt0372784'',
       ''https://www.omdbapi.com/?apikey=k&i=tt0468569'']
   \<and> console (snd (search_handler odd_id_provider batman_request 0 5 empty_state)) =
      [SearchError TypeError,
       OmdbApiError ''Request failed with status code 500'',
       OmdbApiError ''timeout of 10000ms exceeded'']
   \<and> cache (snd (search_handler odd_id_provider batman_request 0 5 empty_state)) = cache empty_state"
proof -
  let ?hits = "[batman_begins, JObj [(''imdbID'', JObj [(''toString'', JNum 1)])], dark_knight]"
  have p: "provider_search odd_id_provider empty_state ''batman'' 1 = Inr odd_id_page"
    by (simp add: provider_search_def odd_id_provider_def empty_state_def)
  have props: "get_prop odd_id_page ''Response'' = JStr ''True''"
    "get_prop odd_id_page ''Search'' = JArr ?hits"
    by (simp_all add: odd_id_page_def)
  have url: "search_url odd_id_provider ''batman'' (show_int 1) =
      ''https://www.omdbapi.com/?apikey=k&s=batman&page=1''"
    by (simp add: batman_search_url omdb_base_def odd_id_provider_def)
  define st1 where "st1 = empty_state\<lparr>requests := requests empty_state @ [search_url odd_id_provider ''batman'' (show_int 1)]\<rparr>"
  define ps where "ps = fst (fan_out odd_id_provider ?hits st1)"
  have fan: "fan_out odd_id_provider ?hits st1 =
     ([\<lparr>p_outcome = Inr batman_begins, p_took = Some 10000,
         p_logged = [OmdbApiError ''timeout of 10000ms exceeded'']\<rparr>,
       \<lparr>p_outcome = Inl TypeError, p_took = None, p_logged = []\<rparr>,
       \<lparr>p_outcome = Inr dark_knight, p_took = Some 80,
         p_logged = [OmdbApiError ''Request failed with status code 500'']\<rparr>],
      st1\<lparr>requests := requests st1 @ [''https://www.omdbapi.com/?apikey=k&i=tt0372784'',
                                         ''https://www.omdbapi.com/?apikey=k&i=tt0468569'']\<rparr>)"
    by (simp add: st1_def url enrich_def makeOMDBRequest_def odd_id_provider_def detail_url_def omdb_base_def
        batman_begins_def dark_knight_def empty_state_def split_beta)
  have ps: "ps =
      [\<lparr>p_outcome = Inr batman_begins, p_took = Some 10000,
         p_logged = [OmdbApiError ''timeout of 10000ms exceeded'']\<rparr>,
       \<lparr>p_outcome = Inl TypeError, p_took = None, p_logged = []\<rparr>,
       \<lparr>p_outcome = Inr dark_knight, p_took = Some 80,
         p_logged = [OmdbApiError ''Request failed with status code 500'']\<rparr>]"
    by (simp only: ps_def fan fst_conv)
  have order: "settle_order (map settle_key ps) = [1, 2, 0]"
    by (simp add: ps settle_key_def settle_order_def upt_rec)
  have rejected: "promise_all ps = Inl TypeError"
    unfolding promise_all_def order by (simp add: ps)
  have before: "written_before ps = []"
    unfolding written_before_def settled_first_def order by (simp add: ps)
  have after: "written_after ps =
      [OmdbApiError ''Request failed with status code 500'', OmdbApiError ''timeout of 10000ms exceeded'']"
    unfolding written_after_def settled_first_def order by (simp add: ps)
  have fresh: "search_fresh odd_id_provider ''batman'' 1 (req_ip batman_request) empty_state =
     (Inl (TypeError, written_after ps),
      (snd (fan_out odd_id_provider ?hits st1))\<lparr>console := console empty_state @ written_before ps\<rparr>)"
    by (rule search_fresh_rejected [OF p props st1_def ps_def rejected])
  have "search_handler odd_id_provider batman_request 0 5 empty_state =
     ((500, Failure (JStr ''Internal server error'')),
      st1\<lparr>requests := requests st1 @ [''https://www.omdbapi.com/?apikey=k&i=tt0372784'',
                                         ''https://www.omdbapi.com/?apikey=k&i=tt0468569''],
         console := console empty_state @ [] @ [SearchError TypeError] @
           [OmdbApiError ''Request failed with status code 500'', OmdbApiError ''timeout of 10000ms exceeded'']\<rparr>)"
    by (simp add: search_handler_miss [OF batman_request_valid batman_miss] fresh before after fan
        del: fan_out.simps)
  then show ?thesis
    by (simp add: st1_def url empty_state_def)
qed

lemma push_details_until:
  "\<forall>m\<in>set pre. requestable m \<Longrightarrow> \<not> requestable x \<Longrightarrow>
   fst (push_details env (pre @ x # post) (acc, st)) = Some TypeError
   \<and> fst (snd (push_details env (pre @ x # post) (acc, st))) =
       acc @ map (\<lambda>i. enriched env (length (requests st) + i) (pre ! i)) [0..<length pre]
   \<and> length (requests (snd (snd (push_details env (pre @ x # post) (acc, st))))) =
       length (requests st) + length pre"
proof (induction pre arbitrary: acc st)
  case Nil
  then have "push_details env (x # post) (acc, st) = (Some TypeError, acc, st)"
    by (intro push_details_stops)
  then show ?case by simp
next
  case (Cons m ms)
  define st1 where "st1 = snd (await (makeOMDBRequest env (detail_url env (printed (get_prop m ''imdbID''))) st))"
  have len: "length (requests st1) = Suc (length (requests st))"
    by (simp add: st1_def awaited_state)
  have step: "push_details env ((m # ms) @ x # post) (acc, st) =
      push_details env (ms @ x # post) (acc @ [enriched env (length (requests st)) m], st1)"
    unfolding st1_def using Cons.prems by (simp only: append_Cons) (intro push_details_step, simp)
  have ih: "fst (push_details env (ms @ x # post) (acc @ [enriched env (length (requests st)) m], st1)) = Some TypeError
   \<and> fst (snd (push_details env (ms @ x # post) (acc @ [enriched env (length (requests st)) m], st1))) =
       (acc @ [enriched env (length (requests st)) m]) @
         map (\<lambda>i. enriched env (length (requests st1) + i) (ms ! i)) [0..<length ms]
   \<and> length (requests (snd (snd (push_details env (ms @ x # post)
          (acc @ [enriched env (length (requests st)) m], st1))))) = length (requests st1) + length ms"
    using Cons.IH [of "acc @ [enriched env (length (requests st)) m]" st1] Cons.prems by simp
  have "map (\<lambda>i. enriched env (length (requests st) + i) ((m # ms) ! i)) [0..<length (m # ms)] =
      enriched env (length (requests st)) m #
        map (\<lambda>i. enriched env (length (requests st1) + i) (ms ! i)) [0..<length ms]"
    by (simp add: upt_conv_Cons map_Suc_upt [symmetric] len del: upt_Suc)
  then show ?case
    using ih len by (simp only: step) simp
qed

end
